(* ===== verification/Prelude.thy ===== *)
theory Prelude
  imports Main
begin

text \<open>
  Shared ground of the development: Python's exceptions as values, programs that pass a
  state and may raise, rows of a table as lists with the queries the code puts to them,
  and the generic lemmas the components use. Nothing here models a file of its own.
\<close>

section \<open>Lemma collections\<close>

named_theorems prog_simps \<open>unfolding of state-passing programs\<close>
named_theorems row_simps \<open>queries and updates on the rows of a table\<close>

section \<open>Exceptions\<close>

text \<open>
  Every \<open>raise\<close> of the code, and every exception of Python or of the database that its
  code paths can meet, is a value of this type. Arguments carry what the message formats.
\<close>

datatype exn =
    ValueError
  | KeyError
  | TypeError
  | AttributeError
  | OverflowError
  | ZeroDivisionError
  | AssertionError int int
  | DoesNotExist
  | MultipleObjectsReturned
  | IntegrityError
  | HoldAbuseError
  | InsufficientInventoryError int int
  | RefundError string
  | PostCheckinRefundError nat
  | WebhookHandlerError
  | LemonSqueezySignatureError
  | ValidationError
  | ConnectionError
  | OperationalError

type_synonym 'a result = "exn + 'a"

text \<open>
  A uuid is known by its text, of which only equality matters. A look-up is always given
  one: on a text that is no uuid, Django raises \<open>ValidationError\<close> instead of finding nothing.
\<close>

type_synonym uuid = string

text \<open>Instants and durations are whole microseconds, the resolution of Python's \<open>datetime\<close>.\<close>

type_synonym instant = int

abbreviation usec_per_sec :: int where
  "usec_per_sec \<equiv> 1000000"

section \<open>Programs\<close>

text \<open>A program takes a state and returns a value or an exception together with the next state.\<close>

type_synonym ('s, 'a) prog = "'s \<Rightarrow> 'a result \<times> 's"

definition ret :: "'a \<Rightarrow> ('s, 'a) prog" where
  "ret x s = (Inr x, s)"

definition throw :: "exn \<Rightarrow> ('s, 'a) prog" where
  "throw e s = (Inl e, s)"

definition bindE :: "('s, 'a) prog \<Rightarrow> ('a \<Rightarrow> ('s, 'b) prog) \<Rightarrow> ('s, 'b) prog" where
  "bindE m f s = (case m s of (Inl e, s') \<Rightarrow> (Inl e, s') | (Inr x, s') \<Rightarrow> f x s')"

definition lift_result :: "('s \<Rightarrow> 'a result) \<Rightarrow> ('s, 'a) prog" where
  "lift_result f s = (f s, s)"

definition modify :: "('s \<Rightarrow> 's) \<Rightarrow> ('s, unit) prog" where
  "modify f s = (Inr (), f s)"

declare ret_def [prog_simps] throw_def [prog_simps] modify_def [prog_simps]
  lift_result_def [prog_simps] bindE_def [prog_simps]

lemma bindE_Inl [simp]: "m s = (Inl e, s') \<Longrightarrow> bindE m f s = (Inl e, s')"
  by (simp add: bindE_def)

lemma bindE_Inr [simp]: "m s = (Inr x, s') \<Longrightarrow> bindE m f s = f x s'"
  by (simp add: bindE_def)

lemma bindE_eq_InrE:
  assumes "bindE m f s = (Inr y, t)"
  obtains x s' where "m s = (Inr x, s')" and "f x s' = (Inr y, t)"
  using assms by (auto simp: bindE_def split: prod.splits sum.splits)

section \<open>Rows\<close>

text \<open>
  A table is the list of its rows. The order of the list stands for the unspecified order
  in which the database returns rows, so a statement about every list is a statement about
  every order. \<open>rows_get\<close> is \<open>objects.get\<close>, \<open>rows_update\<close> is \<open>filter(...).update(...)\<close>
  and a \<open>save(update_fields=...)\<close> of one row.
\<close>

definition rows_get :: "('r \<Rightarrow> bool) \<Rightarrow> 'r list \<Rightarrow> 'r result" where
  "rows_get P rs =
     (case filter P rs of
        [] \<Rightarrow> Inl DoesNotExist
      | [r] \<Rightarrow> Inr r
      | _ \<Rightarrow> Inl MultipleObjectsReturned)"

definition rows_update :: "('r \<Rightarrow> bool) \<Rightarrow> ('r \<Rightarrow> 'r) \<Rightarrow> 'r list \<Rightarrow> 'r list" where
  "rows_update P f rs = map (\<lambda>r. if P r then f r else r) rs"

definition rows_count :: "('r \<Rightarrow> bool) \<Rightarrow> 'r list \<Rightarrow> nat" where
  "rows_count P rs = length (filter P rs)"

lemma rows_get_Inr_D:
  assumes "rows_get P rs = Inr r"
  shows "r \<in> set rs" and "P r"
proof -
  from assms have "filter P rs = [r]"
    by (auto simp: rows_get_def split: list.splits)
  then have "r \<in> set (filter P rs)" by simp
  then show "r \<in> set rs" and "P r" by auto
qed

lemma rows_get_cong:
  "(\<And>r. r \<in> set rs \<Longrightarrow> P r = Q r) \<Longrightarrow> rows_get P rs = rows_get Q rs"
  by (simp add: rows_get_def cong: filter_cong)

lemma filter_key_singleton:
  "distinct (map key rs) \<Longrightarrow> r \<in> set rs \<Longrightarrow> key r = k \<Longrightarrow> filter (\<lambda>x. key x = k) rs = [r]"
proof (induction rs)
  case Nil
  then show ?case by simp
next
  case (Cons x rs)
  show ?case
  proof (cases "key x = k")
    case True
    with Cons.prems(1) have none: "\<And>y. y \<in> set rs \<Longrightarrow> key y \<noteq> k" by (auto simp: image_iff)
    then have "filter (\<lambda>x. key x = k) rs = []" by (simp add: filter_empty_conv)
    moreover from none Cons.prems have "r = x" by auto
    ultimately show ?thesis using True by simp
  next
    case False
    with Cons show ?thesis by auto
  qed
qed

lemma rows_get_key:
  "distinct (map key rs) \<Longrightarrow> r \<in> set rs \<Longrightarrow> key r = k \<Longrightarrow> rows_get (\<lambda>x. key x = k) rs = Inr r"
  by (simp add: rows_get_def filter_key_singleton)

lemma rows_get_key_iff:
  "distinct (map key rs) \<Longrightarrow>
   rows_get (\<lambda>x. key x = k) rs = Inr r \<longleftrightarrow> r \<in> set rs \<and> key r = k"
  by (blast intro: rows_get_key dest: rows_get_Inr_D)

lemma key_inj:
  "distinct (map key rs) \<Longrightarrow> r \<in> set rs \<Longrightarrow> r' \<in> set rs \<Longrightarrow> key r = key r' \<Longrightarrow> r = r'"
  by (simp add: distinct_map inj_on_def)

lemma set_rows_update [row_simps]:
  "set (rows_update P f rs) = (\<lambda>r. if P r then f r else r) ` set rs"
  by (simp add: rows_update_def)

lemma length_rows_update [row_simps, simp]: "length (rows_update P f rs) = length rs"
  by (simp add: rows_update_def)

lemma rows_update_Nil [simp]: "rows_update P f [] = []"
  by (simp add: rows_update_def)

lemma rows_update_Cons [simp]:
  "rows_update P f (r # rs) = (if P r then f r else r) # rows_update P f rs"
  by (simp add: rows_update_def)

lemma mem_rows_update:
  "x \<in> set (rows_update P f rs) \<longleftrightarrow> (\<exists>r\<in>set rs. x = (if P r then f r else r))"
  by (induction rs) auto

lemma bex_rows_update:
  "(\<exists>x\<in>set (rows_update P f rs). Q x) \<longleftrightarrow> (\<exists>r\<in>set rs. Q (if P r then f r else r))"
  by (induction rs) auto

lemma ball_rows_update:
  "(\<forall>x\<in>set (rows_update P f rs). Q x) \<longleftrightarrow> (\<forall>r\<in>set rs. Q (if P r then f r else r))"
  by (induction rs) auto

lemma map_rows_update [row_simps]:
  "(\<And>r. P r \<Longrightarrow> g (f r) = g r) \<Longrightarrow> map g (rows_update P f rs) = map g rs"
  by (simp add: rows_update_def)

lemma rows_update_none:
  "(\<And>r. r \<in> set rs \<Longrightarrow> \<not> P r) \<Longrightarrow> rows_update P f rs = rs"
  by (simp add: rows_update_def map_idI)

lemma sum_list_rows_update:
  fixes g :: "'r \<Rightarrow> int"
  assumes "distinct (map key rs)" and "r \<in> set rs" and "key r = k"
  shows "sum_list (map g (rows_update (\<lambda>x. key x = k) f rs))
           = sum_list (map g rs) + g (f r) - g r"
  using assms
proof (induction rs)
  case Nil
  then show ?case by simp
next
  case (Cons x rs)
  show ?case
  proof (cases "key x = k")
    case True
    with Cons.prems(1) have "\<And>y. y \<in> set rs \<Longrightarrow> key y \<noteq> k" by (auto simp: image_iff)
    then have "rows_update (\<lambda>x. key x = k) f rs = rs" and "r \<notin> set rs"
      using Cons.prems(3) by (auto intro!: rows_update_none)
    with True Cons.prems(2) show ?thesis by simp
  next
    case False
    with Cons show ?thesis by auto
  qed
qed

lemma sum_list_nonneg_int:
  fixes g :: "'r \<Rightarrow> int"
  shows "(\<And>r. r \<in> set rs \<Longrightarrow> 0 \<le> g r) \<Longrightarrow> 0 \<le> sum_list (map g rs)"
  by (induction rs) auto

lemma member_le_sum_list_int:
  fixes g :: "'r \<Rightarrow> int"
  assumes "\<And>r. r \<in> set rs \<Longrightarrow> 0 \<le> g r" and "r \<in> set rs"
  shows "g r \<le> sum_list (map g rs)"
  using assms
proof (induction rs)
  case Nil
  then show ?case by simp
next
  case (Cons x rs)
  then have "0 \<le> sum_list (map g rs)" by (intro sum_list_nonneg_int) auto
  with Cons show ?case by fastforce
qed

section \<open>Lists\<close>

definition last_option :: "'a list \<Rightarrow> 'a option" where
  "last_option xs = (if xs = [] then None else Some (last xs))"

lemma last_option_simps [simp]:
  "last_option [] = None"
  "last_option (xs @ [x]) = Some x"
  by (simp_all add: last_option_def)

lemma last_option_None_iff [simp]: "last_option xs = None \<longleftrightarrow> xs = []"
  by (simp add: last_option_def)

lemma last_option_SomeD: "last_option xs = Some x \<Longrightarrow> xs \<noteq> [] \<and> x = last xs"
  by (auto simp: last_option_def split: if_splits)

section \<open>Texts\<close>

text \<open>
  A string of the model is the UTF-8 encoding of the Python text. Where the code counts or
  compares characters, the bytes are first grouped: a character is a byte with the
  continuation bytes (128 to 191) that follow it.
\<close>

definition continuation :: "char \<Rightarrow> bool" where
  "continuation c \<longleftrightarrow> 128 \<le> (of_char c :: nat) \<and> (of_char c :: nat) < 192"

fun utf8_chars :: "string \<Rightarrow> string list" where
  "utf8_chars [] = []"
| "utf8_chars [c] = [[c]]"
| "utf8_chars (c # c' # cs) =
     (case utf8_chars (c' # cs) of
        [] \<Rightarrow> [[c]]
      | p # ps \<Rightarrow> if continuation c' then (c # p) # ps else [c] # p # ps)"

definition char_length :: "string \<Rightarrow> nat" where
  "char_length s = length (utf8_chars s)"

text \<open>The characters for which \<open>str.isspace\<close> holds.\<close>

definition py_spaces :: "string list" where
  "py_spaces =
     [[CHR 0x09], [CHR 0x0A], [CHR 0x0B], [CHR 0x0C], [CHR 0x0D], [CHR 0x1C], [CHR 0x1D], [CHR 0x1E], [CHR 0x1F],
      [CHR 0x20], [CHR 0xC2, CHR 0x85], [CHR 0xC2, CHR 0xA0], [CHR 0xE1, CHR 0x9A, CHR 0x80],
      [CHR 0xE2, CHR 0x80, CHR 0x80], [CHR 0xE2, CHR 0x80, CHR 0x81], [CHR 0xE2, CHR 0x80, CHR 0x82],
      [CHR 0xE2, CHR 0x80, CHR 0x83], [CHR 0xE2, CHR 0x80, CHR 0x84], [CHR 0xE2, CHR 0x80, CHR 0x85],
      [CHR 0xE2, CHR 0x80, CHR 0x86], [CHR 0xE2, CHR 0x80, CHR 0x87], [CHR 0xE2, CHR 0x80, CHR 0x88],
      [CHR 0xE2, CHR 0x80, CHR 0x89], [CHR 0xE2, CHR 0x80, CHR 0x8A], [CHR 0xE2, CHR 0x80, CHR 0xA8],
      [CHR 0xE2, CHR 0x80, CHR 0xA9], [CHR 0xE2, CHR 0x80, CHR 0xAF], [CHR 0xE2, CHR 0x81, CHR 0x9F],
      [CHR 0xE3, CHR 0x80, CHR 0x80]]"

text \<open>\<open>str.strip()\<close>.\<close>

definition py_strip :: "string \<Rightarrow> string" where
  "py_strip s =
     (let space = (\<lambda>c. c \<in> set py_spaces)
      in concat (rev (dropWhile space (rev (dropWhile space (utf8_chars s))))))"

lemma concat_utf8_chars [simp]: "concat (utf8_chars s) = s"
  by (induction s rule: utf8_chars.induct) (auto split: list.splits)

lemma char_length_le: "char_length s \<le> length s"
proof -
  have "length (utf8_chars s) \<le> length s"
    by (induction s rule: utf8_chars.induct) (auto split: list.splits)
  then show ?thesis by (simp add: char_length_def)
qed

text \<open>What is stripped is a text between spaces.\<close>

lemma py_strip_between:
  "\<exists>xs ys. s = concat xs @ py_strip s @ concat ys \<and> set xs \<subseteq> set py_spaces \<and> set ys \<subseteq> set py_spaces"
proof -
  let ?space = "\<lambda>c. c \<in> set py_spaces"
  define cs where "cs = dropWhile ?space (utf8_chars s)"
  have "s = concat (takeWhile ?space (utf8_chars s)) @ concat cs"
    unfolding cs_def by (simp flip: concat_append)
  moreover have "cs = rev (dropWhile ?space (rev cs)) @ rev (takeWhile ?space (rev cs))"
    by (metis rev_append rev_rev_ident takeWhile_dropWhile_id)
  then have "concat cs = py_strip s @ concat (rev (takeWhile ?space (rev cs)))"
    unfolding py_strip_def Let_def cs_def [symmetric] by (metis concat_append)
  moreover have "set (takeWhile ?space zs) \<subseteq> set py_spaces" for zs
    by (auto dest: set_takeWhileD)
  ultimately show ?thesis
    by (intro exI [of _ "takeWhile ?space (utf8_chars s)"] exI [of _ "rev (takeWhile ?space (rev cs))"]) (auto dest: set_takeWhileD)
qed

section \<open>Columns\<close>

text \<open>
  Django's \<open>PositiveIntegerField\<close>: the column takes 0 to 2147483647, and the database
  refuses a row outside that range.
\<close>

definition pos_int_ok :: "int \<Rightarrow> bool" where
  "pos_int_ok n \<longleftrightarrow> 0 \<le> n \<and> n \<le> 2147483647"

lemma pos_int_okI: "0 \<le> n \<Longrightarrow> n \<le> 2147483647 \<Longrightarrow> pos_int_ok n"
  by (simp add: pos_int_ok_def)

lemma pos_int_okD: "pos_int_ok n \<Longrightarrow> 0 \<le> n" "pos_int_ok n \<Longrightarrow> n \<le> 2147483647"
  by (simp_all add: pos_int_ok_def)

end
