(* ===== verification/PyFloat.thy ===== *)
theory PyFloat
  imports Prelude Complex_Main
begin

text \<open>
  Python's \<open>float\<close>, an IEEE-754 double, as far as the code uses it: \<open>float(Decimal)\<close> in
  the tier selector and the division of cents by 100 in the webhook handler. A finite
  double is the rational it denotes; conversion rounds to the nearest double, ties to even,
  with gradual underflow, and saturates at the two infinities. NaN has no constructor:
  the code converts decimals only.
\<close>

section \<open>Binary exponents\<close>

fun nlog2 :: "nat \<Rightarrow> nat" where
  "nlog2 n = (if n < 2 then 0 else Suc (nlog2 (n div 2)))"

declare nlog2.simps [simp del]

text \<open>\<open>flog2 x\<close> is the exponent \<open>e\<close> with \<open>2 ^ e \<le> x < 2 ^ (e + 1)\<close>, for positive \<open>x\<close>.\<close>

definition flog2 :: "rat \<Rightarrow> int" where
  "flog2 x =
     (if 1 \<le> x then int (nlog2 (nat \<lfloor>x\<rfloor>))
      else - int (Suc (nlog2 (nat (\<lceil>1 / x\<rceil> - 1)))))"

lemma nlog2_bounds: "0 < n \<Longrightarrow> 2 ^ nlog2 n \<le> n \<and> n < 2 ^ Suc (nlog2 n)"
proof (induction n rule: nlog2.induct)
  case (1 n)
  show ?case
  proof (cases "n < 2")
    case True
    with 1 show ?thesis by (simp add: nlog2.simps [of n])
  next
    case False
    with 1 have "2 ^ nlog2 (n div 2) \<le> n div 2 \<and> n div 2 < 2 ^ Suc (nlog2 (n div 2))"
      by simp
    with False show ?thesis by (simp add: nlog2.simps [of n]) linarith
  qed
qed

lemma flog2_bounds:
  assumes "0 < x"
  shows "2 powi flog2 x \<le> x" and "x < 2 powi (flog2 x + 1)"
proof -
  have "2 powi flog2 x \<le> x \<and> x < 2 powi (flog2 x + 1)"
  proof (cases "1 \<le> x")
    case True
    define n where "n = nat \<lfloor>x\<rfloor>"
    from True have n: "0 < n" "of_nat n \<le> x" "x < of_nat n + 1"
      using floor_correct [of x] by (auto simp: n_def le_floor_iff)
    from nlog2_bounds [OF n(1)] have lo: "(2::nat) ^ nlog2 n \<le> n" and hi: "n + 1 \<le> 2 ^ Suc (nlog2 n)"
      by auto
    from lo have "of_nat (2 ^ nlog2 n) \<le> (of_nat n :: rat)" by (simp only: of_nat_le_iff)
    then have "(2::rat) ^ nlog2 n \<le> of_nat n" by simp
    moreover from hi have "of_nat (n + 1) \<le> (of_nat (2 ^ Suc (nlog2 n)) :: rat)"
      by (simp only: of_nat_le_iff)
    then have "of_nat n + 1 \<le> (2::rat) ^ Suc (nlog2 n)" by (simp add: add.commute)
    moreover have "flog2 x = int (nlog2 n)" using True by (simp add: flog2_def n_def)
    moreover have "(2::rat) powi (int (nlog2 n) + 1) = 2 ^ Suc (nlog2 n)"
      by (simp add: power_int_def nat_add_distrib)
    ultimately show ?thesis using n by (simp only: power_int_of_nat) linarith
  next
    case False
    define y where "y = 1 / x"
    define k where "k = nlog2 (nat (\<lceil>y\<rceil> - 1))"
    from False assms have y: "1 < y" by (simp add: y_def)
    then have m: "0 < nat (\<lceil>y\<rceil> - 1)" by (simp add: less_ceiling_iff)
    from nlog2_bounds [OF m] have lo: "2 ^ k \<le> nat (\<lceil>y\<rceil> - 1)" and hi: "nat (\<lceil>y\<rceil> - 1) < 2 ^ Suc k"
      by (simp_all add: k_def)
    from lo have "int (2 ^ k) \<le> \<lceil>y\<rceil> - 1" using m by linarith
    then have "int (2 ^ k) < \<lceil>y\<rceil>" by linarith
    then have "of_int (int (2 ^ k)) < y" by (simp only: less_ceiling_iff)
    then have lo': "(2::rat) ^ k < y" by simp
    from hi m have "\<lceil>y\<rceil> \<le> int (2 ^ Suc k)" by linarith
    then have hi': "y \<le> (2::rat) ^ Suc k" by (simp only: ceiling_le_iff) simp
    have "flog2 x = - int (Suc k)" using False by (simp add: flog2_def k_def y_def)
    then have "(2::rat) powi flog2 x = 1 / 2 ^ Suc k" and "flog2 x + 1 = - int k"
      by (simp_all add: power_int_minus divide_inverse flip: power_Suc of_nat_Suc)
    moreover from this(2) have "(2::rat) powi (flog2 x + 1) = 1 / 2 ^ k"
      by (simp add: power_int_minus divide_inverse)
    moreover have "1 / 2 ^ Suc k \<le> x" using hi' assms by (simp add: y_def field_simps)
    moreover have "x < 1 / 2 ^ k" using lo' assms by (simp add: y_def field_simps)
    ultimately show ?thesis by simp
  qed
  then show "2 powi flog2 x \<le> x" and "x < 2 powi (flog2 x + 1)" by auto
qed

lemma powi2_le_imp: "(2::rat) powi a < 2 powi b \<Longrightarrow> a < b"
  by (metis linorder_not_less one_less_numeral_iff power_int_increasing less_imp_le semiring_norm(76))

lemma flog2_mono: "0 < x \<Longrightarrow> x \<le> y \<Longrightarrow> flog2 x \<le> flog2 y"
proof -
  assume x: "0 < x" "x \<le> y"
  then have "(2::rat) powi flog2 x < 2 powi (flog2 y + 1)"
    using flog2_bounds(1) [of x] flog2_bounds(2) [of y] by linarith
  then show ?thesis using powi2_le_imp by fastforce
qed

lemma flog2_unique: "2 powi e \<le> x \<Longrightarrow> x < 2 powi (e + 1) \<Longrightarrow> flog2 x = e"
proof -
  assume e: "2 powi e \<le> x" "x < 2 powi (e + 1)"
  moreover have "(0::rat) < 2 powi e" by simp
  ultimately have "0 < x" by linarith
  then have "(2::rat) powi flog2 x < 2 powi (e + 1)" "(2::rat) powi e < 2 powi (flog2 x + 1)"
    using e flog2_bounds [of x] by linarith+
  from this [THEN powi2_le_imp] show ?thesis by simp
qed

section \<open>Rounding\<close>

definition round_half_even :: "rat \<Rightarrow> int" where
  "round_half_even y =
     (let f = \<lfloor>y\<rfloor>; d = y - of_int f
      in if d < 1 / 2 then f else if 1 / 2 < d then f + 1 else if even f then f else f + 1)"

text \<open>The spacing of doubles around \<open>x\<close>: 53 significant bits, none below \<open>2 ^ -1074\<close>.\<close>

definition ulp_exp :: "rat \<Rightarrow> int" where
  "ulp_exp x = max (flog2 x - 52) (-1074)"

definition round_pos :: "rat \<Rightarrow> rat" where
  "round_pos x = of_int (round_half_even (x / 2 powi ulp_exp x)) * 2 powi ulp_exp x"

definition round_double :: "rat \<Rightarrow> rat" where
  "round_double x = (if x = 0 then 0 else if x < 0 then - round_pos (- x) else round_pos x)"

lemma round_half_even_of_int [simp]: "round_half_even (of_int n) = n"
  by (simp add: round_half_even_def)

lemma round_half_even_error: "\<bar>of_int (round_half_even y) - y\<bar> \<le> 1 / 2"
proof -
  have "of_int \<lfloor>y\<rfloor> \<le> y" "y < of_int \<lfloor>y\<rfloor> + 1" using floor_correct [of y] by auto
  then show ?thesis by (auto simp: round_half_even_def Let_def abs_le_iff)
qed

lemma round_half_even_near: "\<bar>y - of_int n\<bar> < 1 / 2 \<Longrightarrow> round_half_even y = n"
  using round_half_even_error [of y] by (simp add: abs_if split: if_splits)

lemma round_half_even_mono:
  assumes "x \<le> y"
  shows "round_half_even x \<le> round_half_even y"
proof (cases "\<lfloor>x\<rfloor> = \<lfloor>y\<rfloor>")
  case True
  with assms show ?thesis by (auto simp: round_half_even_def Let_def)
next
  case False
  with floor_mono [OF assms] have "\<lfloor>x\<rfloor> + 1 \<le> \<lfloor>y\<rfloor>" by simp
  moreover have "round_half_even x \<le> \<lfloor>x\<rfloor> + 1" and "\<lfloor>y\<rfloor> \<le> round_half_even y"
    by (auto simp: round_half_even_def Let_def)
  ultimately show ?thesis by linarith
qed

lemma round_half_even_le_int: "y \<le> of_int n \<Longrightarrow> round_half_even y \<le> n"
  using round_half_even_mono [of y "of_int n"] by simp

lemma round_half_even_ge_int: "of_int n \<le> y \<Longrightarrow> n \<le> round_half_even y"
  using round_half_even_mono [of "of_int n" y] by simp

lemma round_pos_error: "\<bar>round_pos x - x\<bar> \<le> 2 powi ulp_exp x / 2"
proof -
  define u where "u = (2::rat) powi ulp_exp x"
  have u: "0 < u" by (simp add: u_def)
  have "\<bar>round_pos x - x\<bar> = \<bar>of_int (round_half_even (x / u)) - x / u\<bar> * u"
    using u by (simp add: round_pos_def u_def [symmetric] abs_mult field_simps flip: abs_mult_pos)
  also have "\<dots> \<le> (1 / 2) * u"
    using round_half_even_error u by (intro mult_right_mono) auto
  finally show ?thesis by (simp add: u_def)
qed

lemma powi_int_exponent: "0 \<le> e \<Longrightarrow> (2::rat) powi e = of_int (2 ^ nat e)"
  by (simp add: power_int_def)

lemma round_pos_mono:
  assumes "0 < x" "x \<le> y"
  shows "round_pos x \<le> round_pos y"
proof (cases "ulp_exp x = ulp_exp y")
  case True
  then show ?thesis using assms
    by (simp add: round_pos_def round_half_even_mono divide_right_mono mult_right_mono)
next
  case False
  define l where "l = flog2 y"
  from assms have le: "flog2 x \<le> l" using flog2_mono by (simp add: l_def)
  with False have lt: "flog2 x < l" and ey: "ulp_exp y = l - 52" and ex: "ulp_exp x < l - 52"
    by (auto simp: ulp_exp_def l_def max_def split: if_splits)
  have "x \<le> 2 powi l"
  proof -
    have "x < 2 powi (flog2 x + 1)" using assms flog2_bounds by auto
    also have "\<dots> \<le> 2 powi l" using lt by (intro power_int_increasing) auto
    finally show ?thesis by simp
  qed
  then have "x / 2 powi ulp_exp x \<le> 2 powi (l - ulp_exp x)"
    by (simp add: power_int_diff divide_right_mono)
  also have "\<dots> = of_int (2 ^ nat (l - ulp_exp x))" using ex by (intro powi_int_exponent) auto
  finally have "round_half_even (x / 2 powi ulp_exp x) \<le> 2 ^ nat (l - ulp_exp x)"
    by (rule round_half_even_le_int)
  then have "of_int (round_half_even (x / 2 powi ulp_exp x)) \<le> (2::rat) powi (l - ulp_exp x)"
    using ex by (subst powi_int_exponent) (auto simp del: of_int_power)
  then have "round_pos x \<le> 2 powi (l - ulp_exp x) * 2 powi ulp_exp x"
    unfolding round_pos_def by (rule mult_right_mono) simp
  then have up: "round_pos x \<le> 2 powi l" by (simp flip: power_int_add)
  have "2 powi l \<le> y" using assms flog2_bounds by (simp add: l_def)
  then have "2 powi l / 2 powi (l - 52) \<le> y / 2 powi (l - 52)" by (simp add: divide_right_mono)
  then have "of_int (2 ^ 52) \<le> y / 2 powi (l - 52)" by (simp add: power_int_diff)
  then have "2 ^ 52 \<le> round_half_even (y / 2 powi (l - 52))" by (rule round_half_even_ge_int)
  then have "(2::rat) ^ 52 \<le> of_int (round_half_even (y / 2 powi (l - 52)))"
    by (metis of_int_le_iff of_int_numeral of_int_power)
  then have "2 ^ 52 * 2 powi (l - 52) \<le> round_pos y"
    unfolding round_pos_def ey by (rule mult_right_mono) simp
  then have "2 powi l \<le> round_pos y" by (simp add: power_int_diff)
  with up show ?thesis by linarith
qed

lemma round_pos_nonneg: "0 < x \<Longrightarrow> 0 \<le> round_pos x"
  by (simp add: round_pos_def round_half_even_ge_int [where n = 0, simplified])

lemma round_double_mono: "x \<le> y \<Longrightarrow> round_double x \<le> round_double y"
proof -
  assume le: "x \<le> y"
  consider "0 < x" | "y < 0" | "x \<le> 0" "0 \<le> y" by linarith
  then show ?thesis
  proof cases
    case 1
    with le show ?thesis using round_pos_mono [of x y] by (simp add: round_double_def)
  next
    case 2
    with le show ?thesis using round_pos_mono [of "- y" "- x"] by (simp add: round_double_def)
  next
    case 3
    then have "round_double x \<le> 0" "0 \<le> round_double y"
      using round_pos_nonneg [of "- x"] round_pos_nonneg [of y] by (simp_all add: round_double_def)
    then show ?thesis by linarith
  qed
qed

lemma round_double_error_small:
  assumes "\<bar>x\<bar> < 2 ^ 27"
  shows "\<bar>round_double x - x\<bar> \<le> 1 / 2 ^ 27"
proof -
  have pos: "\<bar>round_pos z - z\<bar> \<le> 1 / 2 ^ 27" if "0 < z" "z < 2 ^ 27" for z
  proof -
    have "2 powi flog2 z < (2::rat) powi 27"
      using that flog2_bounds(1) [of z] by (simp add: power_int_def)
    then have "flog2 z < 27" by (rule powi2_le_imp)
    then have "ulp_exp z \<le> - 26" by (simp add: ulp_exp_def)
    then have "(2::rat) powi ulp_exp z \<le> 2 powi (- 26)" by (intro power_int_increasing) auto
    also have "\<dots> = 1 / 2 ^ 26" by (simp add: power_int_def power_one_over)
    finally show ?thesis using round_pos_error [of z] by simp
  qed
  consider "0 < x" | "x = 0" | "x < 0" by linarith
  then show ?thesis
  proof cases
    case 1
    with assms pos [of x] show ?thesis by (simp add: round_double_def)
  next
    case 2
    then show ?thesis by (simp add: round_double_def)
  next
    case 3
    with assms pos [of "- x"] have "\<bar>round_pos (- x) - - x\<bar> \<le> 1 / 2 ^ 27" by simp
    moreover have "round_double x - x = - (round_pos (- x) - - x)"
      using 3 by (simp add: round_double_def)
    ultimately show ?thesis by (simp only: abs_minus_cancel)
  qed
qed

section \<open>Doubles\<close>

datatype double = NegInf | Finite rat | PosInf

instantiation double :: linorder
begin

fun less_eq_double :: "double \<Rightarrow> double \<Rightarrow> bool" where
  "less_eq_double NegInf _ = True"
| "less_eq_double (Finite x) NegInf = False"
| "less_eq_double (Finite x) (Finite y) = (x \<le> y)"
| "less_eq_double (Finite x) PosInf = True"
| "less_eq_double PosInf y = (y = PosInf)"

definition less_double :: "double \<Rightarrow> double \<Rightarrow> bool" where
  "less_double x y = (x \<le> y \<and> \<not> y \<le> x)"

instance
proof
  fix x y z :: double
  show "x < y \<longleftrightarrow> x \<le> y \<and> \<not> y \<le> x" by (rule less_double_def)
  show "x \<le> x" by (cases x) auto
  show "x \<le> y \<Longrightarrow> y \<le> z \<Longrightarrow> x \<le> z" by (cases x; cases y; cases z) auto
  show "x \<le> y \<Longrightarrow> y \<le> x \<Longrightarrow> x = y" by (cases x; cases y) auto
  show "x \<le> y \<or> y \<le> x" by (cases x; cases y) auto
qed

end

lemma Finite_less_iff [simp]: "Finite x < Finite y \<longleftrightarrow> x < y"
  by (auto simp: less_double_def)

text \<open>\<open>float(x)\<close> of a decimal with value \<open>x\<close>.\<close>

definition to_double :: "rat \<Rightarrow> double" where
  "to_double x =
     (let r = round_double x
      in if 2 ^ 1024 \<le> r then PosInf else if r \<le> - (2 ^ 1024) then NegInf else Finite r)"

lemma to_double_mono: "x \<le> y \<Longrightarrow> to_double x \<le> to_double y"
  using round_double_mono [of x y] by (auto simp: to_double_def Let_def)

text \<open>Amounts of a \<open>DecimalField(max_digits=10, decimal_places=2)\<close>.\<close>

definition decimal_10_2 :: "rat \<Rightarrow> bool" where
  "decimal_10_2 x \<longleftrightarrow> of_int \<lfloor>100 * x\<rfloor> = 100 * x \<and> \<bar>100 * x\<bar> < 10 ^ 10"

lemma decimal_10_2_cents:
  assumes "decimal_10_2 x"
  obtains n :: int where "x = of_int n / 100" and "\<bar>n\<bar> < 10 ^ 10"
proof
  from assms have *: "of_int \<lfloor>100 * x\<rfloor> = 100 * x" and **: "\<bar>100 * x\<bar> < 10 ^ 10"
    by (auto simp: decimal_10_2_def)
  from * show "x = of_int \<lfloor>100 * x\<rfloor> / 100" by linarith
  have "(of_int \<bar>\<lfloor>100 * x\<rfloor>\<bar> :: rat) = \<bar>100 * x\<bar>" by (simp only: of_int_abs *)
  with ** have "of_int \<bar>\<lfloor>100 * x\<rfloor>\<bar> < (of_int (10 ^ 10) :: rat)" by simp
  then show "\<bar>\<lfloor>100 * x\<rfloor>\<bar> < 10 ^ 10" by (simp only: of_int_less_iff)
qed

lemma to_double_strict_mono_decimal:
  assumes "decimal_10_2 x" "decimal_10_2 y" "x < y"
  shows "to_double x < to_double y"
proof -
  obtain m n :: int where m: "x = of_int m / 100" "\<bar>m\<bar> < 10 ^ 10"
    and n: "y = of_int n / 100" "\<bar>n\<bar> < 10 ^ 10"
    using assms by (metis decimal_10_2_cents)
  have small: "\<bar>z\<bar> < 2 ^ 27" if "decimal_10_2 z" for z
    using that by (auto simp: decimal_10_2_def abs_mult)
  from assms(3) m(1) n(1) have "(of_int m :: rat) < of_int n" by simp
  then have "m + 1 \<le> n" by simp
  then have "(of_int (m + 1) :: rat) \<le> of_int n" by (simp only: of_int_le_iff)
  then have gap: "x + 1 / 100 \<le> y" using m(1) n(1) by simp
  have ex: "\<bar>round_double x - x\<bar> \<le> 1 / 2 ^ 27" and ey: "\<bar>round_double y - y\<bar> \<le> 1 / 2 ^ 27"
    using small assms round_double_error_small by blast+
  have "(1::rat) / 2 ^ 27 < 1 / 200" by simp
  with ex ey have "round_double x < x + 1 / 200" "y - 1 / 200 < round_double y" by linarith+
  then have "round_double x < round_double y" using gap by linarith
  moreover have "\<bar>round_double z\<bar> < 2 ^ 1024" if "\<bar>z\<bar> < 2 ^ 27" for z
  proof -
    have "\<bar>round_double z\<bar> \<le> \<bar>z\<bar> + 1 / 2 ^ 27" using round_double_error_small [OF that] by linarith
    also have "\<dots> < 2 ^ 28" using that by simp
    also have "\<dots> < (2::rat) ^ 1024" by (rule power_strict_increasing) auto
    finally show ?thesis .
  qed
  then have "\<bar>round_double x\<bar> < 2 ^ 1024" "\<bar>round_double y\<bar> < 2 ^ 1024"
    using small assms by auto
  then have "to_double x = Finite (round_double x)" "to_double y = Finite (round_double y)"
    by (auto simp: to_double_def Let_def abs_less_iff)
  ultimately show ?thesis by simp
qed

lemma to_double_le_iff_decimal:
  "decimal_10_2 x \<Longrightarrow> decimal_10_2 y \<Longrightarrow> to_double x \<le> to_double y \<longleftrightarrow> x \<le> y"
  using to_double_strict_mono_decimal [of y x] to_double_mono [of x y] by fastforce

lemma to_double_eq_iff_decimal:
  "decimal_10_2 x \<Longrightarrow> decimal_10_2 y \<Longrightarrow> to_double x = to_double y \<longleftrightarrow> x = y"
  using to_double_le_iff_decimal [of x y] to_double_le_iff_decimal [of y x] by fastforce

end
