(* ===== verification/PyJson.thy ===== *)
theory PyJson
  imports PyFloat
begin

text \<open>
  The JSON values that webhook payloads, callbacks and cached results are made of, with the
  Python operations the code applies to them: \<open>.get\<close> with a default, subscripting,
  iteration, comparison with zero, \<open>str\<close>, \<open>str.upper\<close> and true division, each with the
  exception Python raises on a value of the wrong type.
\<close>

section \<open>Values\<close>

text \<open>
  An object lists its keys once, in insertion order.
\<close>

datatype json =
    JNull
  | JBool bool
  | JInt int
  | JFloat double
  | JStr string
  | JList "json list"
  | JObj "(string \<times> json) list"

section \<open>Access\<close>

text \<open>\<open>d.get(k, default)\<close>: only a dictionary has the method.\<close>

fun py_get :: "json \<Rightarrow> string \<Rightarrow> json \<Rightarrow> json result" where
  "py_get (JObj kvs) k dflt =
     Inr (case map_of kvs k of None \<Rightarrow> dflt | Some v \<Rightarrow> v)"
| "py_get _ _ _ = Inl AttributeError"

text \<open>\<open>d[k]\<close> with a string key.\<close>

fun py_item :: "json \<Rightarrow> string \<Rightarrow> json result" where
  "py_item (JObj kvs) k = (case map_of kvs k of None \<Rightarrow> Inl KeyError | Some v \<Rightarrow> Inr v)"
| "py_item _ _ = Inl TypeError"

text \<open>\<open>for x in j\<close>: a list yields its elements, a dictionary its keys, a string its characters.\<close>

fun py_iter :: "json \<Rightarrow> json list result" where
  "py_iter (JList js) = Inr js"
| "py_iter (JObj kvs) = Inr (map (\<lambda>kv. JStr (fst kv)) kvs)"
| "py_iter (JStr s) = Inr (map (\<lambda>c. JStr [c]) s)"
| "py_iter _ = Inl TypeError"

text \<open>A dictionary key must be hashable: lists and dictionaries are not.\<close>

fun py_hashable :: "json \<Rightarrow> bool" where
  "py_hashable (JList _) = False"
| "py_hashable (JObj _) = False"
| "py_hashable _ = True"

text \<open>\<open>j == 0\<close>: Python compares numbers by value, and \<open>False\<close> is 0.\<close>

fun py_is_zero :: "json \<Rightarrow> bool" where
  "py_is_zero (JInt n) = (n = 0)"
| "py_is_zero (JBool b) = (\<not> b)"
| "py_is_zero (JFloat x) = (x = Finite 0)"
| "py_is_zero _ = False"

section \<open>Text\<close>

definition digit_char :: "nat \<Rightarrow> char" where
  "digit_char n = ''0123456789'' ! n"

fun show_nat :: "nat \<Rightarrow> string" where
  "show_nat n =
     (if n < 10 then [digit_char n] else show_nat (n div 10) @ [digit_char (n mod 10)])"

declare show_nat.simps [simp del]

definition show_int :: "int \<Rightarrow> string" where
  "show_int n = (if n < 0 then CHR ''-'' # show_nat (nat (- n)) else show_nat (nat n))"

text \<open>
  \<open>str(j)\<close>. How CPython prints floats, lists and dictionaries is the parameter \<open>fmt\<close>;
  nothing here depends on it beyond the text it gives.
\<close>

fun py_str :: "(json \<Rightarrow> string) \<Rightarrow> json \<Rightarrow> string" where
  "py_str fmt JNull = ''None''"
| "py_str fmt (JBool b) = (if b then ''True'' else ''False'')"
| "py_str fmt (JInt n) = show_int n"
| "py_str fmt (JStr s) = s"
| "py_str fmt j = fmt j"

definition upper_char :: "char \<Rightarrow> char" where
  "upper_char c =
     (let n = (of_char c :: nat) in if 97 \<le> n \<and> n \<le> 122 then char_of (n - 32) else c)"

text \<open>\<open>s.upper()\<close> on ASCII text; any other JSON value lacks the method.\<close>

fun py_upper :: "json \<Rightarrow> string result" where
  "py_upper (JStr s) = Inr (map upper_char s)"
| "py_upper _ = Inl AttributeError"

section \<open>Numbers\<close>

text \<open>
  \<open>j / 100\<close>: an integer (or a bool) divides exactly and rounds once, and raises when the
  quotient has no finite double; a float divides as a float.
\<close>

fun py_truediv_100 :: "json \<Rightarrow> double result" where
  "py_truediv_100 (JInt n) =
     (case to_double (of_int n / 100) of
        Finite r \<Rightarrow> Inr (Finite r)
      | _ \<Rightarrow> Inl OverflowError)"
| "py_truediv_100 (JBool b) = Inr (to_double ((if b then 1 else 0) / 100))"
| "py_truediv_100 (JFloat (Finite x)) = Inr (to_double (x / 100))"
| "py_truediv_100 (JFloat x) = Inr x"
| "py_truediv_100 _ = Inl TypeError"

section \<open>Lemmas\<close>

lemma show_nat_nonempty [simp]: "show_nat n \<noteq> []"
  by (subst show_nat.simps) simp

lemma show_int_nonempty [simp]: "show_int n \<noteq> []"
  by (simp add: show_int_def)

lemma digit_char_digit: "n < 10 \<Longrightarrow> digit_char n \<in> set ''0123456789''"
  unfolding digit_char_def by (rule nth_mem) simp

lemma show_nat_digits: "c \<in> set (show_nat n) \<Longrightarrow> c \<in> set ''0123456789''"
proof (induction n rule: show_nat.induct)
  case (1 n)
  show ?case
  proof (cases "n < 10")
    case True
    with 1(2) digit_char_digit [of n] show ?thesis by (subst (asm) show_nat.simps) simp
  next
    case False
    with 1(2) have "c \<in> set (show_nat (n div 10)) \<or> c = digit_char (n mod 10)"
      by (subst (asm) show_nat.simps) auto
    with False 1(1) digit_char_digit [of "n mod 10"] show ?thesis by auto
  qed
qed

lemma py_str_empty_iff:
  "py_str fmt j = [] \<longleftrightarrow> j = JStr [] \<or>
     ((\<exists>x. j = JFloat x) \<or> (\<exists>xs. j = JList xs) \<or> (\<exists>kvs. j = JObj kvs)) \<and> fmt j = []"
  by (cases j) auto

end
