(* ===== verification/PyDatetime.thy ===== *)
theory PyDatetime
  imports PyJson
begin

text \<open>
  Python's aware UTC \<open>datetime\<close> as the code uses it. An instant counts microseconds from
  1970-01-01T00:00:00Z; \<open>isoformat\<close> writes it as text and \<open>fromisoformat\<close> reads back the
  texts that \<open>isoformat\<close> writes. \<open>int(delta.total_seconds())\<close> truncates towards zero.
\<close>

section \<open>Durations\<close>

definition minutes :: "int \<Rightarrow> int" where
  "minutes m = m * 60 * usec_per_sec"

definition int_total_seconds :: "int \<Rightarrow> int" where
  "int_total_seconds us =
     (if 0 \<le> us then us div usec_per_sec else - ((- us) div usec_per_sec))"

section \<open>The proleptic Gregorian calendar\<close>

text \<open>
  Years run from March, so that a leap day is the last day of its year; 400 such years
  have 146097 days. Day 0 is 1970-01-01.
\<close>

definition civil_of_days :: "int \<Rightarrow> int \<times> int \<times> int" where
  "civil_of_days z =
     (let w = z + 719468; era = w div 146097; doe = w mod 146097;
          n100 = min 3 (doe div 36524); r1 = doe - 36524 * n100;
          n4 = r1 div 1461; r2 = r1 mod 1461;
          n1 = min 3 (r2 div 365); doy = r2 - 365 * n1;
          mp = (5 * doy + 2) div 153;
          d = doy - (153 * mp + 2) div 5 + 1;
          m = (if mp < 10 then mp + 3 else mp - 9)
      in (400 * era + 100 * n100 + 4 * n4 + n1 + (if m \<le> 2 then 1 else 0), m, d))"

definition days_of_civil :: "int \<times> int \<times> int \<Rightarrow> int" where
  "days_of_civil ymd =
     (case ymd of (y, m, d) \<Rightarrow>
        let y' = (if m \<le> 2 then y - 1 else y); era = y' div 400; yoe = y' mod 400;
            doy = (153 * ((m + 9) mod 12) + 2) div 5 + d - 1
        in 146097 * era + 365 * yoe + yoe div 4 - yoe div 100 + doy - 719468)"

lemma civil_of_days_inverse:
  assumes "civil_of_days z = (y, m, d)"
  shows "days_of_civil (y, m, d) = z" and "1 \<le> m" and "m \<le> 12" and "1 \<le> d" and "d \<le> 31"
    and "0 \<le> z \<Longrightarrow> z < 2932532 \<Longrightarrow> 1 \<le> y \<and> y \<le> 9999"
proof -
  define w where "w = z + 719468"
  define era where "era = w div 146097"
  define doe where "doe = w mod 146097"
  define n100 where "n100 = min 3 (doe div 36524)"
  define r1 where "r1 = doe - 36524 * n100"
  define n4 where "n4 = r1 div 1461"
  define r2 where "r2 = r1 mod 1461"
  define n1 where "n1 = min 3 (r2 div 365)"
  define doy where "doy = r2 - 365 * n1"
  define mp where "mp = (5 * doy + 2) div 153"
  define yoe where "yoe = 100 * n100 + 4 * n4 + n1"
  have w: "w = 146097 * era + doe" "0 \<le> doe" "doe \<le> 146096" by (simp_all add: era_def doe_def)
  then have n100: "0 \<le> n100" "n100 \<le> 3" "0 \<le> r1" "r1 \<le> 36524"
    unfolding n100_def r1_def by linarith+
  have r2: "r1 = 1461 * n4 + r2" "0 \<le> r2" "r2 \<le> 1460"
    by (simp_all add: n4_def r2_def)
  with n100 have "0 \<le> n4" "n4 \<le> 24" by linarith+
  note n4 = r2(1) this r2(2,3)
  from n4 have n1: "0 \<le> n1" "n1 \<le> 3" "0 \<le> doy" "doy \<le> 365"
    unfolding n1_def doy_def by linarith+
  then have mp: "0 \<le> mp" "mp \<le> 11" and d: "0 \<le> doy - (153 * mp + 2) div 5" "doy - (153 * mp + 2) div 5 \<le> 30"
    unfolding mp_def by linarith+
  have "yoe div 100 = n100"
    by (rule int_div_pos_eq [where r = "4 * n4 + n1"]) (use n4 n1 in \<open>simp_all add: yoe_def\<close>)
  moreover have "yoe div 4 = 25 * n100 + n4"
    by (rule int_div_pos_eq [where r = n1]) (use n1 in \<open>simp_all add: yoe_def\<close>)
  moreover have "0 \<le> yoe" "yoe \<le> 399"
    using n100 n4 n1 unfolding yoe_def by linarith+
  ultimately have yoe: "0 \<le> yoe" "yoe \<le> 399" "yoe div 100 = n100" "yoe div 4 = 25 * n100 + n4"
    by simp_all
  have eq: "(400 * era + 100 * n100 + 4 * n4 + n1 + (if (if mp < 10 then mp + 3 else mp - 9) \<le> 2 then 1 else 0),
      (if mp < 10 then mp + 3 else mp - 9), doy - (153 * mp + 2) div 5 + 1) = (y, m, d)"
    using assms unfolding civil_of_days_def Let_def w_def [symmetric] era_def [symmetric]
      doe_def [symmetric] n100_def [symmetric] r1_def [symmetric] n4_def [symmetric]
      r2_def [symmetric] n1_def [symmetric] doy_def [symmetric] mp_def [symmetric] .
  then have em: "m = (if mp < 10 then mp + 3 else mp - 9)" and ed: "d = doy - (153 * mp + 2) div 5 + 1"
    by (simp_all only: prod.inject)
  from eq have ey: "400 * era + 100 * n100 + 4 * n4 + n1 + (if m \<le> 2 then 1 else 0) = y"
    unfolding em [symmetric] prod.inject by (elim conjE)
  from ey have ey': "y = 400 * era + yoe + (if m \<le> 2 then 1 else 0)" by (simp add: yoe_def)
  note eqs = em ey' ed
  show m: "1 \<le> m" "m \<le> 12" using eqs(1) mp by auto
  show "1 \<le> d" "d \<le> 31" using eqs(3) d by auto
  have "(m + 9) mod 12 = mp"
  proof (cases "mp < 10")
    case True
    with eqs(1) mp have "m + 9 = mp + 12" by simp
    with True mp show ?thesis by simp
  next
    case False
    with eqs(1) mp show ?thesis by simp
  qed
  moreover have y': "(if m \<le> 2 then y - 1 else y) = 400 * era + yoe" using eqs(2) by auto
  moreover have "(400 * era + yoe) div 400 = era" "(400 * era + yoe) mod 400 = yoe"
    using yoe by (simp_all add: div_pos_pos_trivial)
  ultimately have "days_of_civil (y, m, d) =
      146097 * era + 365 * yoe + yoe div 4 - yoe div 100 + doy - 719468"
    using eqs(3) by (simp add: days_of_civil_def Let_def)
  also have "\<dots> = z"
    unfolding yoe(3,4) using w(1) r2(1) by (simp add: w_def r1_def doy_def yoe_def)
  finally show "days_of_civil (y, m, d) = z" .
  show "1 \<le> y \<and> y \<le> 9999" if "0 \<le> z" "z < 2932532"
  proof -
    from that w have era: "1 \<le> era" "era \<le> 24" unfolding w_def by linarith+
    have doe: "365 * yoe + 24 * n100 + n4 + doy = doe"
      using r2(1) by (simp add: r1_def doy_def yoe_def)
    have "yoe \<le> 398" if "era = 24"
    proof (rule ccontr)
      assume "\<not> yoe \<le> 398"
      moreover have "doe < 145672" using that \<open>z < 2932532\<close> w(1) unfolding w_def by linarith
      ultimately have "24 * n100 + n4 < 37" using doe n1(3) by linarith
      with n4 have "n100 \<le> 1" by linarith
      with n4 n1 have "yoe \<le> 199" unfolding yoe_def by linarith
      with \<open>\<not> yoe \<le> 398\<close> show False by simp
    qed
    then have "400 * era + yoe \<le> 9998" using era yoe(2) by (cases "era = 24") simp_all
    with era yoe(1) ey' show ?thesis by (auto split: if_splits)
  qed
qed

section \<open>Text\<close>

fun pad :: "nat \<Rightarrow> nat \<Rightarrow> string" where
  "pad 0 n = []"
| "pad (Suc k) n = pad k (n div 10) @ [digit_char (n mod 10)]"

definition is_digit :: "char \<Rightarrow> bool" where
  "is_digit c \<longleftrightarrow> c \<in> set ''0123456789''"

definition digit_value :: "char \<Rightarrow> nat" where
  "digit_value c = of_char c - 48"

definition parse_nat :: "string \<Rightarrow> nat" where
  "parse_nat s = foldl (\<lambda>acc c. 10 * acc + digit_value c) 0 s"

definition slice :: "nat \<Rightarrow> nat \<Rightarrow> 'a list \<Rightarrow> 'a list" where
  "slice i k s = take k (drop i s)"

definition isoformat :: "instant \<Rightarrow> string" where
  "isoformat t =
     (let (y, m, d) = civil_of_days (t div (86400 * usec_per_sec));
          us = t mod (86400 * usec_per_sec);
          s = us div usec_per_sec; f = us mod usec_per_sec
      in pad 4 (nat y) @ ''-'' @ pad 2 (nat m) @ ''-'' @ pad 2 (nat d) @ ''T''
           @ pad 2 (nat (s div 3600)) @ '':'' @ pad 2 (nat (s div 60 mod 60)) @ '':''
           @ pad 2 (nat (s mod 60))
           @ (if f = 0 then [] else ''.'' @ pad 6 (nat f)) @ ''+00:00'')"

text \<open>
  The reader of such texts. A field out of range, a date that does not exist or any other
  form of text is a \<open>ValueError\<close> (other ISO 8601 forms that Python reads are never written
  by the code).
\<close>

definition fromisoformat :: "string \<Rightarrow> instant result" where
  "fromisoformat s =
     (let y = parse_nat (slice 0 4 s); m = parse_nat (slice 5 2 s); d = parse_nat (slice 8 2 s);
          hh = parse_nat (slice 11 2 s); mi = parse_nat (slice 14 2 s); ss = parse_nat (slice 17 2 s);
          frac = (if length s = 25 then [] else slice 20 6 s);
          z = days_of_civil (int y, int m, int d)
      in if (length s = 25 \<or> length s = 32 \<and> s ! 19 = CHR ''.'')
            \<and> s ! 4 = CHR ''-'' \<and> s ! 7 = CHR ''-'' \<and> s ! 10 = CHR ''T''
            \<and> s ! 13 = CHR '':'' \<and> s ! 16 = CHR '':'' \<and> drop (length s - 6) s = ''+00:00''
            \<and> list_all is_digit (slice 0 4 s @ slice 5 2 s @ slice 8 2 s @ slice 11 2 s
                                  @ slice 14 2 s @ slice 17 2 s @ frac)
            \<and> 1 \<le> y \<and> civil_of_days z = (int y, int m, int d) \<and> hh < 24 \<and> mi < 60 \<and> ss < 60
         then Inr (((z * 24 + int hh) * 60 + int mi) * 60 * usec_per_sec
                     + int ss * usec_per_sec + int (parse_nat frac))
         else Inl ValueError)"

lemma length_pad [simp]: "length (pad k n) = k"
  by (induction k arbitrary: n) auto

lemma is_digit_digit_char [simp]: "n < 10 \<Longrightarrow> is_digit (digit_char n)"
  by (simp only: is_digit_def digit_char_digit)

lemma list_all_pad [simp]: "list_all is_digit (pad k n)"
  by (induction k arbitrary: n) auto

lemma digit_value_digit_char:
  assumes "n < 10"
  shows "digit_value (digit_char n) = n"
proof -
  have "list_all (\<lambda>n. digit_value (digit_char n) = n) [0..<10]" by code_simp
  with assms show ?thesis by (simp add: list_all_iff)
qed

lemma parse_nat_append: "parse_nat (s @ [c]) = 10 * parse_nat s + digit_value c"
  by (simp add: parse_nat_def)

lemma parse_nat_pad: "n < 10 ^ k \<Longrightarrow> parse_nat (pad k n) = n"
proof (induction k arbitrary: n)
  case 0
  then show ?case by (simp add: parse_nat_def)
next
  case (Suc k)
  then have "n div 10 < 10 ^ k" by (simp add: less_mult_imp_div_less mult.commute)
  with Suc.IH show ?case by (simp add: parse_nat_append digit_value_digit_char)
qed

lemma list_length_2:
  assumes "length xs = 2"
  obtains a b where "xs = [a, b]"
  using assms that by (auto simp: eval_nat_numeral length_Suc_conv)

lemma list_length_4:
  assumes "length xs = 4"
  obtains a b c d where "xs = [a, b, c, d]"
  using assms that by (auto simp: eval_nat_numeral length_Suc_conv)

lemma list_length_6:
  assumes "length xs = 6"
  obtains a b c d e f where "xs = [a, b, c, d, e, f]"
  using assms that by (auto simp: eval_nat_numeral length_Suc_conv)

lemmas pad_2 = list_length_2 [OF length_pad]
lemmas pad_4 = list_length_4 [OF length_pad]
lemmas pad_6 = list_length_6 [OF length_pad]

text \<open>What the reader finds in a text of the written form, field by field.\<close>

lemma fromisoformat_text:
  fixes y m d hh mi ss fr :: nat
  assumes b: "y < 10 ^ 4" "m < 10 ^ 2" "d < 10 ^ 2" "fr < 10 ^ 6"
    and t: "hh < 24" "mi < 60" "ss < 60" and y: "1 \<le> y"
    and valid: "civil_of_days (days_of_civil (int y, int m, int d)) = (int y, int m, int d)"
    and shape: "txt = pad 4 y @ ''-'' @ pad 2 m @ ''-'' @ pad 2 d @ ''T'' @ pad 2 hh @ '':''
        @ pad 2 mi @ '':'' @ pad 2 ss @ (if fr = 0 then [] else ''.'' @ pad 6 fr) @ ''+00:00''"
  shows "fromisoformat txt = Inr (((days_of_civil (int y, int m, int d) * 24 + int hh) * 60 + int mi)
      * 60 * usec_per_sec + int ss * usec_per_sec + int fr)"
proof -
  obtain y1 y2 y3 y4 where Y: "pad 4 y = [y1, y2, y3, y4]" by (rule pad_4)
  obtain m1 m2 where M: "pad 2 m = [m1, m2]" by (rule pad_2)
  obtain d1 d2 where D: "pad 2 d = [d1, d2]" by (rule pad_2)
  obtain h1 h2 where H: "pad 2 hh = [h1, h2]" by (rule pad_2)
  obtain i1 i2 where I: "pad 2 mi = [i1, i2]" by (rule pad_2)
  obtain s1 s2 where S: "pad 2 ss = [s1, s2]" by (rule pad_2)
  obtain f1 f2 f3 f4 f5 f6 where F: "pad 6 fr = [f1, f2, f3, f4, f5, f6]" by (rule pad_6)
  have slices: "slice 0 4 txt = pad 4 y" "slice 5 2 txt = pad 2 m" "slice 8 2 txt = pad 2 d"
      "slice 11 2 txt = pad 2 hh" "slice 14 2 txt = pad 2 mi" "slice 17 2 txt = pad 2 ss"
    by (simp_all add: shape Y M D H I S slice_def)
  have seps: "txt ! 4 = CHR ''-''" "txt ! 7 = CHR ''-''" "txt ! 10 = CHR ''T''"
      "txt ! 13 = CHR '':''" "txt ! 16 = CHR '':''"
    by (simp_all add: shape Y M D H I S)
  have tail: "drop (length txt - 6) txt = ''+00:00''"
    by (simp add: shape Y M D H I S F)
  have len: "length txt = 25 \<or> length txt = 32 \<and> txt ! 19 = CHR ''.''"
    by (simp add: shape Y M D H I S F)
  define frac where "frac = (if length txt = 25 then [] else slice 20 6 txt)"
  have frac: "frac = (if fr = 0 then [] else pad 6 fr)"
    by (simp add: frac_def shape Y M D H I S F slice_def)
  have vals: "parse_nat (pad 4 y) = y" "parse_nat (pad 2 m) = m" "parse_nat (pad 2 d) = d"
      "parse_nat (pad 2 hh) = hh" "parse_nat (pad 2 mi) = mi" "parse_nat (pad 2 ss) = ss"
    using b t by (auto intro: parse_nat_pad)
  have fval: "parse_nat frac = fr" using b(4) by (simp add: frac parse_nat_pad, simp add: parse_nat_def)
  have dig: "list_all is_digit frac" by (simp add: frac)
  show ?thesis
    unfolding fromisoformat_def Let_def slices frac_def [symmetric] vals fval valid tail
    using len seps t y dig by simp
qed

lemma fromisoformat_isoformat:
  assumes "0 \<le> t" and "t < 253370764800 * usec_per_sec"
  shows "fromisoformat (isoformat t) = Inr t"
proof -
  define z where "z = t div (86400 * usec_per_sec)"
  define us where "us = t mod (86400 * usec_per_sec)"
  define s where "s = us div usec_per_sec"
  define f where "f = us mod usec_per_sec"
  define q where "q = s div 60"
  define h where "h = s div 3600"
  define mi where "mi = q mod 60"
  define r where "r = s mod 60"
  obtain y m d where ymd: "civil_of_days z = (y, m, d)" by (metis prod_cases3)
  from assms have z: "0 \<le> z" "z < 2932532"
    unfolding z_def by (simp_all add: div_less_iff_less_mult pos_imp_zdiv_nonneg_iff)
  note cal = civil_of_days_inverse [OF ymd]
  have us: "0 \<le> us" "us < 86400 * usec_per_sec" by (simp_all add: us_def)
  then have s: "0 \<le> s" "s < 86400" and f: "0 \<le> f" "f < usec_per_sec"
    unfolding s_def f_def by (linarith, linarith, simp_all)
  then have h: "0 \<le> h" "h < 24" and mi: "0 \<le> mi" "mi < 60" and r: "0 \<le> r" "r < 60"
    unfolding h_def mi_def r_def by (linarith, linarith, simp_all)
  have "us = s * usec_per_sec + f" by (simp add: s_def f_def)
  moreover have "t = z * (86400 * usec_per_sec) + us" by (simp add: z_def us_def)
  moreover have "q = 60 * h + mi" using zdiv_zmult2_eq [of 60 s 60] by (simp add: q_def h_def mi_def)
  moreover have "s = 60 * q + r" by (simp add: q_def r_def)
  ultimately have t: "t = ((z * 24 + h) * 60 + mi) * 60 * usec_per_sec + r * usec_per_sec + f"
    by (simp add: algebra_simps)
  from cal z have y: "0 \<le> y" "0 \<le> m" "0 \<le> d" "nat y < 10 ^ 4" "nat m < 10 ^ 2" "nat d < 10 ^ 2" "1 \<le> nat y"
    by auto
  have "isoformat t = pad 4 (nat y) @ ''-'' @ pad 2 (nat m) @ ''-'' @ pad 2 (nat d) @ ''T''
      @ pad 2 (nat h) @ '':'' @ pad 2 (nat mi) @ '':'' @ pad 2 (nat r)
      @ (if nat f = 0 then [] else ''.'' @ pad 6 (nat f)) @ ''+00:00''"
    using ymd f unfolding isoformat_def Let_def z_def [symmetric] us_def [symmetric]
      s_def [symmetric] f_def [symmetric] h_def [symmetric] q_def [symmetric] mi_def [symmetric]
      r_def [symmetric] by auto
  then have "fromisoformat (isoformat t) = Inr (((days_of_civil (int (nat y), int (nat m), int (nat d))
      * 24 + int (nat h)) * 60 + int (nat mi)) * 60 * usec_per_sec + int (nat r) * usec_per_sec
      + int (nat f))"
    using y h mi r f ymd cal(1) by (intro fromisoformat_text) auto
  then show ?thesis using y h mi r f cal(1) by (simp add: t)
qed

end
