(* ===== verification/Models.thy ===== *)
theory Models
  imports PyDatetime
begin

text \<open>
  The tables: one record per Django model of the \<open>models.py\<close> files, with its fields and
  defaults, one datatype per \<open>TextChoices\<close>, and the database as the lists of their rows.
  A foreign key holds the primary key of the row it points at. Decimals are rationals,
  instants whole microseconds.
\<close>

section \<open>accounts\<close>

datatype user_role = Organizer | Staff | Attendee

fun user_role_value :: "user_role \<Rightarrow> string" where
  "user_role_value Organizer = ''organizer''"
| "user_role_value Staff = ''staff''"
| "user_role_value Attendee = ''attendee''"

record user =
  u_id :: uuid
  u_email :: string
  u_first_name :: string
  u_last_name :: string
  u_role :: user_role
  u_is_active :: bool
  u_is_staff :: bool
  u_is_superuser :: bool
  u_email_verified :: bool
  u_password :: string

section \<open>companies\<close>

datatype company_plan = Free | Starter | Pro | Enterprise

record company =
  co_id :: uuid
  co_name :: string
  co_slug :: string
  co_owner :: uuid
  co_plan :: company_plan
  co_timezone :: string
  co_logo_url :: string
  co_primary_color :: string
  co_is_active :: bool

datatype member_role = MemberOwner | MemberManager | MemberStaff

record member =
  mem_company :: uuid
  mem_user :: uuid
  mem_role :: member_role

section \<open>events\<close>

datatype event_status = Draft | Published | EventCancelled | Completed

record event =
  ev_id :: uuid
  ev_company :: uuid
  ev_title :: string
  ev_description :: string
  ev_venue_name :: string
  ev_venue_address :: string
  ev_capacity :: int
  ev_status :: event_status
  ev_cover_image_url :: string
  ev_timezone :: string

definition is_published :: "event \<Rightarrow> bool" where
  "is_published e \<longleftrightarrow> ev_status e = Published"

section \<open>inventory\<close>

record ticket_tier =
  tier_id :: uuid
  tier_event :: uuid
  tier_name :: string
  tier_description :: string
  tier_price :: rat
  tier_currency :: string
  quantity_total :: int
  quantity_held :: int
  quantity_sold :: int
  max_per_order :: int
  sale_starts_at :: "instant option"
  sale_ends_at :: "instant option"
  tier_is_active :: bool
  sort_order :: int

section \<open>checkout\<close>

datatype hold_status = Active | Expired | Confirmed | Released

record checkout_hold =
  hold_id :: uuid
  hold_token :: uuid
  hold_user :: uuid
  hold_tier :: uuid
  hold_quantity :: int
  hold_status :: hold_status
  hold_expires_at :: instant

text \<open>\<open>CheckoutHold.is_expired\<close>, read at \<open>now\<close>.\<close>

definition is_expired :: "instant \<Rightarrow> checkout_hold \<Rightarrow> bool" where
  "is_expired now h \<longleftrightarrow> hold_expires_at h < now"

section \<open>payments\<close>

datatype payment_provider = LemonSqueezy | Mpesa

datatype payment_status = Pending | Processing | Succeeded | Failed | Refunded | Disputed

fun payment_status_value :: "payment_status \<Rightarrow> string" where
  "payment_status_value Pending = ''pending''"
| "payment_status_value Processing = ''processing''"
| "payment_status_value Succeeded = ''succeeded''"
| "payment_status_value Failed = ''failed''"
| "payment_status_value Refunded = ''refunded''"
| "payment_status_value Disputed = ''disputed''"

record payment =
  pay_id :: uuid
  pay_hold :: "uuid option"
  pay_user :: uuid
  pay_company :: uuid
  pay_provider :: payment_provider
  provider_payment_id :: string
  idempotency_key :: string
  pay_amount :: rat
  pay_currency :: string
  pay_status :: payment_status

section \<open>tickets\<close>

datatype ticket_status = Issued | CheckedIn | TicketCancelled | Transferred

record ticket =
  tk_id :: uuid
  tk_hold :: "uuid option"
  tk_payment :: "uuid option"
  tk_tier :: uuid
  tk_attendee :: uuid
  tk_status :: ticket_status
  qr_fingerprint :: string
  checked_in_at :: "instant option"

section \<open>audit\<close>

text \<open>
  An unsaved row has no primary key only if its constructor gave it none; \<open>al_content\<close> is
  the pair of content type and object id of the generic foreign key.
\<close>

record audit_log =
  al_pk :: "uuid option"
  al_actor :: "uuid option"
  al_action :: string
  al_content :: "(string \<times> uuid) option"
  al_metadata :: json
  al_ip_address :: "string option"

section \<open>The database\<close>

record db =
  users :: "user list"
  companies :: "company list"
  members :: "member list"
  events :: "event list"
  tiers :: "ticket_tier list"
  holds :: "checkout_hold list"
  payments :: "payment list"
  tickets :: "ticket list"
  audit_logs :: "audit_log list"

text \<open>What a request or a task works on: the database and the Redis server.\<close>

record 'c world =
  database :: db
  redis :: 'c

definition with_db :: "(db \<Rightarrow> db) \<Rightarrow> 'c world \<Rightarrow> 'c world" where
  "with_db f w = w\<lparr>database := f (database w)\<rparr>"

definition with_redis :: "('c \<Rightarrow> 'c) \<Rightarrow> 'c world \<Rightarrow> 'c world" where
  "with_redis f w = w\<lparr>redis := f (redis w)\<rparr>"

text \<open>
  \<open>@transaction.atomic\<close>: an exception puts the database back to what it was at the start.
  Redis is not part of the transaction.
\<close>

definition atomic :: "('c world, 'a) prog \<Rightarrow> ('c world, 'a) prog" where
  "atomic m w =
     (case m w of
        (Inl e, w') \<Rightarrow> (Inl e, w'\<lparr>database := database w\<rparr>)
      | (Inr x, w') \<Rightarrow> (Inr x, w'))"

lemma database_with_db [simp]: "database (with_db f w) = f (database w)"
  by (simp add: with_db_def)

lemma redis_with_db [simp]: "redis (with_db f w) = redis w"
  by (simp add: with_db_def)

lemma database_with_redis [simp]: "database (with_redis f w) = database w"
  by (simp add: with_redis_def)

lemma redis_with_redis [simp]: "redis (with_redis f w) = f (redis w)"
  by (simp add: with_redis_def)

lemma atomic_Inl_database: "atomic m w = (Inl e, w') \<Longrightarrow> database w' = database w"
  by (auto simp: atomic_def split: prod.splits sum.splits)

lemma atomic_Inr_iff: "atomic m w = (Inr x, w') \<longleftrightarrow> m w = (Inr x, w')"
  by (auto simp: atomic_def split: prod.splits sum.splits)

lemma fst_atomic [simp]: "fst (atomic m w) = fst (m w)"
  by (auto simp: atomic_def split: prod.splits sum.splits)

lemma redis_atomic [simp]: "redis (snd (atomic m w)) = redis (snd (m w))"
  by (auto simp: atomic_def split: prod.splits sum.splits)

lemma atomic_cases:
  obtains (Raise) e w' where "m w = (Inl e, w')" "atomic m w = (Inl e, w'\<lparr>database := database w\<rparr>)"
  | (Commit) x w' where "m w = (Inr x, w')" "atomic m w = (Inr x, w')"
proof (cases "m w")
  case (Pair r w')
  then show ?thesis using that by (cases r) (simp_all add: atomic_def)
qed

end
