(* ===== verification/CacheApi.thy ===== *)
theory CacheApi
  imports PyJson
begin

text \<open>
  The Redis server as the code sees it: \<open>django.core.cache\<close> (django-redis) for keys with a
  time to live, and the raw client for one sorted set and one hash. None of its code is in
  the repository, so the operations are a parameter of every definition that uses them, a
  record over an unknown state type, and what the code relies on are the laws of the
  locales below. Time is explicit: an operation is given the instant at which the server
  executes it. \<open>ttl_api\<close> at the end is a store that satisfies every law.
\<close>

section \<open>Operations\<close>

text \<open>
  A cached value is an integer (counters), a string, or a JSON document: the text
  \<open>json.dumps\<close> writes stands for the value \<open>json.loads\<close> reads back from it.
\<close>

datatype cval = CInt int | CStr string | CJson json

text \<open>
  \<open>z_add\<close>, \<open>z_range\<close>, \<open>z_remrange\<close>, \<open>z_rem\<close> and \<open>z_score\<close> are ZADD, ZRANGEBYSCORE,
  ZREMRANGEBYSCORE, ZREM and ZSCORE; \<open>h_set\<close>, \<open>h_get\<close>, \<open>h_exists\<close> and \<open>k_expire\<close> are
  HSET, HGET, HEXISTS and EXPIRE.
\<close>

record 'c cache_api =
  c_get :: "'c \<Rightarrow> instant \<Rightarrow> string \<Rightarrow> cval option"
  c_set :: "'c \<Rightarrow> instant \<Rightarrow> string \<Rightarrow> cval \<Rightarrow> int \<Rightarrow> 'c"
  c_delete :: "'c \<Rightarrow> string \<Rightarrow> 'c"
  c_incr :: "'c \<Rightarrow> instant \<Rightarrow> string \<Rightarrow> int result \<times> 'c"
  z_add :: "'c \<Rightarrow> string \<Rightarrow> string \<Rightarrow> instant \<Rightarrow> 'c"
  z_range :: "'c \<Rightarrow> string \<Rightarrow> instant \<Rightarrow> instant \<Rightarrow> string list"
  z_remrange :: "'c \<Rightarrow> string \<Rightarrow> instant \<Rightarrow> instant \<Rightarrow> 'c"
  z_rem :: "'c \<Rightarrow> string \<Rightarrow> string \<Rightarrow> 'c"
  z_score :: "'c \<Rightarrow> string \<Rightarrow> string \<Rightarrow> instant option"
  h_set :: "'c \<Rightarrow> instant \<Rightarrow> string \<Rightarrow> string \<Rightarrow> string \<Rightarrow> 'c"
  h_get :: "'c \<Rightarrow> instant \<Rightarrow> string \<Rightarrow> string \<Rightarrow> string option"
  h_exists :: "'c \<Rightarrow> instant \<Rightarrow> string \<Rightarrow> string \<Rightarrow> bool"
  k_expire :: "'c \<Rightarrow> instant \<Rightarrow> string \<Rightarrow> int \<Rightarrow> 'c"

abbreviation usecs :: "int \<Rightarrow> int" where
  "usecs s \<equiv> s * 1000000"

section \<open>Laws\<close>

locale django_cache =
  fixes C :: "'c cache_api"
  assumes get_set_live: "0 < ttl \<Longrightarrow> t \<le> t' \<Longrightarrow> t' < t + usecs ttl \<Longrightarrow>
      c_get C (c_set C c t k v ttl) t' k = Some v"
    and get_set_dead: "0 < ttl \<Longrightarrow> t + usecs ttl \<le> t' \<Longrightarrow> c_get C (c_set C c t k v ttl) t' k = None"
    and get_set_other: "k' \<noteq> k \<Longrightarrow> c_get C (c_set C c t k v ttl) t' k' = c_get C c t' k'"
    and get_delete: "c_get C (c_delete C c k) t' k' = (if k' = k then None else c_get C c t' k')"
    and incr_missing: "c_get C c t k = None \<Longrightarrow> c_incr C c t k = (Inl ValueError, c)"
    and incr_value: "c_get C c t k = Some (CInt n) \<Longrightarrow> fst (c_incr C c t k) = Inr (n + 1)"
    and get_incr_same: "c_get C c t k = Some (CInt n) \<Longrightarrow> t \<le> t' \<Longrightarrow>
      c_get C (snd (c_incr C c t k)) t' k = map_option (\<lambda>_. CInt (n + 1)) (c_get C c t' k)"
    and get_incr_other: "c_get C c t k = Some (CInt n) \<Longrightarrow> k' \<noteq> k \<Longrightarrow>
      c_get C (snd (c_incr C c t k)) t' k' = c_get C c t' k'"
    and get_later: "t \<le> t' \<Longrightarrow> c_get C c t' k = None \<or> c_get C c t' k = c_get C c t k"

locale redis_zset =
  fixes C :: "'c cache_api"
  assumes score_add: "z_score C (z_add C c z m s) z' m' =
      (if z' = z \<and> m' = m then Some s else z_score C c z' m')"
    and mem_range: "m \<in> set (z_range C c z lo hi) \<longleftrightarrow>
      (\<exists>s. z_score C c z m = Some s \<and> lo \<le> s \<and> s \<le> hi)"
    and distinct_range: "distinct (z_range C c z lo hi)"
    and score_remrange: "z_score C (z_remrange C c z lo hi) z' m =
      (if z' = z \<and> m \<in> set (z_range C c z lo hi) then None else z_score C c z' m)"
    and score_rem: "z_score C (z_rem C c z m) z' m' =
      (if z' = z \<and> m' = m then None else z_score C c z' m')"

locale redis_hash =
  fixes C :: "'c cache_api"
  assumes exists_get: "h_exists C c t h f \<longleftrightarrow> h_get C c t h f \<noteq> None"
    and hget_hset: "h_get C (h_set C c t h f v) t h' f' =
      (if h' = h \<and> f' = f then Some v else h_get C c t h' f')"
    and hget_expire_live: "0 < ttl \<Longrightarrow> t \<le> t' \<Longrightarrow> t' < t + usecs ttl \<Longrightarrow>
      h_get C (k_expire C c t h ttl) t' h f = h_get C c t h f"
    and hget_expire_dead: "0 < ttl \<Longrightarrow> t + usecs ttl \<le> t' \<Longrightarrow>
      h_get C (k_expire C c t h ttl) t' h f = None"

text \<open>
  One server holds all three. django-redis prefixes its keys (\<open>:1:\<close>), so a key with a time
  to live is never the sorted set or the hash: operations on one kind leave the others.
\<close>

locale redis_server = django_cache C + redis_zset C + redis_hash C
  for C :: "'c cache_api" +
  assumes get_z_add: "c_get C (z_add C c z m s) t k = c_get C c t k"
    and get_z_remrange: "c_get C (z_remrange C c z lo hi) t k = c_get C c t k"
    and get_z_rem: "c_get C (z_rem C c z m) t k = c_get C c t k"
    and score_set: "z_score C (c_set C c t k v ttl) z m = z_score C c z m"
    and score_delete: "z_score C (c_delete C c k) z m = z_score C c z m"

text \<open>
  What the caches of the code promise their callers: a value put under a key is seen until
  its lifetime ends, whatever happens to other keys. \<open>ok\<close> says which values the store can
  represent. A registry whose entries can be dropped extends it.
\<close>

locale ttl_registry =
  fixes put :: "instant \<Rightarrow> string \<Rightarrow> 'v \<Rightarrow> 'c \<Rightarrow> 'c"
    and look :: "'c \<Rightarrow> instant \<Rightarrow> string \<Rightarrow> 'v option"
    and life :: "instant \<Rightarrow> 'v \<Rightarrow> int"
    and ok :: "'v \<Rightarrow> bool"
  assumes look_put: "ok v \<Longrightarrow> t \<le> t' \<Longrightarrow>
      look (put t k v c) t' k = (if t' < t + usecs (life t v) then Some v else None)"
    and look_put_other: "k' \<noteq> k \<Longrightarrow> look (put t k v c) t' k' = look c t' k'"

locale ttl_registry_drop = ttl_registry put look life ok
  for put :: "instant \<Rightarrow> string \<Rightarrow> 'v \<Rightarrow> 'c \<Rightarrow> 'c"
    and look :: "'c \<Rightarrow> instant \<Rightarrow> string \<Rightarrow> 'v option"
    and life :: "instant \<Rightarrow> 'v \<Rightarrow> int"
    and ok :: "'v \<Rightarrow> bool" +
  fixes drop_key :: "string \<Rightarrow> 'c \<Rightarrow> 'c"
  assumes look_drop: "look (drop_key k c) t' k' = (if k' = k then None else look c t' k')"

context ttl_registry
begin

lemma look_put_live:
  "ok v \<Longrightarrow> t \<le> t' \<Longrightarrow> t' < t + usecs (life t v) \<Longrightarrow> look (put t k v c) t' k = Some v"
  by (simp add: look_put)

lemma look_put_dead:
  "ok v \<Longrightarrow> t \<le> t' \<Longrightarrow> t + usecs (life t v) \<le> t' \<Longrightarrow> look (put t k v c) t' k = None"
  by (simp add: look_put)

text \<open>Later writes under other keys never hide an entry.\<close>

lemma look_put_foldl:
  "k \<notin> set (map (fst \<circ> snd) ws) \<Longrightarrow>
   look (foldl (\<lambda>c (t, k, v). put t k v c) c ws) t' k = look c t' k"
  by (induction ws arbitrary: c) (auto simp: look_put_other)

end

context django_cache
begin

lemmas get_simps = get_set_other get_delete

lemma get_expired_later: "c_get C c t k = None \<Longrightarrow> t \<le> t' \<Longrightarrow> c_get C c t' k = None"
  using get_later [of t t' c k] by auto

lemma get_live_earlier: "c_get C c t' k = Some v \<Longrightarrow> t \<le> t' \<Longrightarrow> c_get C c t k = Some v"
  using get_later [of t t' c k] by auto

end

context redis_server
begin

lemmas frame_simps = get_z_add get_z_remrange get_z_rem score_set score_delete

end

section \<open>A store with every law\<close>

text \<open>
  Keys map to a value and the instant at which it lapses; the sorted sets are association
  lists from member to score, the hashes association lists with an optional lapse.
\<close>

record ttl_store =
  st_keys :: "string \<Rightarrow> (cval \<times> instant) option"
  st_zsets :: "string \<Rightarrow> (string \<times> instant) list"
  st_hashes :: "string \<Rightarrow> (string \<times> string) list \<times> instant option"

definition ttl_empty :: ttl_store where
  "ttl_empty = \<lparr>st_keys = (\<lambda>_. None), st_zsets = (\<lambda>_. []), st_hashes = (\<lambda>_. ([], None))\<rparr>"

definition ttl_get :: "ttl_store \<Rightarrow> instant \<Rightarrow> string \<Rightarrow> cval option" where
  "ttl_get s t k = (case st_keys s k of None \<Rightarrow> None | Some (v, e) \<Rightarrow> if t < e then Some v else None)"

definition ttl_set :: "ttl_store \<Rightarrow> instant \<Rightarrow> string \<Rightarrow> cval \<Rightarrow> int \<Rightarrow> ttl_store" where
  "ttl_set s t k v ttl = s\<lparr>st_keys := (st_keys s)(k \<mapsto> (v, t + usecs ttl))\<rparr>"

definition ttl_delete :: "ttl_store \<Rightarrow> string \<Rightarrow> ttl_store" where
  "ttl_delete s k = s\<lparr>st_keys := (st_keys s)(k := None)\<rparr>"

definition ttl_incr :: "ttl_store \<Rightarrow> instant \<Rightarrow> string \<Rightarrow> int result \<times> ttl_store" where
  "ttl_incr s t k =
     (case st_keys s k of
        Some (CInt n, e) \<Rightarrow>
          if t < e then (Inr (n + 1), s\<lparr>st_keys := (st_keys s)(k \<mapsto> (CInt (n + 1), e))\<rparr>)
          else (Inl ValueError, s)
      | _ \<Rightarrow> (Inl ValueError, s))"

definition ttl_zadd :: "ttl_store \<Rightarrow> string \<Rightarrow> string \<Rightarrow> instant \<Rightarrow> ttl_store" where
  "ttl_zadd s z m sc = s\<lparr>st_zsets := (st_zsets s)(z := (m, sc) # filter (\<lambda>p. fst p \<noteq> m) (st_zsets s z))\<rparr>"

definition ttl_zrange :: "ttl_store \<Rightarrow> string \<Rightarrow> instant \<Rightarrow> instant \<Rightarrow> string list" where
  "ttl_zrange s z lo hi =
     filter (\<lambda>m. \<exists>sc. map_of (st_zsets s z) m = Some sc \<and> lo \<le> sc \<and> sc \<le> hi) (remdups (map fst (st_zsets s z)))"

definition ttl_zremrange :: "ttl_store \<Rightarrow> string \<Rightarrow> instant \<Rightarrow> instant \<Rightarrow> ttl_store" where
  "ttl_zremrange s z lo hi =
     s\<lparr>st_zsets := (st_zsets s)(z := filter (\<lambda>p. fst p \<notin> set (ttl_zrange s z lo hi)) (st_zsets s z))\<rparr>"

definition ttl_zrem :: "ttl_store \<Rightarrow> string \<Rightarrow> string \<Rightarrow> ttl_store" where
  "ttl_zrem s z m = s\<lparr>st_zsets := (st_zsets s)(z := filter (\<lambda>p. fst p \<noteq> m) (st_zsets s z))\<rparr>"

definition ttl_zscore :: "ttl_store \<Rightarrow> string \<Rightarrow> string \<Rightarrow> instant option" where
  "ttl_zscore s z m = map_of (st_zsets s z) m"

definition ttl_hlive :: "ttl_store \<Rightarrow> instant \<Rightarrow> string \<Rightarrow> bool" where
  "ttl_hlive s t h = (case snd (st_hashes s h) of None \<Rightarrow> True | Some e \<Rightarrow> t < e)"

definition ttl_hget :: "ttl_store \<Rightarrow> instant \<Rightarrow> string \<Rightarrow> string \<Rightarrow> string option" where
  "ttl_hget s t h f = (if ttl_hlive s t h then map_of (fst (st_hashes s h)) f else None)"

definition ttl_hset :: "ttl_store \<Rightarrow> instant \<Rightarrow> string \<Rightarrow> string \<Rightarrow> string \<Rightarrow> ttl_store" where
  "ttl_hset s t h f v =
     s\<lparr>st_hashes := (st_hashes s)(h := if ttl_hlive s t h then ((f, v) # fst (st_hashes s h), snd (st_hashes s h))
                        else ([(f, v)], None))\<rparr>"

definition ttl_expire :: "ttl_store \<Rightarrow> instant \<Rightarrow> string \<Rightarrow> int \<Rightarrow> ttl_store" where
  "ttl_expire s t h ttl =
     s\<lparr>st_hashes := (st_hashes s)(h := if ttl_hlive s t h then (fst (st_hashes s h), Some (t + usecs ttl))
                        else ([], None))\<rparr>"

definition ttl_api :: "ttl_store cache_api" where
  "ttl_api = \<lparr>c_get = ttl_get, c_set = ttl_set, c_delete = ttl_delete, c_incr = ttl_incr,
     z_add = ttl_zadd, z_range = ttl_zrange, z_remrange = ttl_zremrange, z_rem = ttl_zrem,
     z_score = ttl_zscore, h_set = ttl_hset, h_get = ttl_hget,
     h_exists = (\<lambda>s t h f. ttl_hget s t h f \<noteq> None), k_expire = ttl_expire\<rparr>"

lemmas ttl_defs = ttl_api_def ttl_get_def ttl_set_def ttl_delete_def ttl_incr_def ttl_zadd_def
  ttl_zremrange_def ttl_zrem_def ttl_zscore_def ttl_hget_def ttl_hset_def ttl_expire_def
  ttl_hlive_def

lemma map_of_filter_notin:
  "map_of (filter (\<lambda>p. fst p \<notin> A) xs) k = (if k \<in> A then None else map_of xs k)"
  by (induction xs) auto

lemma map_of_filter_neq:
  "map_of (filter (\<lambda>p. fst p \<noteq> m) xs) k = (if k = m then None else map_of xs k)"
  by (induction xs) auto

lemma set_ttl_zrange:
  "m \<in> set (ttl_zrange s z lo hi) \<longleftrightarrow> (\<exists>sc. ttl_zscore s z m = Some sc \<and> lo \<le> sc \<and> sc \<le> hi)"
  by (force simp: ttl_zrange_def ttl_zscore_def dest: map_of_SomeD)

interpretation ttl: redis_server ttl_api
proof unfold_locales
  fix t t' :: instant and c k and n :: int
  show "t \<le> t' \<Longrightarrow> c_get ttl_api c t' k = None \<or> c_get ttl_api c t' k = c_get ttl_api c t k"
    by (auto simp: ttl_defs split: option.splits)
  show "c_get ttl_api c t k = None \<Longrightarrow> c_incr ttl_api c t k = (Inl ValueError, c)"
    by (auto simp: ttl_defs split: option.splits cval.splits if_splits)
next
  fix c z m lo hi
  show "m \<in> set (z_range ttl_api c z lo hi) \<longleftrightarrow>
      (\<exists>s. z_score ttl_api c z m = Some s \<and> lo \<le> s \<and> s \<le> hi)"
    by (simp add: ttl_api_def set_ttl_zrange)
  show "distinct (z_range ttl_api c z lo hi)"
    by (simp add: ttl_api_def ttl_zrange_def)
next
  fix c z z' m lo hi
  show "z_score ttl_api (z_remrange ttl_api c z lo hi) z' m =
      (if z' = z \<and> m \<in> set (z_range ttl_api c z lo hi) then None else z_score ttl_api c z' m)"
    by (simp add: ttl_defs map_of_filter_notin)
qed (auto simp: ttl_defs map_of_filter_neq split: option.splits cval.splits if_splits)

lemma ttl_empty_get [simp]: "c_get ttl_api ttl_empty t k = None"
  by (simp add: ttl_defs ttl_empty_def)

end
