(* ===== verification/IdempotencyStore.thy ===== *)
theory IdempotencyStore
  imports Models CacheApi
begin

text \<open>
  \<open>payments/idempotency_store.py\<close>: which payments and webhook orders were processed, kept
  in the cache for seven days with the result to return to a retry.
\<close>

definition idem_key :: "string \<Rightarrow> string" where
  "idem_key pid = ''idem:payment:'' @ pid"

definition idem_ttl :: int where
  "idem_ttl = 86400 * 7"

definition is_processed :: "'c cache_api \<Rightarrow> 'c \<Rightarrow> instant \<Rightarrow> string \<Rightarrow> bool" where
  "is_processed C c now pid \<longleftrightarrow> c_get C c now (idem_key pid) \<noteq> None"

definition mark_processed :: "'c cache_api \<Rightarrow> instant \<Rightarrow> string \<Rightarrow> json \<Rightarrow> 'c \<Rightarrow> 'c" where
  "mark_processed C now pid result c = c_set C c now (idem_key pid) (CJson result) idem_ttl"

definition get_result :: "'c cache_api \<Rightarrow> 'c \<Rightarrow> instant \<Rightarrow> string \<Rightarrow> json option result" where
  "get_result C c now pid =
     (case c_get C c now (idem_key pid) of
        None \<Rightarrow> Inr None
      | Some (CJson j) \<Rightarrow> Inr (Some j)
      | Some _ \<Rightarrow> Inl TypeError)"

definition json_of_cval :: "cval option \<Rightarrow> json option" where
  "json_of_cval v = (case v of Some (CJson j) \<Rightarrow> Some j | _ \<Rightarrow> None)"

sublocale django_cache \<subseteq> idem: ttl_registry
    "\<lambda>t pid r. mark_processed C t pid r" "\<lambda>c t pid. json_of_cval (c_get C c t (idem_key pid))"
    "\<lambda>_ _. idem_ttl" "\<lambda>_. True"
  by unfold_locales
    (auto simp: mark_processed_def idem_key_def idem_ttl_def json_of_cval_def get_set_live
      get_set_dead get_set_other not_less)

context django_cache
begin

lemma is_processed_marked:
  "t \<le> t' \<Longrightarrow> is_processed C (mark_processed C t pid r c) t' pid \<longleftrightarrow> t' < t + usecs idem_ttl"
  by (cases "t' < t + usecs idem_ttl")
    (simp_all add: is_processed_def mark_processed_def idem_ttl_def get_set_live get_set_dead)

lemma is_processed_other:
  "pid' \<noteq> pid \<Longrightarrow> is_processed C (mark_processed C t pid r c) t' pid' \<longleftrightarrow> is_processed C c t' pid'"
  by (simp add: is_processed_def mark_processed_def idem_key_def get_set_other)

lemma get_result_marked:
  "t \<le> t' \<Longrightarrow> get_result C (mark_processed C t pid r c) t' pid
     = Inr (if t' < t + usecs idem_ttl then Some r else None)"
  by (cases "t' < t + usecs idem_ttl")
    (simp_all add: get_result_def mark_processed_def idem_ttl_def get_set_live get_set_dead)

end

section \<open>Properties\<close>

text \<open>
  A payment marked as processed is seen as processed, with the result that was stored,
  for exactly seven days; marking it says nothing about any other payment.
\<close>

theorem idempotency_window:
  assumes "django_cache C" and "t \<le> t'"
  shows "(is_processed C (mark_processed C t pid r c) t' pid = (t' < t + 604800000000))
    \<and> get_result C (mark_processed C t pid r c) t' pid
        = Inr (if t' < t + 604800000000 then Some r else None)
    \<and> (pid' \<noteq> pid \<longrightarrow>
        is_processed C (mark_processed C t pid r c) t' pid' = is_processed C c t' pid')"
  using django_cache.is_processed_marked [OF assms] django_cache.get_result_marked [OF assms]
    django_cache.is_processed_other [OF assms(1)]
  by (simp add: idem_ttl_def)

theorem idempotency_window_witness:
  "is_processed ttl_api (mark_processed ttl_api 0 ''ls:1'' (JObj []) ttl_empty) 604799999999 ''ls:1''
    \<and> \<not> is_processed ttl_api (mark_processed ttl_api 0 ''ls:1'' (JObj []) ttl_empty) 604800000000 ''ls:1''"
  using idempotency_window [OF ttl.django_cache_axioms, of 0 604799999999]
    idempotency_window [OF ttl.django_cache_axioms, of 0 604800000000] by simp

end
