(* ===== verification/AuditTrail.thy ===== *)
theory AuditTrail
  imports Models
begin

text \<open>
  \<open>audit/models.py\<close> and \<open>audit/services.py\<close>: the append-only audit trail. The primary
  key has a default (\<open>uuid.uuid4\<close>), so the constructor of an entry already sets it, and
  \<open>save\<close> takes a set primary key for an attempt to update.
\<close>

section \<open>The model's methods\<close>

text \<open>\<open>AuditLog(...)\<close>; \<open>u\<close> is what \<open>uuid.uuid4()\<close> returns for the default of \<open>id\<close>.\<close>

definition audit_log_new :: "uuid \<Rightarrow> uuid option \<Rightarrow> string \<Rightarrow> json \<Rightarrow> string option \<Rightarrow> audit_log" where
  "audit_log_new u actor action metadata ip =
     \<lparr>al_pk = Some u, al_actor = actor, al_action = action, al_content = None,
      al_metadata = metadata, al_ip_address = ip\<rparr>"

text \<open>\<open>super().save()\<close> of a row that has no key yet draws one and inserts the row.\<close>

definition audit_log_save :: "uuid \<Rightarrow> audit_log \<Rightarrow> ('c world, unit) prog" where
  "audit_log_save fresh e =
     (if al_pk e \<noteq> None then throw ValueError
      else modify (with_db (\<lambda>d. d\<lparr>audit_logs := audit_logs d @ [e\<lparr>al_pk := Some fresh\<rparr>]\<rparr>)))"

definition audit_log_delete :: "audit_log \<Rightarrow> ('c world, unit) prog" where
  "audit_log_delete e = throw ValueError"

section \<open>The service\<close>

text \<open>\<open>metadata or {}\<close>: \<open>None\<close> and an empty dictionary both give an empty dictionary.\<close>

definition metadata_or_empty :: "json option \<Rightarrow> json" where
  "metadata_or_empty m = (case m of None \<Rightarrow> JObj [] | Some j \<Rightarrow> j)"

definition log_action ::
  "uuid \<Rightarrow> uuid \<Rightarrow> string \<Rightarrow> uuid option \<Rightarrow> (string \<times> uuid) option \<Rightarrow> json option \<Rightarrow> string option
     \<Rightarrow> ('c world, audit_log) prog" where
  "log_action u fresh action actor entity metadata ip =
     (let entry = audit_log_new u actor action (metadata_or_empty metadata) ip;
          entry = (case entity of None \<Rightarrow> entry | Some ct \<Rightarrow> entry\<lparr>al_content := Some ct\<rparr>)
      in bindE (audit_log_save fresh entry) (\<lambda>_. ret entry))"

lemma log_action_raises [simp]: "log_action u fresh action actor entity metadata ip w = (Inl ValueError, w)"
  by (simp add: log_action_def Let_def audit_log_save_def audit_log_new_def prog_simps
      split: option.split)

section \<open>Properties\<close>

text \<open>
  The trail can be written by no one: \<open>log_action\<close> raises \<open>ValueError\<close> for every
  action, actor, entity and metadata and adds no entry, because the key its entry was
  constructed with makes \<open>save\<close> refuse it as an update.
\<close>

theorem log_action_always_raises:
  "log_action u fresh action actor entity metadata ip w = (Inl ValueError, w)"
  by simp

text \<open>
  The trail is append-only: \<open>save\<close> and \<open>delete\<close> leave every entry that is there where
  it is, and an entry with a key can be neither saved nor deleted.
\<close>

theorem audit_trail_append_only:
  fixes w :: "'c world"
  shows "(\<exists>new. audit_logs (database (snd (audit_log_save fresh e w))) = audit_logs (database w) @ new)
   \<and> (al_pk e = Some k \<longrightarrow> audit_log_save fresh e w = (Inl ValueError, w))
   \<and> audit_log_delete e w = (Inl ValueError, w)"
  by (auto simp: audit_log_save_def audit_log_delete_def prog_simps)

theorem audit_trail_append_only_witness:
  "audit_log_save ''f'' (audit_log_new ''u'' None ''a'' (JObj []) None)
     (\<lparr>database = undefined, redis = ()\<rparr>) = (Inl ValueError, \<lparr>database = undefined, redis = ()\<rparr>)"
  using audit_trail_append_only [where fresh = "''f''" and k = "''u''"
      and e = "audit_log_new ''u'' None ''a'' (JObj []) None" and w = "\<lparr>database = undefined, redis = ()\<rparr>"]
  by (simp add: audit_log_new_def)

end
