(* ===== verification/Webhooks.thy ===== *)
theory Webhooks
  imports IdempotencyStore AuditTrail
begin

text \<open>
  \<open>webhooks/handlers.py\<close>: the two handlers, over the JSON the provider sends. \<open>now\<close> is the
  clock at the idempotency check and at the write, \<open>u\<close> and \<open>fresh\<close> are the keys the audit
  log draws.
\<close>

section \<open>LemonSqueezy\<close>

definition already_processed :: json where
  "already_processed = JObj [(''status'', JStr ''already_processed''), (''idempotent'', JBool True)]"

text \<open>\<open>str(event_data.get('data', {}).get('id', ''))\<close>\<close>

definition ls_order_id :: "(json \<Rightarrow> string) \<Rightarrow> json \<Rightarrow> string result" where
  "ls_order_id fmt event_data =
     (case py_get event_data ''data'' (JObj []) of Inl e \<Rightarrow> Inl e | Inr data \<Rightarrow>
      case py_get data ''id'' (JStr []) of Inl e \<Rightarrow> Inl e | Inr i \<Rightarrow> Inr (py_str fmt i))"

text \<open>The result dictionary, or the exception the payload makes its construction raise.\<close>

definition ls_result :: "(json \<Rightarrow> string) \<Rightarrow> string \<Rightarrow> json \<Rightarrow> json result" where
  "ls_result fmt order_id event_data =
     (case py_get event_data ''data'' (JObj []) of Inl e \<Rightarrow> Inl e | Inr data \<Rightarrow>
      case py_get data ''attributes'' (JObj []) of Inl e \<Rightarrow> Inl e | Inr attributes \<Rightarrow>
      case py_get attributes ''custom_data'' (JObj []) of Inl e \<Rightarrow> Inl e | Inr custom_data \<Rightarrow>
      case py_get custom_data ''hold_token'' JNull of Inl e \<Rightarrow> Inl e | Inr hold_tok \<Rightarrow>
      case py_get attributes ''total'' (JInt 0) of Inl e \<Rightarrow> Inl e | Inr cents \<Rightarrow>
      case py_truediv_100 cents of Inl e \<Rightarrow> Inl e | Inr amount \<Rightarrow>
      case py_get attributes ''currency'' (JStr ''USD'') of Inl e \<Rightarrow> Inl e | Inr cur \<Rightarrow>
      case py_upper cur of Inl e \<Rightarrow> Inl e | Inr currency \<Rightarrow>
      Inr (JObj [(''order_id'', JStr order_id), (''hold_token'', hold_tok),
        (''amount'', JStr (py_str fmt (JFloat amount))), (''currency'', JStr currency),
        (''status'', JStr ''ticket_issued'')]))"

definition ls_metadata :: "json \<Rightarrow> json" where
  "ls_metadata result =
     (case result of
        JObj kvs \<Rightarrow> JObj (filter (\<lambda>kv. fst kv \<in> {''order_id'', ''amount'', ''currency''}) kvs)
      | _ \<Rightarrow> JObj [])"

definition handle_lemon_squeezy_order_created ::
  "'c cache_api \<Rightarrow> (json \<Rightarrow> string) \<Rightarrow> instant \<Rightarrow> uuid \<Rightarrow> uuid \<Rightarrow> json \<Rightarrow> ('c world, json) prog" where
  "handle_lemon_squeezy_order_created C fmt now u fresh event_data =
     atomic
      (bindE (lift_result (\<lambda>_. ls_order_id fmt event_data)) (\<lambda>order_id.
       if order_id = [] then throw WebhookHandlerError
       else
         bindE (lift_result (\<lambda>w. Inr (is_processed C (redis w) now (''ls:'' @ order_id)))) (\<lambda>processed.
         if processed then ret already_processed
         else
           bindE (lift_result (\<lambda>_. ls_result fmt order_id event_data)) (\<lambda>result.
           bindE (modify (with_redis (mark_processed C now (''ls:'' @ order_id) result))) (\<lambda>_.
           bindE (log_action u fresh ''webhook.ls.order_created'' None None (Some (ls_metadata result)) None) (\<lambda>_.
           ret result))))))"

section \<open>M-Pesa\<close>

definition mpesa_result :: "(json \<Rightarrow> string) \<Rightarrow> string \<Rightarrow> json \<Rightarrow> json \<Rightarrow> json" where
  "mpesa_result fmt checkout_request_id amount receipt_number =
     JObj [(''checkout_request_id'', JStr checkout_request_id), (''amount'', JStr (py_str fmt amount)),
       (''receipt_number'', receipt_number), (''status'', JStr ''ticket_issued'')]"

definition handle_mpesa_payment_succeeded ::
  "'c cache_api \<Rightarrow> (json \<Rightarrow> string) \<Rightarrow> instant \<Rightarrow> uuid \<Rightarrow> uuid \<Rightarrow> string \<Rightarrow> json \<Rightarrow> json
     \<Rightarrow> ('c world, json) prog" where
  "handle_mpesa_payment_succeeded C fmt now u fresh checkout_request_id amount receipt_number =
     atomic
      (let idem = ''mpesa:'' @ checkout_request_id;
           result = mpesa_result fmt checkout_request_id amount receipt_number in
       bindE (lift_result (\<lambda>w. Inr (is_processed C (redis w) now idem))) (\<lambda>processed.
       if processed then ret already_processed
       else
         bindE (modify (with_redis (mark_processed C now idem result))) (\<lambda>_.
         bindE (log_action u fresh ''webhook.mpesa.payment_succeeded'' None None
             (Some (JObj [(''checkout_request_id'', JStr checkout_request_id), (''receipt'', receipt_number)]))
             None) (\<lambda>_.
         ret result))))"

section \<open>Closed forms\<close>

lemma handle_ls_eq:
  "handle_lemon_squeezy_order_created C fmt now u fresh ev w =
     (case ls_order_id fmt ev of
        Inl e \<Rightarrow> (Inl e, w)
      | Inr oid \<Rightarrow>
          if oid = [] then (Inl WebhookHandlerError, w)
          else if is_processed C (redis w) now (''ls:'' @ oid) then (Inr already_processed, w)
          else (case ls_result fmt oid ev of
                  Inl e \<Rightarrow> (Inl e, w)
                | Inr result \<Rightarrow> (Inl ValueError,
                    w\<lparr>redis := mark_processed C now (''ls:'' @ oid) result (redis w)\<rparr>)))"
  by (cases w)
    (auto simp: handle_lemon_squeezy_order_created_def atomic_def prog_simps with_redis_def
      split: sum.split)

lemma handle_mpesa_eq:
  "handle_mpesa_payment_succeeded C fmt now u fresh cid amount receipt w =
     (if is_processed C (redis w) now (''mpesa:'' @ cid) then (Inr already_processed, w)
      else (Inl ValueError, w\<lparr>redis := mark_processed C now (''mpesa:'' @ cid)
              (mpesa_result fmt cid amount receipt) (redis w)\<rparr>))"
  by (cases w)
    (auto simp: handle_mpesa_payment_succeeded_def atomic_def prog_simps with_redis_def Let_def)

section \<open>Properties\<close>

text \<open>
  No webhook ever results in a ticket: a handler that returns at all returns the
  already-processed answer, whatever the event, and it never changes the database.
\<close>

theorem webhooks_never_issue:
  "fst (handle_lemon_squeezy_order_created C fmt now u fresh ev w)
       \<in> insert (Inr already_processed) (range Inl)
   \<and> fst (handle_mpesa_payment_succeeded C fmt now u fresh cid amount receipt w)
       \<in> insert (Inr already_processed) (range Inl)
   \<and> database (snd (handle_lemon_squeezy_order_created C fmt now u fresh ev w)) = database w
   \<and> database (snd (handle_mpesa_payment_succeeded C fmt now u fresh cid amount receipt w)) = database w"
  by (auto simp: handle_ls_eq handle_mpesa_eq split: sum.split)

text \<open>
  C25: A paid LemonSqueezy order is lost. The first delivery of a well-formed event marks
  the order as processed and then raises; the mark outlives the rolled-back transaction, so
  every retry within seven days is told that the order was processed.
\<close>

theorem ls_order_lost:
  assumes "django_cache C" and "ls_order_id fmt ev = Inr oid" and "oid \<noteq> []"
    and "ls_result fmt oid ev = Inr result"
    and "\<not> is_processed C (redis w) now (''ls:'' @ oid)"
    and "now \<le> later" and "later < now + 604800000000"
  shows "\<exists>w'. handle_lemon_squeezy_order_created C fmt now u fresh ev w = (Inl ValueError, w')
    \<and> database w' = database w
    \<and> get_result C (redis w') later (''ls:'' @ oid) = Inr (Some result)
    \<and> handle_lemon_squeezy_order_created C fmt later u' fresh' ev w' = (Inr already_processed, w')"
  using assms
  by (simp add: handle_ls_eq django_cache.is_processed_marked [OF assms(1,6)]
      django_cache.get_result_marked [OF assms(1,6)] idem_ttl_def)

definition sample_order :: json where
  "sample_order = JObj [(''data'', JObj [(''id'', JInt 7), (''attributes'',
     JObj [(''custom_data'', JObj [(''hold_token'', JStr ''k'')]), (''total'', JInt 0),
           (''currency'', JStr ''kes'')])])]"

theorem ls_order_lost_witness:
  "\<exists>w'. handle_lemon_squeezy_order_created ttl_api (\<lambda>_. ''0.0'') 0 ''a'' ''b'' sample_order
      \<lparr>database = undefined, redis = ttl_empty\<rparr> = (Inl ValueError, w')
    \<and> handle_lemon_squeezy_order_created ttl_api (\<lambda>_. ''0.0'') 60000000 ''c'' ''d'' sample_order w'
      = (Inr already_processed, w')"
proof -
  have oid: "ls_order_id (\<lambda>_. ''0.0'') sample_order = Inr ''7''"
    by (simp add: ls_order_id_def sample_order_def show_int_def show_nat.simps digit_char_def)
  have res: "\<exists>r. ls_result (\<lambda>_. ''0.0'') ''7'' sample_order = Inr r"
    by (simp add: ls_result_def sample_order_def to_double_def round_double_def)
  then obtain r where r: "ls_result (\<lambda>_. ''0.0'') ''7'' sample_order = Inr r" by blast
  have "\<not> is_processed ttl_api (redis \<lparr>database = undefined, redis = ttl_empty\<rparr>) 0 (''ls:'' @ ''7'')"
    by (simp add: is_processed_def)
  from ls_order_lost [OF ttl.django_cache_axioms oid _ r this, of 60000000]
  show ?thesis by (simp del: append.simps) blast
qed

text \<open>
  The same holds for M-Pesa: the first confirmation of a payment raises after marking
  it, and every later one within seven days is answered as already processed.
\<close>

theorem mpesa_payment_lost:
  assumes "django_cache C" and "\<not> is_processed C (redis w) now (''mpesa:'' @ cid)"
    and "now \<le> later" and "later < now + 604800000000"
  shows "\<exists>w'. handle_mpesa_payment_succeeded C fmt now u fresh cid amount receipt w = (Inl ValueError, w')
    \<and> database w' = database w
    \<and> handle_mpesa_payment_succeeded C fmt later u' fresh' cid amount' receipt' w' = (Inr already_processed, w')"
  using assms
  by (simp add: handle_mpesa_eq django_cache.is_processed_marked [OF assms(1,3)] idem_ttl_def)

theorem mpesa_payment_lost_witness:
  "\<exists>w'. handle_mpesa_payment_succeeded ttl_api (\<lambda>_. ''100.0'') 0 ''a'' ''b'' ''ws_CO_1'' (JInt 100) (JStr ''R'')
      \<lparr>database = undefined, redis = ttl_empty\<rparr> = (Inl ValueError, w')"
proof -
  have "\<not> is_processed ttl_api (redis \<lparr>database = undefined, redis = ttl_empty\<rparr>) 0 (''mpesa:'' @ ''ws_CO_1'')"
    by (simp add: is_processed_def)
  from mpesa_payment_lost [OF ttl.django_cache_axioms this, of 0] show ?thesis by simp blast
qed

end
