(* ===== verification/Inventory.thy ===== *)
theory Inventory
  imports Models CacheApi
begin

text \<open>
  \<open>inventory/models.py\<close>, \<open>inventory/availability_cache.py\<close> and \<open>inventory/views.py\<close>: what
  a tier has left, whether it is on sale, the short-lived cache of that number, and the
  query behind the public tier listing.
\<close>

section \<open>Ticket tiers\<close>

definition quantity_available :: "ticket_tier \<Rightarrow> int" where
  "quantity_available t = max 0 (quantity_total t - quantity_held t - quantity_sold t)"

definition is_on_sale :: "instant \<Rightarrow> ticket_tier \<Rightarrow> bool" where
  "is_on_sale now t =
     (if (case sale_starts_at t of None \<Rightarrow> False | Some s \<Rightarrow> now < s) then False
      else if (case sale_ends_at t of None \<Rightarrow> False | Some e \<Rightarrow> e < now) then False
      else tier_is_active t \<and> 0 < quantity_available t)"

lemma quantity_available_nonneg [simp]: "0 \<le> quantity_available t"
  by (simp add: quantity_available_def)

lemma le_quantity_available_iff:
  "0 < q \<Longrightarrow> q \<le> quantity_available t \<longleftrightarrow> quantity_held t + q + quantity_sold t \<le> quantity_total t"
  by (auto simp: quantity_available_def)

lemma is_on_sale_iff:
  "is_on_sale now t \<longleftrightarrow>
     tier_is_active t \<and> quantity_held t + quantity_sold t < quantity_total t
     \<and> (\<forall>s. sale_starts_at t = Some s \<longrightarrow> s \<le> now) \<and> (\<forall>e. sale_ends_at t = Some e \<longrightarrow> now \<le> e)"
  by (auto simp: is_on_sale_def quantity_available_def split: option.splits)

section \<open>The availability cache\<close>

definition availability_key :: "uuid \<Rightarrow> string" where
  "availability_key tid = ''tier_avail:'' @ tid"

definition availability_ttl :: int where
  "availability_ttl = 30"

definition get_cached_availability :: "'c cache_api \<Rightarrow> 'c \<Rightarrow> instant \<Rightarrow> uuid \<Rightarrow> cval option" where
  "get_cached_availability C c now tid = c_get C c now (availability_key tid)"

definition set_cached_availability :: "'c cache_api \<Rightarrow> instant \<Rightarrow> uuid \<Rightarrow> int \<Rightarrow> 'c \<Rightarrow> 'c" where
  "set_cached_availability C now tid q c = c_set C c now (availability_key tid) (CInt q) availability_ttl"

definition invalidate_availability :: "'c cache_api \<Rightarrow> uuid \<Rightarrow> 'c \<Rightarrow> 'c" where
  "invalidate_availability C tid c = c_delete C c (availability_key tid)"

section \<open>The tier listing\<close>

text \<open>The query string may carry \<open>event_id\<close>; an empty value is as good as none.\<close>

definition tier_queryset :: "string option \<Rightarrow> db \<Rightarrow> ticket_tier list" where
  "tier_queryset event_id d =
     (let qs = filter tier_is_active (tiers d)
      in case event_id of
           None \<Rightarrow> qs
         | Some e \<Rightarrow> if e = [] then qs else filter (\<lambda>t. tier_event t = e) qs)"

text \<open>
  \<open>Meta.ordering = ['sort_order', 'price']\<close>: the order in which a query returns tiers.
\<close>

definition tier_ordering :: "ticket_tier \<Rightarrow> ticket_tier \<Rightarrow> bool" where
  "tier_ordering s t \<longleftrightarrow>
     sort_order s < sort_order t \<or> sort_order s = sort_order t \<and> tier_price s \<le> tier_price t"

definition int_of_cval :: "cval option \<Rightarrow> int option" where
  "int_of_cval v = (case v of Some (CInt n) \<Rightarrow> Some n | _ \<Rightarrow> None)"

sublocale django_cache \<subseteq> avail: ttl_registry_drop
    "\<lambda>t tid q. set_cached_availability C t tid q"
    "\<lambda>c t tid. int_of_cval (get_cached_availability C c t tid)"
    "\<lambda>_ _. availability_ttl" "\<lambda>_. True"
    "\<lambda>tid. invalidate_availability C tid"
  by unfold_locales
    (auto simp: set_cached_availability_def get_cached_availability_def invalidate_availability_def
      availability_key_def availability_ttl_def int_of_cval_def get_simps get_set_live get_set_dead
      not_less)

end
