(* ===== verification/HoldRegistry.thy ===== *)
theory HoldRegistry
  imports Inventory
begin

text \<open>
  \<open>checkout/hold_registry.py\<close> and \<open>checkout/expiry_heap.py\<close>: the cache of hold metadata
  under \<open>hold:<token>\<close>, stored as the JSON text of a dictionary, and the sorted set that
  orders tokens by expiry. Scores are the instants themselves.
\<close>

section \<open>The registry\<close>

record hold_entry =
  he_tier_id :: uuid
  he_quantity :: int
  he_expires_at :: instant
  he_user_id :: uuid

definition to_dict :: "hold_entry \<Rightarrow> json" where
  "to_dict e = JObj [(''tier_id'', JStr (he_tier_id e)), (''quantity'', JInt (he_quantity e)),
     (''expires_at'', JStr (isoformat (he_expires_at e))), (''user_id'', JStr (he_user_id e))]"

text \<open>
  The fields are read in the code's order: a missing one is a \<open>KeyError\<close>, a text that is
  no instant a \<open>ValueError\<close>. Values of another type than \<open>to_dict\<close> writes are refused.
\<close>

definition from_dict :: "json \<Rightarrow> hold_entry result" where
  "from_dict data =
     (case py_item data ''tier_id'' of Inl e \<Rightarrow> Inl e | Inr jt \<Rightarrow>
      case py_item data ''quantity'' of Inl e \<Rightarrow> Inl e | Inr jq \<Rightarrow>
      case py_item data ''expires_at'' of Inl e \<Rightarrow> Inl e | Inr je \<Rightarrow>
      case (case je of JStr s \<Rightarrow> fromisoformat s | _ \<Rightarrow> Inl TypeError) of Inl e \<Rightarrow> Inl e | Inr t \<Rightarrow>
      case py_item data ''user_id'' of Inl e \<Rightarrow> Inl e | Inr ju \<Rightarrow>
      (case (jt, jq, ju) of
         (JStr tid, JInt q, JStr uid) \<Rightarrow>
           Inr \<lparr>he_tier_id = tid, he_quantity = q, he_expires_at = t, he_user_id = uid\<rparr>
       | _ \<Rightarrow> Inl TypeError))"

definition hold_key :: "uuid \<Rightarrow> string" where
  "hold_key tok = ''hold:'' @ tok"

definition hold_ttl_buffer :: int where
  "hold_ttl_buffer = 60"

definition hold_ttl :: "instant \<Rightarrow> hold_entry \<Rightarrow> int" where
  "hold_ttl now e = max 1 (int_total_seconds (he_expires_at e - now) + hold_ttl_buffer)"

definition register_hold :: "'c cache_api \<Rightarrow> instant \<Rightarrow> uuid \<Rightarrow> hold_entry \<Rightarrow> 'c \<Rightarrow> 'c" where
  "register_hold C now tok e c = c_set C c now (hold_key tok) (CJson (to_dict e)) (hold_ttl now e)"

definition get_hold :: "'c cache_api \<Rightarrow> 'c \<Rightarrow> instant \<Rightarrow> uuid \<Rightarrow> hold_entry option result" where
  "get_hold C c now tok =
     (case c_get C c now (hold_key tok) of
        None \<Rightarrow> Inr None
      | Some (CJson j) \<Rightarrow> map_sum id Some (from_dict j)
      | Some _ \<Rightarrow> Inl TypeError)"

definition release_hold :: "'c cache_api \<Rightarrow> uuid \<Rightarrow> 'c \<Rightarrow> 'c" where
  "release_hold C tok c = c_delete C c (hold_key tok)"

text \<open>The instants a registry entry can carry: 1970 up to the year 9999.\<close>

definition instant_ok :: "instant \<Rightarrow> bool" where
  "instant_ok t \<longleftrightarrow> 0 \<le> t \<and> t < 253370764800 * usec_per_sec"

lemma from_dict_to_dict: "instant_ok (he_expires_at e) \<Longrightarrow> from_dict (to_dict e) = Inr e"
  by (simp add: from_dict_def to_dict_def instant_ok_def fromisoformat_isoformat)

definition found_hold :: "hold_entry option result \<Rightarrow> hold_entry option" where
  "found_hold r = (case r of Inl _ \<Rightarrow> None | Inr h \<Rightarrow> h)"

lemma hold_ttl_pos [simp]: "0 < hold_ttl now e"
  by (simp add: hold_ttl_def)

sublocale django_cache \<subseteq> reg: ttl_registry_drop
    "\<lambda>t tok e. register_hold C t tok e" "\<lambda>c t tok. found_hold (get_hold C c t tok)"
    "\<lambda>t e. hold_ttl t e" "\<lambda>e. instant_ok (he_expires_at e)" "\<lambda>tok. release_hold C tok"
  by unfold_locales
    (auto simp: register_hold_def get_hold_def release_hold_def hold_key_def found_hold_def
      get_simps get_set_live get_set_dead from_dict_to_dict not_less)

lemma hold_ttl_outlives: "he_expires_at e < now + usecs (hold_ttl now e)"
  by (auto simp: hold_ttl_def int_total_seconds_def hold_ttl_buffer_def max_def)

context django_cache
begin

lemma get_registered_hold:
  "instant_ok (he_expires_at e) \<Longrightarrow> t \<le> t' \<Longrightarrow>
   get_hold C (register_hold C t tok e c) t' tok =
     (if t' < t + usecs (hold_ttl t e) then Inr (Some e) else Inr None)"
  by (simp add: get_hold_def register_hold_def get_set_live get_set_dead from_dict_to_dict)

lemma get_registered_other:
  "tok' \<noteq> tok \<Longrightarrow> get_hold C (register_hold C t tok e c) t' tok' = get_hold C c t' tok'"
  by (simp add: get_hold_def register_hold_def hold_key_def get_simps)

lemma get_released_hold: "get_hold C (release_hold C tok c) t' tok = Inr None"
  by (simp add: get_hold_def release_hold_def get_simps)

end

section \<open>The expiry set\<close>

definition hold_expiry_zset :: string where
  "hold_expiry_zset = ''hold_expiry_zset''"

definition push_hold_expiry :: "'c cache_api \<Rightarrow> uuid \<Rightarrow> instant \<Rightarrow> 'c \<Rightarrow> 'c" where
  "push_hold_expiry C tok expires_at c = z_add C c hold_expiry_zset tok expires_at"

text \<open>The two commands run in one pipeline, so nothing comes between them.\<close>

definition pop_expired_holds :: "'c cache_api \<Rightarrow> instant \<Rightarrow> 'c \<Rightarrow> uuid list \<times> 'c" where
  "pop_expired_holds C now c =
     (z_range C c hold_expiry_zset 0 now, z_remrange C c hold_expiry_zset 0 now)"

definition remove_from_expiry_set :: "'c cache_api \<Rightarrow> uuid \<Rightarrow> 'c \<Rightarrow> 'c" where
  "remove_from_expiry_set C tok c = z_rem C c hold_expiry_zset tok"

text \<open>
  The contract of a queue of deadlines: \<open>due\<close> is the deadline a token waits for. Popping
  hands out each due token once and keeps the others.
\<close>

locale deadline_queue =
  fixes due :: "'c \<Rightarrow> uuid \<Rightarrow> instant option"
    and push :: "uuid \<Rightarrow> instant \<Rightarrow> 'c \<Rightarrow> 'c"
    and pop :: "instant \<Rightarrow> 'c \<Rightarrow> uuid list \<times> 'c"
    and remove :: "uuid \<Rightarrow> 'c \<Rightarrow> 'c"
  assumes due_push: "due (push tok t c) tok' = (if tok' = tok then Some t else due c tok')"
    and mem_pop: "tok \<in> set (fst (pop now c)) \<longleftrightarrow> (\<exists>t. due c tok = Some t \<and> 0 \<le> t \<and> t \<le> now)"
    and distinct_pop: "distinct (fst (pop now c))"
    and due_pop: "due (snd (pop now c)) tok = (if tok \<in> set (fst (pop now c)) then None else due c tok)"
    and due_remove: "due (remove tok c) tok' = (if tok' = tok then None else due c tok')"
begin

lemma popped_once: "tok \<in> set (fst (pop now c)) \<Longrightarrow> tok \<notin> set (fst (pop now' (snd (pop now c))))"
  by (simp add: mem_pop due_pop)

lemma not_due_kept:
  "due c tok = Some t \<Longrightarrow> now < t \<Longrightarrow>
   tok \<notin> set (fst (pop now c)) \<and> due (snd (pop now c)) tok = Some t"
  by (simp add: mem_pop due_pop)

lemma pushed_popped: "0 \<le> t \<Longrightarrow> t \<le> now \<Longrightarrow> tok \<in> set (fst (pop now (push tok t c)))"
  by (simp add: mem_pop due_push)

lemma removed_not_popped: "tok \<notin> set (fst (pop now (remove tok c)))"
  by (simp add: mem_pop due_remove)

end

sublocale redis_zset \<subseteq> heap: deadline_queue
    "\<lambda>c tok. z_score C c hold_expiry_zset tok" "\<lambda>tok t. push_hold_expiry C tok t"
    "\<lambda>now. pop_expired_holds C now" "\<lambda>tok. remove_from_expiry_set C tok"
  by unfold_locales
    (auto simp: push_hold_expiry_def pop_expired_holds_def remove_from_expiry_set_def
      score_add score_remrange score_rem mem_range distinct_range)

section \<open>Properties\<close>

text \<open>
  C21: A hold entry survives the trip through its dictionary form and ISO text: reading
  back what \<open>to_dict\<close> wrote gives the entry, for any expiry from 1970 to the year 9999.
\<close>

theorem hold_entry_round_trip:
  assumes "0 \<le> he_expires_at e" and "he_expires_at e < 253370764800 * usec_per_sec"
  shows "from_dict (to_dict e) = Inr e"
  using assms by (intro from_dict_to_dict) (simp add: instant_ok_def)

theorem hold_entry_round_trip_witness:
  "from_dict (to_dict \<lparr>he_tier_id = ''t'', he_quantity = 2, he_expires_at = 1767225600000001,
      he_user_id = ''u''\<rparr>)
     = Inr \<lparr>he_tier_id = ''t'', he_quantity = 2, he_expires_at = 1767225600000001, he_user_id = ''u''\<rparr>"
  using hold_entry_round_trip [of "\<lparr>he_tier_id = ''t'', he_quantity = 2,
    he_expires_at = 1767225600000001, he_user_id = ''u''\<rparr>"] by simp

text \<open>
  C20: A registered hold is found with all its data until its lifetime ends, which is never
  before the hold itself expires; afterwards, or once released, it is not found; and other
  tokens are unaffected.
\<close>

theorem registered_hold_found:
  assumes "django_cache C" and "instant_ok (he_expires_at e)" and "t \<le> t'"
  shows "get_hold C (register_hold C t tok e c) t' tok =
      (if t' < t + usecs (hold_ttl t e) then Inr (Some e) else Inr None)
    \<and> he_expires_at e < t + usecs (hold_ttl t e)
    \<and> get_hold C (release_hold C tok c) t' tok = Inr None
    \<and> (tok' \<noteq> tok \<longrightarrow> get_hold C (register_hold C t tok e c) t' tok' = get_hold C c t' tok')"
proof -
  show ?thesis
    using django_cache.get_registered_hold [OF assms] django_cache.get_released_hold [OF assms(1)]
      django_cache.get_registered_other [OF assms(1)] hold_ttl_outlives [of e t]
    by simp
qed

theorem registered_hold_found_witness:
  "get_hold ttl_api (register_hold ttl_api 0 ''tok'' \<lparr>he_tier_id = ''t'', he_quantity = 2,
      he_expires_at = 900000000, he_user_id = ''u''\<rparr> ttl_empty) 900000000 ''tok''
     = Inr (Some \<lparr>he_tier_id = ''t'', he_quantity = 2, he_expires_at = 900000000, he_user_id = ''u''\<rparr>)"
  using registered_hold_found [of ttl_api "\<lparr>he_tier_id = ''t'', he_quantity = 2,
      he_expires_at = 900000000, he_user_id = ''u''\<rparr>" 0 900000000 "''tok''" ttl_empty]
  by (simp add: ttl.django_cache_axioms instant_ok_def hold_ttl_def int_total_seconds_def
      hold_ttl_buffer_def)

end
