(* ===== verification/Checkout.thy ===== *)
theory Checkout
  imports HoldRegistry
begin

text \<open>
  \<open>checkout/services.py\<close> and \<open>checkout/tasks.py\<close>: creating a hold under the lock of its
  tier, releasing it, and the sweep that expires holds. Each operation is a program over
  the database and Redis; here they run one after the other, \<open>HoldRaces\<close> interleaves them.
  Primary keys and tokens \<open>uuid4\<close> draws and clock readings are arguments, in the order in
  which the code takes them. Ids and tokens that callers pass are well-formed UUIDs; on any
  other text the look-ups raise Django's \<open>ValidationError\<close>.
\<close>

section \<open>Statements on the tables\<close>

definition get_tier :: "uuid \<Rightarrow> ('c world, ticket_tier) prog" where
  "get_tier tid = lift_result (\<lambda>w. rows_get (\<lambda>t. tier_id t = tid) (tiers (database w)))"

text \<open>The join \<open>tier__event=...\<close> looks up the tier of the hold.\<close>

definition hold_in_event :: "ticket_tier list \<Rightarrow> uuid \<Rightarrow> checkout_hold \<Rightarrow> bool" where
  "hold_in_event ts ev h \<longleftrightarrow> (\<exists>t\<in>set ts. tier_id t = hold_tier h \<and> tier_event t = ev)"

definition active_holds_count :: "uuid \<Rightarrow> uuid \<Rightarrow> db \<Rightarrow> nat" where
  "active_holds_count uid ev d =
     rows_count (\<lambda>h. hold_user h = uid \<and> hold_in_event (tiers d) ev h \<and> hold_status h = Active)
       (holds d)"

text \<open>
  \<open>CheckoutHold.objects.create\<close>: the primary key and the token are unique columns, the
  quantity a \<open>PositiveIntegerField\<close>.
\<close>

definition insert_hold :: "checkout_hold \<Rightarrow> ('c world, unit) prog" where
  "insert_hold h w =
     (let hs = holds (database w)
      in if hold_id h \<in> hold_id ` set hs \<or> hold_token h \<in> hold_token ` set hs
            \<or> \<not> pos_int_ok (hold_quantity h)
         then throw IntegrityError w
         else modify (with_db (\<lambda>d. d\<lparr>holds := holds d @ [h]\<rparr>)) w)"

definition set_held :: "uuid \<Rightarrow> int \<Rightarrow> db \<Rightarrow> db" where
  "set_held tid n d = d\<lparr>tiers := rows_update (\<lambda>t. tier_id t = tid) (\<lambda>t. t\<lparr>quantity_held := n\<rparr>) (tiers d)\<rparr>"

text \<open>\<open>TicketTier.objects.filter(id=...).update(quantity_held=n)\<close>\<close>

definition update_tier_held :: "uuid \<Rightarrow> int \<Rightarrow> ('c world, unit) prog" where
  "update_tier_held tid n w =
     (if (\<exists>t\<in>set (tiers (database w)). tier_id t = tid) \<and> \<not> pos_int_ok n
      then throw IntegrityError w
      else modify (with_db (set_held tid n)) w)"

definition set_hold_status :: "uuid \<Rightarrow> hold_status \<Rightarrow> db \<Rightarrow> db" where
  "set_hold_status hid s d = d\<lparr>holds := rows_update (\<lambda>h. hold_id h = hid) (\<lambda>h. h\<lparr>hold_status := s\<rparr>) (holds d)\<rparr>"

text \<open>\<open>hold.save(update_fields=['status'])\<close>\<close>

definition save_hold_status :: "uuid \<Rightarrow> hold_status \<Rightarrow> ('c world, unit) prog" where
  "save_hold_status hid s = modify (with_db (set_hold_status hid s))"

section \<open>The services\<close>

definition max_holds_per_user_per_event :: nat where
  "max_holds_per_user_per_event = 2"

definition hold_duration_minutes :: int where
  "hold_duration_minutes = 15"

definition hold_entry_of :: "checkout_hold \<Rightarrow> hold_entry" where
  "hold_entry_of h = \<lparr>he_tier_id = hold_tier h, he_quantity = hold_quantity h,
     he_expires_at = hold_expires_at h, he_user_id = hold_user h\<rparr>"

text \<open>
  \<open>t0\<close> is the clock when the expiry is computed, \<open>t1\<close> when the registry entry is written.
  \<open>new_hold\<close> is the row the constructor of \<open>CheckoutHold\<close> fills in.
\<close>

definition new_hold :: "instant \<Rightarrow> uuid \<Rightarrow> uuid \<Rightarrow> uuid \<Rightarrow> uuid \<Rightarrow> int \<Rightarrow> checkout_hold" where
  "new_hold t0 hid tok uid tid quantity =
     \<lparr>hold_id = hid, hold_token = tok, hold_user = uid, hold_tier = tid, hold_quantity = quantity,
      hold_status = Active, hold_expires_at = t0 + minutes hold_duration_minutes\<rparr>"

definition create_hold ::
  "'c cache_api \<Rightarrow> instant \<Rightarrow> instant \<Rightarrow> uuid \<Rightarrow> uuid \<Rightarrow> uuid \<Rightarrow> uuid \<Rightarrow> int
     \<Rightarrow> ('c world, checkout_hold) prog" where
  "create_hold C t0 t1 hid tok uid tid quantity =
     atomic
      (bindE (get_tier tid) (\<lambda>tier.
       bindE (lift_result (\<lambda>w. Inr (active_holds_count uid (tier_event tier) (database w)))) (\<lambda>active.
       if max_holds_per_user_per_event \<le> active then throw HoldAbuseError
       else if quantity_available tier < quantity
       then throw (InsufficientInventoryError (quantity_available tier) quantity)
       else
         (let hold = new_hold t0 hid tok uid tid quantity in
          bindE (insert_hold hold) (\<lambda>_.
          bindE (update_tier_held tid (quantity_held tier + quantity)) (\<lambda>_.
          bindE (modify (with_redis (register_hold C t1 tok (hold_entry_of hold)))) (\<lambda>_.
          bindE (modify (with_redis (push_hold_expiry C tok (hold_expires_at hold)))) (\<lambda>_.
          bindE (modify (with_redis (invalidate_availability C tid))) (\<lambda>_.
          ret hold)))))))))"

definition release_hold_by_token :: "'c cache_api \<Rightarrow> uuid \<Rightarrow> ('c world, unit) prog" where
  "release_hold_by_token C tok =
     atomic
      (\<lambda>w. case rows_get (\<lambda>h. hold_token h = tok \<and> hold_status h = Active) (holds (database w)) of
         Inl DoesNotExist \<Rightarrow> ret () w
       | Inl e \<Rightarrow> throw e w
       | Inr hold \<Rightarrow>
          bindE (save_hold_status (hold_id hold) Released) (\<lambda>_.
          bindE (get_tier (hold_tier hold)) (\<lambda>tier.
          bindE (update_tier_held (hold_tier hold) (quantity_held tier - hold_quantity hold)) (\<lambda>_.
          bindE (modify (with_redis (release_hold C tok))) (\<lambda>_.
          modify (with_redis (invalidate_availability C (hold_tier hold))))))) w)"

section \<open>The sweep\<close>

text \<open>
  \<open>select_related('tier')\<close> reads every hold together with its tier in one query: the loop
  works on these copies.
\<close>

definition join_tiers :: "ticket_tier list \<Rightarrow> checkout_hold list \<Rightarrow> (checkout_hold \<times> ticket_tier) list" where
  "join_tiers ts hs =
     List.map_filter (\<lambda>h. map_option (Pair h) (List.find (\<lambda>t. tier_id t = hold_tier h) ts)) hs"

fun sweep_loop :: "'c cache_api \<Rightarrow> (checkout_hold \<times> ticket_tier) list \<Rightarrow> int \<Rightarrow> ('c world, int) prog" where
  "sweep_loop C [] n = ret n"
| "sweep_loop C ((hold, tier) # rest) n =
     bindE (save_hold_status (hold_id hold) Expired) (\<lambda>_.
     bindE (update_tier_held (hold_tier hold) (quantity_held tier - hold_quantity hold)) (\<lambda>_.
     bindE (modify (with_redis (release_hold C (hold_token hold)))) (\<lambda>_.
     bindE (modify (with_redis (invalidate_availability C (hold_tier hold)))) (\<lambda>_.
     sweep_loop C rest (n + 1)))))"

definition due_holds :: "uuid list \<Rightarrow> db \<Rightarrow> checkout_hold list" where
  "due_holds toks d = filter (\<lambda>h. hold_token h \<in> set toks \<and> hold_status h = Active) (holds d)"

text \<open>The task runs in no transaction: every statement commits by itself.\<close>

definition sweep_expired_holds :: "'c cache_api \<Rightarrow> instant \<Rightarrow> ('c world, int) prog" where
  "sweep_expired_holds C now w =
     (case pop_expired_holds C now (redis w) of
        (toks, c) \<Rightarrow>
          let w1 = w\<lparr>redis := c\<rparr>
          in if toks = [] then ret 0 w1
             else sweep_loop C (join_tiers (tiers (database w1)) (due_holds toks (database w1))) 0 w1)"

end
