(* ===== verification/Refunds.thy ===== *)
theory Refunds
  imports Checkout AuditTrail
begin

text \<open>
  \<open>payments/refunds.py\<close> and \<open>payments/tasks.py\<close>: the refund of a payment with the guard
  against tickets already used, and the two Celery tasks. \<open>dec\<close> is how \<open>str\<close> prints a
  decimal; nothing depends on it.
\<close>

section \<open>The refund\<close>

definition get_payment :: "uuid \<Rightarrow> ('c world, payment) prog" where
  "get_payment pid = lift_result (\<lambda>w. rows_get (\<lambda>p. pay_id p = pid) (payments (database w)))"

definition checked_in_count :: "uuid \<Rightarrow> db \<Rightarrow> nat" where
  "checked_in_count pid d = rows_count (\<lambda>k. tk_payment k = Some pid \<and> tk_status k = CheckedIn) (tickets d)"

definition payment_tickets :: "uuid \<Rightarrow> db \<Rightarrow> ticket list" where
  "payment_tickets pid d = filter (\<lambda>k. tk_payment k = Some pid) (tickets d)"

definition save_payment_status :: "uuid \<Rightarrow> payment_status \<Rightarrow> ('c world, unit) prog" where
  "save_payment_status pid s =
     modify (with_db (\<lambda>d. d\<lparr>payments := rows_update (\<lambda>p. pay_id p = pid) (\<lambda>p. p\<lparr>pay_status := s\<rparr>) (payments d)\<rparr>))"

definition update_tier_sold :: "uuid \<Rightarrow> int \<Rightarrow> ('c world, unit) prog" where
  "update_tier_sold tid n w =
     (if (\<exists>t\<in>set (tiers (database w)). tier_id t = tid) \<and> \<not> pos_int_ok n
      then throw IntegrityError w
      else modify (with_db (\<lambda>d. d\<lparr>tiers :=
             rows_update (\<lambda>t. tier_id t = tid) (\<lambda>t. t\<lparr>quantity_sold := n\<rparr>) (tiers d)\<rparr>)) w)"

definition save_ticket_status :: "uuid \<Rightarrow> ticket_status \<Rightarrow> ('c world, unit) prog" where
  "save_ticket_status kid s =
     modify (with_db (\<lambda>d. d\<lparr>tickets := rows_update (\<lambda>k. tk_id k = kid) (\<lambda>k. k\<lparr>tk_status := s\<rparr>) (tickets d)\<rparr>))"

text \<open>
  The loop over the tickets of the payment. \<open>ticket.tier\<close> is fetched anew for every ticket,
  so the decrement starts from the row as the previous iteration left it.
\<close>

fun restore_tickets :: "ticket list \<Rightarrow> ('c world, unit) prog" where
  "restore_tickets [] = ret ()"
| "restore_tickets (ticket # rest) =
     bindE (get_tier (tk_tier ticket)) (\<lambda>tier.
     bindE (update_tier_sold (tk_tier ticket) (quantity_sold tier - 1)) (\<lambda>_.
     bindE (save_ticket_status (tk_id ticket) TicketCancelled) (\<lambda>_.
     restore_tickets rest)))"

text \<open>Everything the refund does to the rows, up to the audit log entry.\<close>

definition refund_rows :: "uuid \<Rightarrow> ('c world, payment) prog" where
  "refund_rows pid =
     bindE (get_payment pid) (\<lambda>payment.
     if pay_status payment \<noteq> Succeeded
     then throw (RefundError (payment_status_value (pay_status payment)))
     else
       bindE (lift_result (\<lambda>w. Inr (checked_in_count pid (database w)))) (\<lambda>n.
       if 0 < n then throw (PostCheckinRefundError n)
       else
         bindE (save_payment_status pid Refunded) (\<lambda>_.
         bindE (lift_result (\<lambda>w. Inr (payment_tickets pid (database w)))) (\<lambda>ks.
         bindE (restore_tickets ks) (\<lambda>_.
         ret payment)))))"

definition request_refund ::
  "(rat \<Rightarrow> string) \<Rightarrow> uuid \<Rightarrow> uuid \<Rightarrow> uuid \<Rightarrow> string \<Rightarrow> uuid option \<Rightarrow> ('c world, json) prog" where
  "request_refund dec u fresh pid reason actor =
     atomic
      (bindE (refund_rows pid) (\<lambda>payment.
       bindE (log_action u fresh ''payment.refunded'' actor (Some (''payment'', pid))
           (Some (JObj [(''reason'', JStr reason), (''amount'', JStr (dec (pay_amount payment)))])) None) (\<lambda>_.
       ret (JObj [(''status'', JStr ''refunded''), (''payment_id'', JStr pid),
         (''amount'', JStr (dec (pay_amount payment))), (''currency'', JStr (pay_currency payment))]))))"

section \<open>Tasks\<close>

definition send_ticket_confirmation_email :: "string \<Rightarrow> string \<Rightarrow> json" where
  "send_ticket_confirmation_email ticket_id recipient_email =
     JObj [(''status'', JStr ''sent''), (''ticket_id'', JStr ticket_id)]"

definition release_hold_on_payment_timeout :: "'c cache_api \<Rightarrow> instant \<Rightarrow> uuid \<Rightarrow> ('c world, json) prog" where
  "release_hold_on_payment_timeout C now tok w =
     (let answer = JObj [(''hold_token'', JStr tok)]
      in case rows_get (\<lambda>h. hold_token h = tok) (holds (database w)) of
           Inl DoesNotExist \<Rightarrow> ret answer w
         | Inl e \<Rightarrow> throw e w
         | Inr hold \<Rightarrow>
             if hold_status hold = Active \<and> is_expired now hold
             then bindE (release_hold_by_token C tok) (\<lambda>_. ret answer) w
             else ret answer w)"

section \<open>The loop\<close>

definition tickets_of_tier :: "uuid \<Rightarrow> ticket list \<Rightarrow> int" where
  "tickets_of_tier tid ks = int (length (filter (\<lambda>k. tk_tier k = tid) ks))"

lemma tickets_of_tier_simps [simp]:
  "tickets_of_tier tid [] = 0"
  "tickets_of_tier tid (k # ks) = tickets_of_tier tid ks + (if tk_tier k = tid then 1 else 0)"
  by (simp_all add: tickets_of_tier_def)

lemma tickets_of_tier_nonneg [simp]: "0 \<le> tickets_of_tier tid ks"
  by (simp add: tickets_of_tier_def)

definition give_back :: "ticket list \<Rightarrow> ticket_tier \<Rightarrow> ticket_tier" where
  "give_back ks t = t\<lparr>quantity_sold := quantity_sold t - tickets_of_tier (tier_id t) ks\<rparr>"

definition cancel_tickets :: "ticket list \<Rightarrow> ticket \<Rightarrow> ticket" where
  "cancel_tickets ks k = (if tk_id k \<in> tk_id ` set ks then k\<lparr>tk_status := TicketCancelled\<rparr> else k)"

lemma restore_tickets_ok:
  assumes "distinct (map tier_id (tiers (database w)))"
    and "\<And>k. k \<in> set ks \<Longrightarrow> tk_tier k \<in> tier_id ` set (tiers (database w))"
    and "\<And>t. t \<in> set (tiers (database w)) \<Longrightarrow>
      tickets_of_tier (tier_id t) ks \<le> quantity_sold t \<and> quantity_sold t \<le> 2147483647"
  shows "restore_tickets ks w = (Inr (), w\<lparr>database := (database w)\<lparr>
      tiers := map (give_back ks) (tiers (database w)),
      tickets := map (cancel_tickets ks) (tickets (database w))\<rparr>\<rparr>)"
  using assms
proof (induction ks arbitrary: w)
  case Nil
  have "give_back [] = (\<lambda>t. t)" "cancel_tickets [] = (\<lambda>k. k)"
    by (simp_all add: give_back_def cancel_tickets_def fun_eq_iff)
  then show ?case by (cases w) (simp add: ret_def)
next
  case (Cons k ks)
  let ?d = "database w"
  obtain t where t: "t \<in> set (tiers ?d)" "tier_id t = tk_tier k" using Cons.prems(2) [of k] by force
  then have get: "rows_get (\<lambda>t. tier_id t = tk_tier k) (tiers ?d) = Inr t"
    using Cons.prems(1) by (intro rows_get_key)
  have same: "u = t" if "u \<in> set (tiers ?d)" "tier_id u = tk_tier k" for u
    using Cons.prems(1) that t by (intro key_inj [of tier_id "tiers ?d"]) simp_all
  have sold: "1 \<le> quantity_sold t" "quantity_sold t \<le> 2147483647"
    using Cons.prems(3) [OF t(1)] t(2) tickets_of_tier_nonneg [of "tk_tier k" ks]
    by (simp_all del: tickets_of_tier_nonneg)
  let ?ts = "rows_update (\<lambda>u. tier_id u = tk_tier k) (\<lambda>u. u\<lparr>quantity_sold := quantity_sold t - 1\<rparr>) (tiers ?d)"
  let ?ks = "rows_update (\<lambda>j. tk_id j = tk_id k) (\<lambda>j. j\<lparr>tk_status := TicketCancelled\<rparr>) (tickets ?d)"
  let ?w = "w\<lparr>database := ?d\<lparr>tiers := ?ts, tickets := ?ks\<rparr>\<rparr>"
  have ts: "?ts = map (\<lambda>u. if tier_id u = tk_tier k then u\<lparr>quantity_sold := quantity_sold u - 1\<rparr> else u) (tiers ?d)"
    by (auto simp: rows_update_def dest: same)
  have step: "restore_tickets (k # ks) w = restore_tickets ks ?w"
    using t sold
    by (auto simp: prog_simps get_tier_def get update_tier_sold_def save_ticket_status_def with_db_def pos_int_ok_def)
  have "restore_tickets ks ?w = (Inr (), ?w\<lparr>database := (database ?w)\<lparr>
      tiers := map (give_back ks) (tiers (database ?w)),
      tickets := map (cancel_tickets ks) (tickets (database ?w))\<rparr>\<rparr>)"
  proof (rule Cons.IH)
    show "distinct (map tier_id (tiers (database ?w)))"
      using Cons.prems(1) by (simp add: map_rows_update)
    show "tk_tier j \<in> tier_id ` set (tiers (database ?w))" if "j \<in> set ks" for j
    proof -
      have "map tier_id ?ts = map tier_id (tiers ?d)" by (simp add: map_rows_update)
      from arg_cong [OF this, of set] have "tier_id ` set ?ts = tier_id ` set (tiers ?d)" by simp
      then show ?thesis using Cons.prems(2) [of j] that by simp
    qed
    show "tickets_of_tier (tier_id u) ks \<le> quantity_sold u \<and> quantity_sold u \<le> 2147483647"
      if "u \<in> set (tiers (database ?w))" for u
      using that Cons.prems(3) by (fastforce simp: ts)
  qed
  moreover have "map (give_back ks) ?ts = map (give_back (k # ks)) (tiers ?d)"
    by (simp add: ts give_back_def)
  moreover have "map (cancel_tickets ks) ?ks = map (cancel_tickets (k # ks)) (tickets ?d)"
    by (simp add: rows_update_def cancel_tickets_def)
  ultimately show ?case by (simp add: step del: restore_tickets.simps)
qed

lemma redis_restore_tickets: "redis (snd (restore_tickets ks w)) = redis w"
  by (induction ks arbitrary: w)
    (simp_all add: prog_simps get_tier_def update_tier_sold_def save_ticket_status_def split: sum.split)

lemma refund_rows_eq:
  "refund_rows pid w =
     (case rows_get (\<lambda>p. pay_id p = pid) (payments (database w)) of
        Inl e \<Rightarrow> (Inl e, w)
      | Inr payment \<Rightarrow>
          if pay_status payment \<noteq> Succeeded then (Inl (RefundError (payment_status_value (pay_status payment))), w)
          else if 0 < checked_in_count pid (database w)
          then (Inl (PostCheckinRefundError (checked_in_count pid (database w))), w)
          else bindE (restore_tickets (payment_tickets pid (database w))) (\<lambda>_. ret payment)
                 (w\<lparr>database := (database w)\<lparr>payments :=
                    rows_update (\<lambda>p. pay_id p = pid) (\<lambda>p. p\<lparr>pay_status := Refunded\<rparr>) (payments (database w))\<rparr>\<rparr>))"
  by (simp add: refund_rows_def prog_simps get_payment_def save_payment_status_def with_db_def
      payment_tickets_def split: sum.split)

lemma redis_refund_rows: "redis (snd (refund_rows pid w)) = redis w"
proof -
  have "redis (snd (bindE (restore_tickets ks) (\<lambda>_. ret p) v)) = redis v" for ks and p :: payment and v :: "'a world"
    using redis_restore_tickets [of ks v] by (auto simp: bindE_def ret_def split: prod.split sum.split)
  then show ?thesis by (simp add: refund_rows_eq split: sum.split)
qed

lemma request_refund_eq:
  "request_refund dec u fresh pid reason actor w =
     (Inl (case fst (refund_rows pid w) of Inl e \<Rightarrow> e | Inr _ \<Rightarrow> ValueError), w)"
proof -
  obtain r v where run: "refund_rows pid w = (r, v)" by fastforce
  then have "redis v = redis w" using redis_refund_rows [of pid w] by simp
  then show ?thesis
    using run by (cases w; cases v) (auto simp: request_refund_def atomic_def prog_simps split: sum.split)
qed

section \<open>Properties\<close>

text \<open>
  C26: No refund ever goes through, and nothing is changed by one. A payment that does not
  exist, a payment that did not succeed and a payment with a ticket that was checked in are
  refused, in this order, with the exception that says so; any other request either meets
  an error on its rows or raises \<open>ValueError\<close>, because the audit log entry at its end
  cannot be written, and the exception rolls the transaction back.
\<close>

theorem refund_never_succeeds:
  "request_refund dec u fresh pid reason actor w =
     (Inl (case rows_get (\<lambda>p. pay_id p = pid) (payments (database w)) of
             Inl e \<Rightarrow> e
           | Inr payment \<Rightarrow>
               if pay_status payment = Succeeded
               then (if checked_in_count pid (database w) = 0
                     then (case fst (refund_rows pid w) of Inl e \<Rightarrow> e | Inr _ \<Rightarrow> ValueError)
                     else PostCheckinRefundError (checked_in_count pid (database w)))
               else RefundError (payment_status_value (pay_status payment))), w)"
  by (simp add: request_refund_eq) (simp add: refund_rows_eq split: sum.split)

text \<open>
  C27: What the refund would commit. With the payment succeeded and none of its tickets
  checked in, the rows before the audit entry are: the payment is refunded, each of its
  tickets is cancelled, and each tier sells again exactly as many tickets as the payment
  has on it.
\<close>

theorem refund_rows_effect:
  assumes "distinct (map tier_id (tiers (database w)))"
    and "rows_get (\<lambda>p. pay_id p = pid) (payments (database w)) = Inr payment"
    and "pay_status payment = Succeeded" and "checked_in_count pid (database w) = 0"
    and "\<And>k. k \<in> set (payment_tickets pid (database w)) \<Longrightarrow> tk_tier k \<in> tier_id ` set (tiers (database w))"
    and "\<And>t. t \<in> set (tiers (database w)) \<Longrightarrow>
      tickets_of_tier (tier_id t) (payment_tickets pid (database w)) \<le> quantity_sold t
      \<and> quantity_sold t \<le> 2147483647"
  shows "refund_rows pid w = (Inr payment, w\<lparr>database := (database w)\<lparr>
      payments := map (\<lambda>p. if pay_id p = pid then p\<lparr>pay_status := Refunded\<rparr> else p) (payments (database w)),
      tiers := map (\<lambda>t. t\<lparr>quantity_sold := quantity_sold t
        - tickets_of_tier (tier_id t) (payment_tickets pid (database w))\<rparr>) (tiers (database w)),
      tickets := map (\<lambda>k. if tk_id k \<in> tk_id ` set (payment_tickets pid (database w))
        then k\<lparr>tk_status := TicketCancelled\<rparr> else k) (tickets (database w))\<rparr>\<rparr>)"
proof -
  let ?v = "w\<lparr>database := (database w)\<lparr>payments :=
      rows_update (\<lambda>p. pay_id p = pid) (\<lambda>p. p\<lparr>pay_status := Refunded\<rparr>) (payments (database w))\<rparr>\<rparr>"
  have "restore_tickets (payment_tickets pid (database w)) ?v = (Inr (), ?v\<lparr>database := (database ?v)\<lparr>
      tiers := map (give_back (payment_tickets pid (database w))) (tiers (database ?v)),
      tickets := map (cancel_tickets (payment_tickets pid (database w))) (tickets (database ?v))\<rparr>\<rparr>)"
    using assms(1,5,6) by (intro restore_tickets_ok) simp_all
  then show ?thesis
    using assms(2-4) by (simp add: refund_rows_eq ret_def rows_update_def give_back_def [abs_def] cancel_tickets_def [abs_def])
qed

definition sold_world :: "unit world" where
  "sold_world = \<lparr>database = \<lparr>users = [], companies = [], members = [], events = [],
     tiers = [\<lparr>tier_id = ''t'', tier_event = ''e'', tier_name = ''VIP'', tier_description = [], tier_price = 100,
       tier_currency = ''KES'', quantity_total = 10, quantity_held = 0, quantity_sold = 3,
       max_per_order = 10, sale_starts_at = None, sale_ends_at = None, tier_is_active = True,
       sort_order = 0\<rparr>],
     holds = [],
     payments = [\<lparr>pay_id = ''p'', pay_hold = None, pay_user = ''u'', pay_company = ''c'', pay_provider = Mpesa,
       provider_payment_id = ''x'', idempotency_key = ''i'', pay_amount = 200, pay_currency = ''KES'',
       pay_status = Succeeded\<rparr>],
     tickets = [\<lparr>tk_id = ''k1'', tk_hold = None, tk_payment = Some ''p'', tk_tier = ''t'', tk_attendee = ''u'',
       tk_status = Issued, qr_fingerprint = ''f1'', checked_in_at = None\<rparr>,
       \<lparr>tk_id = ''k2'', tk_hold = None, tk_payment = Some ''p'', tk_tier = ''t'', tk_attendee = ''u'',
       tk_status = Issued, qr_fingerprint = ''f2'', checked_in_at = None\<rparr>],
     audit_logs = []\<rparr>, redis = ()\<rparr>"

theorem refund_rows_effect_witness:
  "\<exists>p. fst (refund_rows ''p'' sold_world) = Inr p
    \<and> map quantity_sold (tiers (database (snd (refund_rows ''p'' sold_world)))) = [1]
    \<and> map tk_status (tickets (database (snd (refund_rows ''p'' sold_world)))) = [TicketCancelled, TicketCancelled]"
proof -
  have "\<exists>p. rows_get (\<lambda>p. pay_id p = ''p'') (payments (database sold_world)) = Inr p \<and> pay_status p = Succeeded"
    by (simp add: rows_get_def sold_world_def)
  then obtain p where p: "rows_get (\<lambda>p. pay_id p = ''p'') (payments (database sold_world)) = Inr p"
    "pay_status p = Succeeded" by blast
  have "refund_rows ''p'' sold_world = (Inr p, sold_world\<lparr>database := (database sold_world)\<lparr>
      payments := map (\<lambda>q. if pay_id q = ''p'' then q\<lparr>pay_status := Refunded\<rparr> else q) (payments (database sold_world)),
      tiers := map (\<lambda>t. t\<lparr>quantity_sold := quantity_sold t
        - tickets_of_tier (tier_id t) (payment_tickets ''p'' (database sold_world))\<rparr>) (tiers (database sold_world)),
      tickets := map (\<lambda>k. if tk_id k \<in> tk_id ` set (payment_tickets ''p'' (database sold_world))
        then k\<lparr>tk_status := TicketCancelled\<rparr> else k) (tickets (database sold_world))\<rparr>\<rparr>)"
    by (rule refund_rows_effect [OF _ p])
      (auto simp: sold_world_def checked_in_count_def rows_count_def payment_tickets_def)
  then show ?thesis by (simp add: sold_world_def payment_tickets_def)
qed

text \<open>
  The payment timeout only ever releases a hold that is active and past its expiry; for
  any other token it changes nothing, and it answers with the token in both cases.
\<close>

theorem timeout_releases_expired_only:
  "release_hold_on_payment_timeout C now tok w =
     (case rows_get (\<lambda>h. hold_token h = tok) (holds (database w)) of
        Inl e \<Rightarrow> (if e = DoesNotExist then Inr (JObj [(''hold_token'', JStr tok)]) else Inl e, w)
      | Inr h \<Rightarrow>
          if hold_status h = Active \<and> hold_expires_at h < now
          then (map_sum id (\<lambda>_. JObj [(''hold_token'', JStr tok)]) (fst (release_hold_by_token C tok w)),
                snd (release_hold_by_token C tok w))
          else (Inr (JObj [(''hold_token'', JStr tok)]), w))"
  by (auto simp: release_hold_on_payment_timeout_def prog_simps is_expired_def
      split: sum.split exn.split prod.split)

end
