(* ===== verification/Accounts.thy ===== *)
theory Accounts
  imports Models
begin

text \<open>
  \<open>accounts/models.py\<close> and \<open>accounts/serializers.py\<close>: creating users, registration, the
  profile and the claims of a token. Django's email normalisation and password hashing, and
  the field validation of the REST framework, are parameters (\<open>auth_env\<close>).
\<close>

section \<open>Parameters\<close>

text \<open>
  \<open>valid_field\<close> stands for the validators of a serializer field (format, length, password
  strength, uniqueness as far as the framework checks it).
\<close>

record auth_env =
  normalize_email :: "string \<Rightarrow> string"
  hash_password :: "string option \<Rightarrow> string"
  valid_field :: "string \<Rightarrow> string \<Rightarrow> bool"

section \<open>Users\<close>

definition full_name :: "user \<Rightarrow> string" where
  "full_name u = py_strip (u_first_name u @ '' '' @ u_last_name u)"

definition is_organizer :: "user \<Rightarrow> bool" where
  "is_organizer u \<longleftrightarrow> u_role u = Organizer"

definition is_event_staff :: "user \<Rightarrow> bool" where
  "is_event_staff u \<longleftrightarrow> u_role u \<in> {Organizer, Staff}"

text \<open>The keyword arguments \<open>create_user\<close> passes on to the model; \<open>None\<close> for one not given.\<close>

record user_kwargs =
  k_first_name :: "string option"
  k_last_name :: "string option"
  k_role :: "user_role option"
  k_is_staff :: "bool option"
  k_is_superuser :: "bool option"

definition no_kwargs :: user_kwargs where
  "no_kwargs = \<lparr>k_first_name = None, k_last_name = None, k_role = None, k_is_staff = None,
     k_is_superuser = None\<rparr>"

definition given :: "'a option \<Rightarrow> 'a \<Rightarrow> 'a" where
  "given v0 dflt = (case v0 of None \<Rightarrow> dflt | Some v \<Rightarrow> v)"

text \<open>\<open>self.model(email=email, ...)\<close> with the defaults of the fields.\<close>

definition new_user :: "uuid \<Rightarrow> string \<Rightarrow> user_kwargs \<Rightarrow> user" where
  "new_user uid email kw =
     \<lparr>u_id = uid, u_email = email, u_first_name = given (k_first_name kw) [],
      u_last_name = given (k_last_name kw) [], u_role = given (k_role kw) Attendee,
      u_is_active = True, u_is_staff = given (k_is_staff kw) False,
      u_is_superuser = given (k_is_superuser kw) False, u_email_verified = False, u_password = []\<rparr>"

text \<open>The primary key and the email are unique columns.\<close>

definition insert_user :: "user \<Rightarrow> (db, unit) prog" where
  "insert_user u d =
     (if u_id u \<in> u_id ` set (users d) \<or> u_email u \<in> u_email ` set (users d)
      then throw IntegrityError d
      else modify (\<lambda>d. d\<lparr>users := users d @ [u]\<rparr>) d)"

definition create_user :: "auth_env \<Rightarrow> uuid \<Rightarrow> string \<Rightarrow> string option \<Rightarrow> user_kwargs \<Rightarrow> (db, user) prog" where
  "create_user E uid email password kw =
     (if email = [] then throw ValueError
      else
        (let user = (new_user uid (normalize_email E email) kw)\<lparr>u_password := hash_password E password\<rparr>
         in bindE (insert_user user) (\<lambda>_. ret user)))"

definition setdefault :: "'a option \<Rightarrow> 'a \<Rightarrow> 'a option" where
  "setdefault v0 dflt = Some (given v0 dflt)"

definition create_superuser :: "auth_env \<Rightarrow> uuid \<Rightarrow> string \<Rightarrow> string option \<Rightarrow> user_kwargs \<Rightarrow> (db, user) prog" where
  "create_superuser E uid email password kw =
     create_user E uid email password
       (kw\<lparr>k_is_staff := setdefault (k_is_staff kw) True,
          k_is_superuser := setdefault (k_is_superuser kw) True,
          k_role := setdefault (k_role kw) Organizer\<rparr>)"

section \<open>Registration\<close>

text \<open>
  The request carries any fields, each with a text; the serializer reads the ones it lists.
  Every one of them is a \<open>CharField\<close>, which trims the white space around its text before its
  validators see it. \<open>first_name\<close> and \<open>last_name\<close> may be left out, being blank by default.
\<close>

type_synonym form = "(string \<times> string) list"

definition char_fields :: "string list \<Rightarrow> form \<Rightarrow> form" where
  "char_fields names data = map (\<lambda>kv. (fst kv, py_strip (snd kv))) (filter (\<lambda>kv. fst kv \<in> set names) data)"

definition registration_fields :: "string list" where
  "registration_fields = [''email'', ''first_name'', ''last_name'', ''password'', ''password_confirm'']"

definition registration_required :: "string list" where
  "registration_required = [''email'', ''password'', ''password_confirm'']"

definition registration_attrs :: "auth_env \<Rightarrow> form \<Rightarrow> form result" where
  "registration_attrs E data =
     (let attrs = char_fields registration_fields data
      in if list_all (\<lambda>f. map_of attrs f \<noteq> None) registration_required
            \<and> list_all (\<lambda>kv. valid_field E (fst kv) (snd kv)) attrs
         then Inr attrs else Inl ValidationError)"

text \<open>\<open>validate\<close>: the confirmation is compared and dropped.\<close>

definition registration_validate :: "form \<Rightarrow> form result" where
  "registration_validate attrs =
     (case (map_of attrs ''password'', map_of attrs ''password_confirm'') of
        (Some p, Some c) \<Rightarrow>
          if p \<noteq> c then Inl ValidationError
          else Inr (filter (\<lambda>kv. fst kv \<noteq> ''password_confirm'') attrs)
      | _ \<Rightarrow> Inl KeyError)"

definition registration_create :: "auth_env \<Rightarrow> uuid \<Rightarrow> form \<Rightarrow> (db, user) prog" where
  "registration_create E uid validated =
     create_user E uid (given (map_of validated ''email'') []) (map_of validated ''password'')
       (no_kwargs\<lparr>k_first_name := map_of validated ''first_name'', k_last_name := map_of validated ''last_name''\<rparr>)"

text \<open>A \<open>POST\<close> to the registration view, which anyone may send.\<close>

definition register :: "auth_env \<Rightarrow> uuid \<Rightarrow> form \<Rightarrow> (db, user) prog" where
  "register E uid data =
     bindE (lift_result (\<lambda>_. registration_attrs E data)) (\<lambda>attrs.
     bindE (lift_result (\<lambda>_. registration_validate attrs)) (\<lambda>validated.
     registration_create E uid validated))"

section \<open>Profile and token\<close>

definition profile_writable :: "string list" where
  "profile_writable = [''first_name'', ''last_name'']"

text \<open>An update of one's own profile: fields that are read-only, or not listed, are ignored.\<close>

definition update_profile :: "auth_env \<Rightarrow> uuid \<Rightarrow> form \<Rightarrow> (db, unit) prog" where
  "update_profile E uid data d =
     (let attrs = char_fields profile_writable data
      in if list_all (\<lambda>kv. valid_field E (fst kv) (snd kv)) attrs
         then modify (\<lambda>d. d\<lparr>users := rows_update (\<lambda>u. u_id u = uid)
                (\<lambda>u. u\<lparr>u_first_name := given (map_of attrs ''first_name'') (u_first_name u),
                      u_last_name := given (map_of attrs ''last_name'') (u_last_name u)\<rparr>) (users d)\<rparr>) d
         else throw ValidationError d)"

text \<open>The claims \<open>get_token\<close> adds to those of the framework.\<close>

definition token_claims :: "(string \<times> string) list \<Rightarrow> user \<Rightarrow> (string \<times> string) list" where
  "token_claims base user =
     (''role'', user_role_value (u_role user)) # (''email'', u_email user) # base"

section \<open>Properties\<close>

lemma create_user_eq:
  "create_user E uid email password kw d =
     (let user = (new_user uid (normalize_email E email) kw)\<lparr>u_password := hash_password E password\<rparr>
      in if email = [] then (Inl ValueError, d)
         else if uid \<in> u_id ` set (users d) \<or> normalize_email E email \<in> u_email ` set (users d)
         then (Inl IntegrityError, d)
         else (Inr user, d\<lparr>users := users d @ [user]\<rparr>))"
  by (simp add: create_user_def insert_user_def prog_simps Let_def new_user_def)

lemma map_of_char_fields:
  "map_of (char_fields names data) k = (if k \<in> set names then map_option py_strip (map_of data k) else None)"
  by (induction data) (auto simp: char_fields_def)

lemma map_of_drop_key:
  "map_of (filter (\<lambda>kv. fst kv \<noteq> k') attrs) k = (if k = k' then None else map_of attrs k)"
  by (induction attrs) auto

lemma char_fields_listed:
  "char_fields names (filter (\<lambda>kv. fst kv \<in> set names) data) = char_fields names data"
  by (simp add: char_fields_def)

text \<open>The user a form makes, its texts trimmed.\<close>

definition registered_user :: "auth_env \<Rightarrow> uuid \<Rightarrow> form \<Rightarrow> string \<Rightarrow> user" where
  "registered_user E uid data password =
     (let text_of = (\<lambda>k. given (map_option py_strip (map_of data k)) [])
      in \<lparr>u_id = uid, u_email = normalize_email E (text_of ''email''), u_first_name = text_of ''first_name'',
          u_last_name = text_of ''last_name'', u_role = Attendee, u_is_active = True, u_is_staff = False,
          u_is_superuser = False, u_email_verified = False, u_password = hash_password E (Some (py_strip password))\<rparr>)"

lemma register_cases:
  assumes "register E uid data d = (r, d')"
  obtains (Error) e where "r = Inl e" and "d' = d"
    | (Created) p c where "r = Inr (registered_user E uid data p)"
      and "d' = d\<lparr>users := users d @ [registered_user E uid data p]\<rparr>"
      and "map_of data ''password'' = Some p" and "map_of data ''password_confirm'' = Some c" and "py_strip p = py_strip c"
      and "uid \<notin> u_id ` set (users d)" and "u_email (registered_user E uid data p) \<notin> u_email ` set (users d)"
proof (cases "registration_attrs E data")
  case (Inl e)
  then show ?thesis using assms by (intro Error [of e]) (simp_all add: register_def prog_simps)
next
  case (Inr attrs)
  then have attrs: "attrs = char_fields registration_fields data"
    by (auto simp: registration_attrs_def Let_def split: if_splits)
  show ?thesis
  proof (cases "registration_validate attrs")
    case (Inl e)
    with Inr show ?thesis using assms by (intro Error [of e]) (simp_all add: register_def prog_simps)
  next
    case val: (Inr validated)
    obtain p c where pc: "map_of data ''password'' = Some p" "map_of data ''password_confirm'' = Some c"
      "py_strip p = py_strip c" and validated: "validated = filter (\<lambda>kv. fst kv \<noteq> ''password_confirm'') attrs"
      using val by (auto simp: registration_validate_def attrs map_of_char_fields registration_fields_def
          split: option.splits if_splits)
    let ?u = "registered_user E uid data p"
    have given: "map_of validated k = (if k \<in> {''email'', ''first_name'', ''last_name'', ''password''}
        then map_option py_strip (map_of data k) else None)" for k
      by (simp add: validated map_of_drop_key attrs map_of_char_fields registration_fields_def)
    have "(r, d') = create_user E uid (given (map_of validated ''email'') []) (map_of validated ''password'')
       (no_kwargs\<lparr>k_first_name := map_of validated ''first_name'', k_last_name := map_of validated ''last_name''\<rparr>) d"
      using assms Inr val by (simp add: register_def prog_simps registration_create_def)
    then have "(r, d') = (Inl ValueError, d) \<or> (r, d') = (Inl IntegrityError, d)
        \<or> uid \<notin> u_id ` set (users d) \<and> u_email ?u \<notin> u_email ` set (users d)
          \<and> (r, d') = (Inr ?u, d\<lparr>users := users d @ [?u]\<rparr>)"
      using pc(1) by (simp add: create_user_eq given Let_def registered_user_def new_user_def no_kwargs_def given_def
          split: if_splits)
    then show ?thesis using Error Created [OF _ _ pc] by auto
  qed
qed

lemma registered_user_rights [simp]:
  "u_role (registered_user E uid data p) = Attendee" "\<not> u_is_staff (registered_user E uid data p)"
  "\<not> u_is_superuser (registered_user E uid data p)" "\<not> u_email_verified (registered_user E uid data p)"
  by (simp_all add: registered_user_def Let_def)

text \<open>
  C37: Registration cannot be used to gain rights. Fields a request carries beside the five
  of the form make no difference. It either leaves the users as they are or adds exactly one,
  with the given id and the trimmed texts of the form, whose role is attendee, who is neither
  staff nor superuser nor verified, whose email no other user has, and whose two passwords
  agreed once the white space around them was dropped; the hash is that of the trimmed one.
\<close>

theorem registration_no_escalation:
  "register E uid data d = register E uid (filter (\<lambda>kv. fst kv \<in> set registration_fields) data) d
   \<and> ((\<exists>e. register E uid data d = (Inl e, d))
     \<or> (\<exists>u p c. register E uid data d = (Inr u, d\<lparr>users := users d @ [u]\<rparr>)
          \<and> map_of data ''password'' = Some p \<and> map_of data ''password_confirm'' = Some c \<and> py_strip p = py_strip c
          \<and> u = \<lparr>u_id = uid, u_email = normalize_email E (given (map_option py_strip (map_of data ''email'')) []),
                 u_first_name = given (map_option py_strip (map_of data ''first_name'')) [],
                 u_last_name = given (map_option py_strip (map_of data ''last_name'')) [],
                 u_role = Attendee, u_is_active = True, u_is_staff = False, u_is_superuser = False,
                 u_email_verified = False, u_password = hash_password E (Some (py_strip p))\<rparr>
          \<and> uid \<notin> u_id ` set (users d) \<and> u_email u \<notin> u_email ` set (users d)))"
proof
  show "register E uid data d = register E uid (filter (\<lambda>kv. fst kv \<in> set registration_fields) data) d"
    unfolding register_def registration_attrs_def char_fields_listed ..
  obtain r d' where run: "register E uid data d = (r, d')" by fastforce
  then show "(\<exists>e. register E uid data d = (Inl e, d))
     \<or> (\<exists>u p c. register E uid data d = (Inr u, d\<lparr>users := users d @ [u]\<rparr>)
          \<and> map_of data ''password'' = Some p \<and> map_of data ''password_confirm'' = Some c \<and> py_strip p = py_strip c
          \<and> u = \<lparr>u_id = uid, u_email = normalize_email E (given (map_option py_strip (map_of data ''email'')) []),
                 u_first_name = given (map_option py_strip (map_of data ''first_name'')) [],
                 u_last_name = given (map_option py_strip (map_of data ''last_name'')) [],
                 u_role = Attendee, u_is_active = True, u_is_staff = False, u_is_superuser = False,
                 u_email_verified = False, u_password = hash_password E (Some (py_strip p))\<rparr>
          \<and> uid \<notin> u_id ` set (users d) \<and> u_email u \<notin> u_email ` set (users d))"
  proof (cases rule: register_cases)
    case (Created p c)
    then show ?thesis
      by (intro disjI2 exI [of _ "registered_user E uid data p"] exI [of _ p] exI [of _ c])
        (simp add: run registered_user_def Let_def)
  qed (simp add: run)
qed

text \<open>
  A profile update never changes anything but the two names of the user who sends it:
  no role, email, flag or password, and no other user.
\<close>

theorem profile_update_confined:
  "list_all2 (\<lambda>u u'. u' = u\<lparr>u_first_name := u_first_name u', u_last_name := u_last_name u'\<rparr>
       \<and> (u_id u = uid \<or> u' = u))
     (users d) (users (snd (update_profile E uid data d)))
   \<and> snd (update_profile E uid data d) = d\<lparr>users := users (snd (update_profile E uid data d))\<rparr>"
  by (auto simp: update_profile_def prog_simps Let_def rows_update_def list_all2_conv_all_nth)

text \<open>
  A superuser created with no further arguments is an active organizer with both flags;
  an argument that is given overrides the default, so such a call can also create a
  superuser in name only.
\<close>

theorem create_superuser_defaults:
  "fst (create_superuser E uid email password kw d) =
     (if email = [] then Inl ValueError
      else if uid \<in> u_id ` set (users d) \<or> normalize_email E email \<in> u_email ` set (users d)
      then Inl IntegrityError
      else Inr \<lparr>u_id = uid, u_email = normalize_email E email, u_first_name = given (k_first_name kw) [],
             u_last_name = given (k_last_name kw) [], u_role = given (k_role kw) Organizer,
             u_is_active = True, u_is_staff = given (k_is_staff kw) True,
             u_is_superuser = given (k_is_superuser kw) True, u_email_verified = False,
             u_password = hash_password E password\<rparr>)"
  by (simp add: create_superuser_def create_user_eq Let_def new_user_def setdefault_def given_def)

end
