(* ===== verification/Tenancy.thy ===== *)
theory Tenancy
  imports Accounts Inventory
begin

text \<open>
  \<open>core/permissions.py\<close>, the company views and serializers, the event views and the
  permissions of the tier view: who may see and change what. The request cycle of the REST
  framework is modelled as documented: the permissions of the view are checked first, then
  a detail route looks the object up in the view's queryset, then the object permissions
  are checked, then the serializer acts.
\<close>

section \<open>Permissions\<close>

datatype permission = AllowAny | IsAuthenticated | IsOrganizer | IsEventStaff | IsCompanyMember

text \<open>A request without a user is anonymous; a user object is always authenticated.\<close>

fun has_permission :: "permission \<Rightarrow> user option \<Rightarrow> bool" where
  "has_permission AllowAny u = True"
| "has_permission IsAuthenticated u = (u \<noteq> None)"
| "has_permission IsOrganizer u =
     (case u of None \<Rightarrow> False | Some u \<Rightarrow> user_role_value (u_role u) = ''organizer'')"
| "has_permission IsEventStaff u = (case u of None \<Rightarrow> False | Some u \<Rightarrow> is_event_staff u)"
| "has_permission IsCompanyMember u = True"

text \<open>
  The objects views hand to object permissions, and their attribute \<open>company\<close>, which a
  company itself does not have.
\<close>

datatype tenant_object = CompanyObject company | EventObject event

fun company_attr :: "tenant_object \<Rightarrow> uuid option" where
  "company_attr (CompanyObject c) = None"
| "company_attr (EventObject e) = Some (ev_company e)"

fun has_object_permission :: "permission \<Rightarrow> db \<Rightarrow> user option \<Rightarrow> tenant_object \<Rightarrow> bool" where
  "has_object_permission IsCompanyMember d u obj =
     (case company_attr obj of
        None \<Rightarrow> False
      | Some cid \<Rightarrow>
          (case u of
             None \<Rightarrow> False
           | Some u \<Rightarrow> \<exists>m\<in>set (members d). mem_company m = cid \<and> mem_user m = u_id u))"
| "has_object_permission p d u obj = True"

section \<open>The company view\<close>

datatype action = ListObjects | Retrieve | Create | Update | PartialUpdate | Destroy

text \<open>\<open>http_method_names\<close> leaves out PUT and DELETE.\<close>

definition company_method_allowed :: "action \<Rightarrow> bool" where
  "company_method_allowed a \<longleftrightarrow> a \<notin> {Update, Destroy}"

definition company_permissions :: "action \<Rightarrow> permission list" where
  "company_permissions a =
     (if a = Create then [IsAuthenticated, IsOrganizer]
      else if a \<in> {Update, PartialUpdate, Destroy} then [IsAuthenticated, IsCompanyMember]
      else [IsAuthenticated])"

text \<open>The join over the memberships: a company once per membership of the user in it.\<close>

definition company_queryset :: "user \<Rightarrow> db \<Rightarrow> company list" where
  "company_queryset u d =
     concat (map (\<lambda>c. map (\<lambda>_. c)
         (filter (\<lambda>m. mem_company m = co_id c \<and> mem_user m = u_id u) (members d)))
       (filter co_is_active (companies d)))"

text \<open>Responses, and the errors that the framework turns into a server error.\<close>

datatype response =
    Unauthorized | Forbidden | NotFound | MethodNotAllowed | BadRequest | Ok | Created | NoContent | ServerError

definition request_denied :: "permission list \<Rightarrow> user option \<Rightarrow> response option" where
  "request_denied ps u =
     (if list_all (\<lambda>p. has_permission p u) ps then None
      else if u = None then Some Unauthorized else Some Forbidden)"

text \<open>
  The writable fields of \<open>CompanySerializer\<close>, as the framework has parsed and accepted them:
  texts without the white space around them and within the options of their columns.
\<close>

record company_form =
  cf_name :: "string option"
  cf_timezone :: "string option"
  cf_logo_url :: "string option"
  cf_primary_color :: "string option"

definition apply_company_form :: "company_form \<Rightarrow> company \<Rightarrow> company" where
  "apply_company_form f c =
     c\<lparr>co_name := given (cf_name f) (co_name c), co_timezone := given (cf_timezone f) (co_timezone c),
       co_logo_url := given (cf_logo_url f) (co_logo_url c),
       co_primary_color := given (cf_primary_color f) (co_primary_color c)\<rparr>"

definition company_patch :: "user option \<Rightarrow> uuid \<Rightarrow> company_form \<Rightarrow> db \<Rightarrow> response \<times> db" where
  "company_patch u pk f d =
     (case request_denied (company_permissions PartialUpdate) u of
        Some r \<Rightarrow> (r, d)
      | None \<Rightarrow>
          (case u of None \<Rightarrow> (Unauthorized, d) | Some v \<Rightarrow>
          (case filter (\<lambda>c. co_id c = pk) (company_queryset v d) of
             [] \<Rightarrow> (NotFound, d)
           | [c] \<Rightarrow>
               if list_all (\<lambda>p. has_object_permission p d u (CompanyObject c)) (company_permissions PartialUpdate)
               then (Ok, d\<lparr>companies := rows_update (\<lambda>c. co_id c = pk) (apply_company_form f) (companies d)\<rparr>)
               else (Forbidden, d)
           | _ \<Rightarrow> (ServerError, d))))"

text \<open>
  \<open>Company.save\<close> fills an empty slug from the name; \<open>slugify\<close> is Django's, a parameter. The
  slug and the primary key are unique columns.
\<close>

definition company_save :: "(string \<Rightarrow> string) \<Rightarrow> company \<Rightarrow> db \<Rightarrow> company result \<times> db" where
  "company_save slugify c d =
     (let c = (if co_slug c = [] then c\<lparr>co_slug := slugify (co_name c)\<rparr> else c)
      in if co_id c \<in> co_id ` set (companies d) \<or> co_slug c \<in> co_slug ` set (companies d)
         then (Inl IntegrityError, d)
         else (Inr c, d\<lparr>companies := companies d @ [c]\<rparr>))"

text \<open>\<open>CompanyCreateSerializer.create\<close>: the owner is the user of the request.\<close>

definition company_create_row :: "uuid \<Rightarrow> user \<Rightarrow> string \<Rightarrow> company_form \<Rightarrow> company" where
  "company_create_row cid owner name f =
     \<lparr>co_id = cid, co_name = name, co_slug = [], co_owner = u_id owner, co_plan = Free,
      co_timezone = given (cf_timezone f) ''Africa/Nairobi'', co_logo_url = given (cf_logo_url f) [],
      co_primary_color = given (cf_primary_color f) ''#000000'', co_is_active = True\<rparr>"

definition company_create ::
  "(string \<Rightarrow> string) \<Rightarrow> user option \<Rightarrow> uuid \<Rightarrow> string \<Rightarrow> company_form \<Rightarrow> db \<Rightarrow> response \<times> db" where
  "company_create slugify u cid name f d =
     (case request_denied (company_permissions Create) u of
        Some r \<Rightarrow> (r, d)
      | None \<Rightarrow>
          (case u of None \<Rightarrow> (Unauthorized, d) | Some v \<Rightarrow>
          (case company_save slugify (company_create_row cid v name f) d of
             (Inl e, d') \<Rightarrow> (ServerError, d')
           | (Inr c, d') \<Rightarrow> (Created, d'))))"

section \<open>The event views\<close>

definition public_event_queryset :: "db \<Rightarrow> event list" where
  "public_event_queryset d = filter (\<lambda>e. ev_status e = Published) (events d)"

text \<open>The join \<open>company__owner\<close> looks up the company of the event.\<close>

definition organizer_event_queryset :: "user \<Rightarrow> db \<Rightarrow> event list" where
  "organizer_event_queryset u d =
     filter (\<lambda>e. \<exists>c\<in>set (companies d). co_id c = ev_company e \<and> co_owner c = u_id u) (events d)"

definition organizer_event_permissions :: "permission list" where
  "organizer_event_permissions = [IsAuthenticated, IsOrganizer]"

text \<open>Saving an event whose company column is null violates its constraint.\<close>

definition event_insert :: "uuid option \<Rightarrow> event \<Rightarrow> db \<Rightarrow> event result \<times> db" where
  "event_insert company e d =
     (case company of
        None \<Rightarrow> (Inl IntegrityError, d)
      | Some cid \<Rightarrow> (let e = e\<lparr>ev_company := cid\<rparr> in (Inr e, d\<lparr>events := events d @ [e]\<rparr>)))"

text \<open>
  \<open>perform_create\<close>: the company of the request is read and not used; the field is read-only
  in the serializer, so \<open>serializer.save()\<close> inserts the row without one.
\<close>

definition event_perform_create :: "uuid option \<Rightarrow> event \<Rightarrow> db \<Rightarrow> event result \<times> db" where
  "event_perform_create company_id e d = event_insert None e d"

definition event_create :: "user option \<Rightarrow> uuid option \<Rightarrow> event \<Rightarrow> db \<Rightarrow> response \<times> db" where
  "event_create u company_id e d =
     (case request_denied organizer_event_permissions u of
        Some r \<Rightarrow> (r, d)
      | None \<Rightarrow>
          (case event_perform_create company_id e d of
             (Inl _, d') \<Rightarrow> (ServerError, d')
           | (Inr _, d') \<Rightarrow> (Created, d')))"

section \<open>The tier view\<close>

definition tier_permissions :: "action \<Rightarrow> permission list" where
  "tier_permissions a =
     (if a \<in> {Create, Update, PartialUpdate, Destroy} then [IsAuthenticated, IsOrganizer] else [AllowAny])"

text \<open>An update reaches any tier of the queryset, whoever owns its event.\<close>

definition tier_write_allowed :: "user option \<Rightarrow> uuid \<Rightarrow> action \<Rightarrow> db \<Rightarrow> bool" where
  "tier_write_allowed u tid a d \<longleftrightarrow>
     request_denied (tier_permissions a) u = None \<and> (\<exists>t\<in>set (tier_queryset None d). tier_id t = tid)"

section \<open>Properties\<close>

lemma mem_company_queryset:
  "c \<in> set (company_queryset u d) \<longleftrightarrow>
     c \<in> set (companies d) \<and> co_is_active c
     \<and> (\<exists>m\<in>set (members d). mem_company m = co_id c \<and> mem_user m = u_id u)"
  by (auto simp: company_queryset_def)

text \<open>
  Tenant isolation of the listings: a user is shown a company exactly if it is active
  and has the user as a member, an organizer is shown an event exactly if the user owns its
  company, and the public is shown exactly the published events.
\<close>

theorem tenant_listings_exact:
  "c \<in> set (company_queryset u d) = (c \<in> set (companies d) \<and> co_is_active c
      \<and> (\<exists>m\<in>set (members d). mem_company m = co_id c \<and> mem_user m = u_id u))
   \<and> e \<in> set (organizer_event_queryset u d) = (e \<in> set (events d)
      \<and> (\<exists>c\<in>set (companies d). co_id c = ev_company e \<and> co_owner c = u_id u))
   \<and> e \<in> set (public_event_queryset d) = (e \<in> set (events d) \<and> is_published e)"
  by (auto simp: mem_company_queryset organizer_event_queryset_def public_event_queryset_def is_published_def)

text \<open>
  No one can change a company over the API. A PATCH is refused for every user, members
  and owners included, because the permission looks for the company of a company and finds
  none; the database stays as it is.
\<close>

theorem company_patch_always_refused:
  "fst (company_patch u pk f d) \<in> {Unauthorized, Forbidden, NotFound, ServerError}
   \<and> snd (company_patch u pk f d) = d"
  by (auto simp: company_patch_def company_permissions_def request_denied_def
      split: option.split list.split)

text \<open>
  Creating a company does not make its creator a member. After a successful creation
  the company is there with its creator as owner and the slug of its name, no other row has
  changed, and it is in no one's listing, its creator's included; a second company whose
  name gives the same slug is refused by the database.
\<close>

theorem company_create_unlisted:
  assumes "company_create slugify (Some u) cid name f d = (Created, d')"
    and "\<forall>m\<in>set (members d). mem_company m \<noteq> cid"
  shows "\<exists>c. d' = d\<lparr>companies := companies d @ [c]\<rparr> \<and> co_id c = cid \<and> co_owner c = u_id u
      \<and> co_slug c = slugify name \<and> u_role u = Organizer
      \<and> c \<notin> set (company_queryset v d')
      \<and> (slugify name' = slugify name \<longrightarrow>
           fst (company_create slugify (Some u) cid' name' f d') = ServerError)"
proof -
  have org: "u_role u = Organizer"
    using assms(1) by (cases "u_role u") (auto simp: company_create_def request_denied_def company_permissions_def)
  let ?c = "(company_create_row cid u name f)\<lparr>co_slug := slugify name\<rparr>"
  have d': "d' = d\<lparr>companies := companies d @ [?c]\<rparr>"
    using assms(1)
    by (auto simp: company_create_def company_save_def company_create_row_def request_denied_def Let_def
        split: option.splits if_splits)
  have "?c \<notin> set (company_queryset v d')"
    using assms(2) by (auto simp: mem_company_queryset d' company_create_row_def)
  moreover have "fst (company_create slugify (Some u) cid' name' f d') = ServerError" if "slugify name' = slugify name"
    using org that
    by (simp add: company_create_def company_save_def company_create_row_def d' request_denied_def
        company_permissions_def Let_def)
  ultimately show ?thesis
    using org by (intro exI [of _ ?c]) (simp add: d' company_create_row_def)
qed

definition organizer_ann :: user where
  "organizer_ann = \<lparr>u_id = ''ann'', u_email = ''ann@x.org'', u_first_name = [], u_last_name = [],
     u_role = Organizer, u_is_active = True, u_is_staff = False, u_is_superuser = False,
     u_email_verified = False, u_password = []\<rparr>"

definition no_rows :: db where
  "no_rows = \<lparr>users = [], companies = [], members = [], events = [], tiers = [], holds = [],
     payments = [], tickets = [], audit_logs = []\<rparr>"

definition no_form :: company_form where
  "no_form = \<lparr>cf_name = None, cf_timezone = None, cf_logo_url = None, cf_primary_color = None\<rparr>"

theorem company_create_unlisted_witness:
  "\<exists>c. snd (company_create id (Some organizer_ann) ''c'' ''acme'' no_form no_rows)
        = no_rows\<lparr>companies := [c]\<rparr>
    \<and> c \<notin> set (company_queryset organizer_ann
        (snd (company_create id (Some organizer_ann) ''c'' ''acme'' no_form no_rows)))"
proof -
  let ?run = "company_create id (Some organizer_ann) ''c'' ''acme'' no_form no_rows"
  have "?run = (Created, snd ?run)"
    by (simp add: company_create_def company_save_def company_create_row_def request_denied_def
        company_permissions_def organizer_ann_def no_rows_def Let_def)
  from company_create_unlisted [OF this, of organizer_ann] show ?thesis
    by (auto simp: no_rows_def)
qed

text \<open>
  No event can be created over the API: every request is refused or ends in a server
  error, whatever company it names, and adds no event. A tier, in contrast, can be written
  by every organizer, also one who owns neither the event nor its company.
\<close>

theorem event_create_always_fails:
  "fst (event_create u company_id e d) \<in> {Unauthorized, Forbidden, ServerError}
   \<and> snd (event_create u company_id e d) = d
   \<and> tier_write_allowed u tid PartialUpdate d =
       ((case u of None \<Rightarrow> False | Some v \<Rightarrow> u_role v = Organizer)
        \<and> (\<exists>t\<in>set (tiers d). tier_is_active t \<and> tier_id t = tid))"
proof -
  have role: "user_role_value r = ''organizer'' \<longleftrightarrow> r = Organizer" for r by (cases r) simp_all
  show ?thesis
    by (auto simp: event_create_def event_perform_create_def event_insert_def request_denied_def
        organizer_event_permissions_def tier_write_allowed_def tier_permissions_def tier_queryset_def role
        split: option.split)
qed

end
