(* ===== verification/CheckoutLemmas.thy ===== *)
theory CheckoutLemmas
  imports Checkout
begin

text \<open>
  What each checkout operation does on every branch, as equations over the databases it
  reads, and the bookkeeping lemmas on the held column and the active holds. The
  invariants of \<open>CheckoutInv\<close> rest on these equations only.
\<close>

section \<open>Closed forms\<close>

definition add_hold :: "checkout_hold \<Rightarrow> db \<Rightarrow> db" where
  "add_hold h d = d\<lparr>holds := holds d @ [h]\<rparr>"

definition insertable :: "checkout_hold \<Rightarrow> db \<Rightarrow> bool" where
  "insertable h d \<longleftrightarrow> hold_id h \<notin> hold_id ` set (holds d) \<and> hold_token h \<notin> hold_token ` set (holds d)
     \<and> pos_int_ok (hold_quantity h)"

text \<open>What a successful \<open>create_hold\<close> leaves in Redis.\<close>

definition hold_caches :: "'c cache_api \<Rightarrow> instant \<Rightarrow> checkout_hold \<Rightarrow> 'c \<Rightarrow> 'c" where
  "hold_caches C t1 h c =
     invalidate_availability C (hold_tier h)
       (push_hold_expiry C (hold_token h) (hold_expires_at h)
         (register_hold C t1 (hold_token h) (hold_entry_of h) c))"

definition drop_hold_caches :: "'c cache_api \<Rightarrow> checkout_hold \<Rightarrow> 'c \<Rightarrow> 'c" where
  "drop_hold_caches C h c =
     invalidate_availability C (hold_tier h) (release_hold C (hold_token h) c)"

lemma world_eqI: "database w = database w' \<Longrightarrow> redis w = redis w' \<Longrightarrow> w = (w' :: 'c world)"
  by (cases w; cases w') simp

lemma create_hold_eq:
  "create_hold C t0 t1 hid tok uid tid q w =
     (let d = database w; h = new_hold t0 hid tok uid tid q in
      case rows_get (\<lambda>t. tier_id t = tid) (tiers d) of
        Inl e \<Rightarrow> (Inl e, w)
      | Inr tier \<Rightarrow>
          if 2 \<le> active_holds_count uid (tier_event tier) d then (Inl HoldAbuseError, w)
          else if quantity_available tier < q
          then (Inl (InsufficientInventoryError (quantity_available tier) q), w)
          else if \<not> insertable h d \<or> \<not> pos_int_ok (quantity_held tier + q) then (Inl IntegrityError, w)
          else (Inr h, \<lparr>database = set_held tid (quantity_held tier + q) (add_hold h d),
                        redis = hold_caches C t1 h (redis w)\<rparr>))"
proof (cases "rows_get (\<lambda>t. tier_id t = tid) (tiers (database w))")
  case (Inl e)
  then show ?thesis by (simp add: create_hold_def atomic_def get_tier_def prog_simps)
next
  case (Inr tier)
  then have ex: "\<exists>t\<in>set (tiers (database w)). tier_id t = tid"
    using rows_get_Inr_D by fastforce
  show ?thesis
    by (simp add: create_hold_def atomic_def get_tier_def prog_simps Inr Let_def insert_hold_def
        update_tier_held_def ex max_holds_per_user_per_event_def insertable_def add_hold_def
        hold_caches_def new_hold_def with_db_def with_redis_def)
qed

lemma release_hold_by_token_eq:
  "release_hold_by_token C tok w =
     (let d = database w in
      case rows_get (\<lambda>h. hold_token h = tok \<and> hold_status h = Active) (holds d) of
        Inl DoesNotExist \<Rightarrow> (Inr (), w)
      | Inl e \<Rightarrow> (Inl e, w)
      | Inr h \<Rightarrow>
         (case rows_get (\<lambda>t. tier_id t = hold_tier h) (tiers d) of
            Inl e \<Rightarrow> (Inl e, w)
          | Inr tier \<Rightarrow>
              if \<not> pos_int_ok (quantity_held tier - hold_quantity h) then (Inl IntegrityError, w)
              else (Inr (), \<lparr>database = set_held (hold_tier h) (quantity_held tier - hold_quantity h)
                                (set_hold_status (hold_id h) Released d),
                             redis = drop_hold_caches C h (redis w)\<rparr>)))"
proof (cases "rows_get (\<lambda>h. hold_token h = tok \<and> hold_status h = Active) (holds (database w))")
  case (Inl e)
  then show ?thesis
    by (cases e) (simp_all add: release_hold_by_token_def atomic_def prog_simps)
next
  case (Inr h)
  then have tok: "hold_token h = tok" using rows_get_Inr_D by fastforce
  show ?thesis
  proof (cases "rows_get (\<lambda>t. tier_id t = hold_tier h) (tiers (database w))")
    case (Inl e)
    with Inr show ?thesis
      by (simp add: release_hold_by_token_def atomic_def prog_simps get_tier_def save_hold_status_def
          with_db_def set_hold_status_def)
  next
    case (Inr tier)
    then have ex: "\<exists>t\<in>set (tiers (database w)). tier_id t = hold_tier h"
      using rows_get_Inr_D by fastforce
    from Inr show ?thesis
      by (simp add: release_hold_by_token_def atomic_def prog_simps get_tier_def save_hold_status_def
          with_db_def with_redis_def set_hold_status_def update_tier_held_def ex drop_hold_caches_def
          tok \<open>rows_get _ (holds _) = Inr h\<close>)
  qed
qed

end
