(* ===== verification/CheckoutInv.thy ===== *)
theory CheckoutInv
  imports CheckoutLemmas
begin

text \<open>
  The invariant of the checkout tables and that \<open>create_hold\<close> and
  \<open>release_hold_by_token\<close> keep it.
\<close>

section \<open>Bookkeeping\<close>

definition active_qty :: "uuid \<Rightarrow> checkout_hold \<Rightarrow> int" where
  "active_qty tid h = (if hold_tier h = tid \<and> hold_status h = Active then hold_quantity h else 0)"

text \<open>The tickets the active holds of a tier ask for.\<close>

definition held_sum :: "uuid \<Rightarrow> db \<Rightarrow> int" where
  "held_sum tid d = sum_list (map (active_qty tid) (holds d))"

lemma holds_set_held [simp]: "holds (set_held tid n d) = holds d"
  by (simp add: set_held_def)

lemma tiers_add_hold [simp]: "tiers (add_hold h d) = tiers d"
  by (simp add: add_hold_def)

lemma holds_add_hold [simp]: "holds (add_hold h d) = holds d @ [h]"
  by (simp add: add_hold_def)

lemma tiers_set_hold_status [simp]: "tiers (set_hold_status hid s d) = tiers d"
  by (simp add: set_hold_status_def)

lemma held_sum_set_held [simp]: "held_sum tid (set_held tid' n d) = held_sum tid d"
  by (simp add: held_sum_def)

lemma held_sum_add_hold: "held_sum tid (add_hold h d) = held_sum tid d + active_qty tid h"
  by (simp add: held_sum_def)

lemma held_sum_set_hold_status:
  assumes "distinct (map hold_id (holds d))" and "h \<in> set (holds d)" and "s \<noteq> Active"
  shows "held_sum tid (set_hold_status (hold_id h) s d) = held_sum tid d - active_qty tid h"
proof -
  have "active_qty tid (h\<lparr>hold_status := s\<rparr>) = 0" using assms(3) by (simp add: active_qty_def)
  then show ?thesis
    using sum_list_rows_update [OF assms(1,2) refl, of "active_qty tid" "\<lambda>h. h\<lparr>hold_status := s\<rparr>"]
    by (simp add: held_sum_def set_hold_status_def)
qed

lemma tier_ids_set_held [simp]: "map tier_id (tiers (set_held tid n d)) = map tier_id (tiers d)"
  by (simp add: set_held_def map_rows_update)

lemma mem_set_held:
  "t \<in> set (tiers (set_held tid n d)) \<longleftrightarrow>
     (\<exists>u\<in>set (tiers d). t = (if tier_id u = tid then u\<lparr>quantity_held := n\<rparr> else u))"
  by (simp add: set_held_def mem_rows_update)

lemma mem_set_hold_status:
  "h \<in> set (holds (set_hold_status hid s d)) \<longleftrightarrow>
     (\<exists>g\<in>set (holds d). h = (if hold_id g = hid then g\<lparr>hold_status := s\<rparr> else g))"
  by (simp add: set_hold_status_def mem_rows_update)

lemma hold_in_event_set_held [simp]:
  "hold_in_event (tiers (set_held tid n d)) ev h = hold_in_event (tiers d) ev h"
  by (simp add: hold_in_event_def set_held_def bex_rows_update if_distrib [of tier_id]
      if_distrib [of tier_event] cong: if_cong)

lemma active_holds_count_set_held [simp]:
  "active_holds_count uid ev (set_held tid n d) = active_holds_count uid ev d"
  by (simp add: active_holds_count_def)

lemma hold_in_event_status [simp]:
  "hold_in_event ts ev (h\<lparr>hold_status := s\<rparr>) = hold_in_event ts ev h"
  by (simp add: hold_in_event_def)

lemma rows_count_update_le:
  "(\<And>r. P (f r) \<Longrightarrow> P r) \<Longrightarrow> rows_count P (rows_update Q f rs) \<le> rows_count P rs"
  by (induction rs) (auto simp: rows_count_def)

lemma active_holds_count_set_hold_status:
  "s \<noteq> Active \<Longrightarrow> active_holds_count uid ev (set_hold_status hid s d) \<le> active_holds_count uid ev d"
  by (auto simp: active_holds_count_def set_hold_status_def intro!: rows_count_update_le)

lemma active_holds_count_add_hold:
  "active_holds_count uid ev (add_hold h d) =
     active_holds_count uid ev d
       + (if hold_user h = uid \<and> hold_in_event (tiers d) ev h \<and> hold_status h = Active then 1 else 0)"
  by (simp add: active_holds_count_def rows_count_def)

section \<open>The invariant\<close>

definition db_keys :: "db \<Rightarrow> bool" where
  "db_keys d \<longleftrightarrow> distinct (map tier_id (tiers d)) \<and> distinct (map hold_id (holds d))
     \<and> distinct (map hold_token (holds d))
     \<and> (\<forall>h\<in>set (holds d). hold_tier h \<in> tier_id ` set (tiers d) \<and> 0 \<le> hold_quantity h)"

definition stock_ok :: "db \<Rightarrow> bool" where
  "stock_ok d \<longleftrightarrow> (\<forall>t\<in>set (tiers d). pos_int_ok (quantity_held t) \<and> 0 \<le> quantity_sold t
     \<and> quantity_held t + quantity_sold t \<le> quantity_total t)"

text \<open>Every ticket an active hold asks for is taken out of the tier's stock.\<close>

definition covered :: "db \<Rightarrow> bool" where
  "covered d \<longleftrightarrow> (\<forall>t\<in>set (tiers d). held_sum (tier_id t) d \<le> quantity_held t)"

text \<open>Nothing else is: no ticket is lost to a hold that is gone.\<close>

definition accounted :: "db \<Rightarrow> bool" where
  "accounted d \<longleftrightarrow> (\<forall>t\<in>set (tiers d). held_sum (tier_id t) d = quantity_held t)"

definition abuse_ok :: "db \<Rightarrow> bool" where
  "abuse_ok d \<longleftrightarrow> (\<forall>uid ev. active_holds_count uid ev d \<le> 2)"

definition checkout_inv :: "db \<Rightarrow> bool" where
  "checkout_inv d \<longleftrightarrow> db_keys d \<and> stock_ok d \<and> covered d \<and> abuse_ok d"

lemmas inv_defs = checkout_inv_def db_keys_def stock_ok_def covered_def abuse_ok_def

lemma db_keys_ids:
  "db_keys d \<Longrightarrow> distinct (map tier_id (tiers d))"
  "db_keys d \<Longrightarrow> distinct (map hold_id (holds d))"
  "db_keys d \<Longrightarrow> distinct (map hold_token (holds d))"
  by (simp_all add: db_keys_def)

lemma accounted_covered: "accounted d \<Longrightarrow> covered d"
  by (simp add: accounted_def covered_def)

lemma active_qty_nonneg: "db_keys d \<Longrightarrow> h \<in> set (holds d) \<Longrightarrow> 0 \<le> active_qty tid h"
  by (simp add: db_keys_def active_qty_def)

lemma active_qty_le_held_sum:
  "db_keys d \<Longrightarrow> h \<in> set (holds d) \<Longrightarrow> active_qty tid h \<le> held_sum tid d"
  unfolding held_sum_def by (rule member_le_sum_list_int) (auto intro: active_qty_nonneg)

lemma held_sum_nonneg: "db_keys d \<Longrightarrow> 0 \<le> held_sum tid d"
  unfolding held_sum_def by (rule sum_list_nonneg_int) (auto intro: active_qty_nonneg)

lemma hold_tier_row:
  assumes "db_keys d" and "h \<in> set (holds d)"
  obtains t where "t \<in> set (tiers d)" "tier_id t = hold_tier h"
    "rows_get (\<lambda>t. tier_id t = hold_tier h) (tiers d) = Inr t"
proof -
  from assms obtain t where t: "t \<in> set (tiers d)" "tier_id t = hold_tier h"
    by (auto simp: db_keys_def)
  moreover have "rows_get (\<lambda>t. tier_id t = hold_tier h) (tiers d) = Inr t"
    using assms(1) t by (intro rows_get_key) (simp_all add: db_keys_def)
  ultimately show ?thesis by (rule that)
qed

section \<open>Building blocks\<close>

lemma db_keys_set_held: "db_keys d \<Longrightarrow> db_keys (set_held tid n d)"
proof -
  have "tier_id ` set (tiers (set_held tid n d)) = tier_id ` set (tiers d)"
    using arg_cong [OF tier_ids_set_held, of set tid n d] by (simp only: set_map)
  then show "db_keys d \<Longrightarrow> db_keys (set_held tid n d)" unfolding db_keys_def by simp
qed

lemma hold_keys_set_hold_status [simp]:
  "map hold_id (holds (set_hold_status hid s d)) = map hold_id (holds d)"
  "map hold_token (holds (set_hold_status hid s d)) = map hold_token (holds d)"
  by (simp_all add: set_hold_status_def map_rows_update)

lemma db_keys_set_hold_status: "db_keys d \<Longrightarrow> db_keys (set_hold_status hid s d)"
  by (simp add: db_keys_def map_rows_update set_hold_status_def ball_rows_update)

lemma db_keys_add_hold:
  "db_keys d \<Longrightarrow> insertable h d \<Longrightarrow> hold_tier h \<in> tier_id ` set (tiers d) \<Longrightarrow> db_keys (add_hold h d)"
  by (auto simp: db_keys_def insertable_def pos_int_ok_def)

lemma stock_ok_set_hold_status [simp]: "stock_ok (set_hold_status hid s d) = stock_ok d"
  by (simp add: stock_ok_def)

lemma stock_ok_add_hold [simp]: "stock_ok (add_hold h d) = stock_ok d"
  by (simp add: stock_ok_def)

lemma stock_ok_set_held:
  assumes "stock_ok d" and "distinct (map tier_id (tiers d))" and "tier \<in> set (tiers d)"
    and "tier_id tier = tid" and "pos_int_ok n" and "n + quantity_sold tier \<le> quantity_total tier"
  shows "stock_ok (set_held tid n d)"
proof -
  have "\<And>u. u \<in> set (tiers d) \<Longrightarrow> tier_id u = tid \<Longrightarrow> u = tier"
    using assms by (auto intro: key_inj)
  then have "pos_int_ok n \<and> n + quantity_sold u \<le> quantity_total u"
    if "u \<in> set (tiers d)" "tier_id u = tid" for u
    using that assms(5,6) by blast
  with assms(1) show ?thesis by (simp add: stock_ok_def set_held_def ball_rows_update)
qed

lemma covered_set_held:
  assumes "\<And>t. t \<in> set (tiers d) \<Longrightarrow> tier_id t \<noteq> tid \<Longrightarrow> held_sum (tier_id t) d \<le> quantity_held t"
    and "held_sum tid d \<le> n"
  shows "covered (set_held tid n d)"
  using assms by (auto simp: covered_def mem_set_held)

lemma accounted_set_held:
  assumes "\<And>t. t \<in> set (tiers d) \<Longrightarrow> tier_id t \<noteq> tid \<Longrightarrow> held_sum (tier_id t) d = quantity_held t"
    and "held_sum tid d = n"
  shows "accounted (set_held tid n d)"
  using assms by (auto simp: accounted_def mem_set_held)

lemma active_qty_other [simp]: "hold_tier h \<noteq> tid \<Longrightarrow> active_qty tid h = 0"
  by (simp add: active_qty_def)

lemma abuse_ok_set_held [simp]: "abuse_ok (set_held tid n d) = abuse_ok d"
  by (simp add: abuse_ok_def)

lemma abuse_ok_set_hold_status:
  "s \<noteq> Active \<Longrightarrow> abuse_ok d \<Longrightarrow> abuse_ok (set_hold_status hid s d)"
  unfolding abuse_ok_def by (meson active_holds_count_set_hold_status le_trans)

lemma abuse_ok_add_hold:
  assumes "abuse_ok d" and "distinct (map tier_id (tiers d))" and "tier \<in> set (tiers d)"
    and "hold_tier h = tier_id tier"
    and "active_holds_count (hold_user h) (tier_event tier) d < 2"
  shows "abuse_ok (add_hold h d)"
proof -
  have "hold_in_event (tiers d) ev h \<longleftrightarrow> ev = tier_event tier" for ev
    using assms(2-4) by (auto simp: hold_in_event_def dest: key_inj)
  with assms(1,5) show ?thesis
    by (auto simp: abuse_ok_def active_holds_count_add_hold)
qed

section \<open>Preservation\<close>

lemma create_hold_success:
  assumes "create_hold C t0 t1 hid tok uid tid q w = (Inr h, w')"
  obtains tier where "rows_get (\<lambda>t. tier_id t = tid) (tiers (database w)) = Inr tier"
    and "active_holds_count uid (tier_event tier) (database w) < 2"
    and "q \<le> quantity_available tier" and "insertable h (database w)"
    and "pos_int_ok (quantity_held tier + q)" and "h = new_hold t0 hid tok uid tid q"
    and "database w' = set_held tid (quantity_held tier + q) (add_hold h (database w))"
    and "redis w' = hold_caches C t1 h (redis w)"
proof (cases "rows_get (\<lambda>t. tier_id t = tid) (tiers (database w))")
  case (Inl e)
  with assms show ?thesis by (simp add: create_hold_eq Let_def)
next
  case (Inr tier)
  let ?h = "new_hold t0 hid tok uid tid q"
  from assms Inr
  have "active_holds_count uid (tier_event tier) (database w) < 2 \<and> q \<le> quantity_available tier
      \<and> insertable ?h (database w) \<and> pos_int_ok (quantity_held tier + q) \<and> h = ?h
      \<and> w' = \<lparr>database = set_held tid (quantity_held tier + q) (add_hold ?h (database w)),
              redis = hold_caches C t1 ?h (redis w)\<rparr>"
    by (auto simp: create_hold_eq Let_def not_le not_less split: if_splits)
  then show ?thesis by (intro that [OF Inr]) simp_all
qed

lemma create_hold_failure:
  assumes "create_hold C t0 t1 hid tok uid tid q w = (Inl e, w')"
  shows "w' = w"
  using assms by (auto simp: create_hold_eq Let_def split: sum.splits if_splits)

lemma release_hold_success:
  assumes "release_hold_by_token C tok w = (Inr (), w')" and "w' \<noteq> w"
  obtains h tier where "h \<in> set (holds (database w))" and "hold_token h = tok" and "hold_status h = Active"
    and "rows_get (\<lambda>t. tier_id t = hold_tier h) (tiers (database w)) = Inr tier"
    and "pos_int_ok (quantity_held tier - hold_quantity h)"
    and "database w' = set_held (hold_tier h) (quantity_held tier - hold_quantity h)
           (set_hold_status (hold_id h) Released (database w))"
    and "redis w' = drop_hold_caches C h (redis w)"
proof -
  show ?thesis
  proof (cases "rows_get (\<lambda>h. hold_token h = tok \<and> hold_status h = Active) (holds (database w))")
    case (Inl e)
    with assms show ?thesis
      by (cases e) (simp_all add: release_hold_by_token_eq Let_def)
  next
    case (Inr h)
    from rows_get_Inr_D [OF this] Inr assms that [of h] show ?thesis
      by (auto simp: release_hold_by_token_eq Let_def split: sum.splits if_splits)
  qed
qed

lemma release_hold_failure:
  assumes "release_hold_by_token C tok w = (Inl e, w')"
  shows "w' = w"
  using assms by (auto simp: release_hold_by_token_eq Let_def split: sum.splits if_splits exn.splits)

lemma hold_fields_new_hold [simp]:
  "hold_id (new_hold t0 hid tok uid tid q) = hid" "hold_token (new_hold t0 hid tok uid tid q) = tok"
  "hold_user (new_hold t0 hid tok uid tid q) = uid" "hold_tier (new_hold t0 hid tok uid tid q) = tid"
  "hold_quantity (new_hold t0 hid tok uid tid q) = q" "hold_status (new_hold t0 hid tok uid tid q) = Active"
  "hold_expires_at (new_hold t0 hid tok uid tid q) = t0 + minutes hold_duration_minutes"
  by (simp_all add: new_hold_def)

lemma held_sum_create:
  assumes "rows_get (\<lambda>t. tier_id t = tid) (tiers d) = Inr tier" and "hold_tier h = tid"
    and "hold_status h = Active"
  shows "held_sum (tier_id t) (set_held tid n (add_hold h d))
           = held_sum (tier_id t) d + (if tier_id t = tid then hold_quantity h else 0)"
  using assms by (auto simp: held_sum_add_hold active_qty_def)

text \<open>A hold is added and its tier's held column grows by the quantity, read from the row itself.\<close>

lemma create_keeps_base:
  assumes keys: "db_keys d" and stock: "stock_ok d" and cov: "covered d"
    and row: "tier \<in> set (tiers d)" "tier_id tier = tid"
    and "hold_quantity h \<le> quantity_available tier"
    and "insertable h d" and "pos_int_ok (quantity_held tier + hold_quantity h)"
    and h: "hold_tier h = tid" "hold_status h = Active"
  defines "d' \<equiv> set_held tid (quantity_held tier + hold_quantity h) (add_hold h d)"
  shows "db_keys d'" and "stock_ok d'" and "covered d'"
proof -
  have "tid \<in> tier_id ` set (tiers d)" using row by (auto simp: image_iff)
  then show "db_keys d'" using db_keys_add_hold keys assms(7) h(1) by (simp add: d'_def db_keys_set_held)
  have "quantity_held tier + hold_quantity h + quantity_sold tier \<le> quantity_total tier"
    using stock row(1) assms(6,7) by (auto simp: stock_ok_def quantity_available_def insertable_def pos_int_ok_def)
  then show "stock_ok d'"
    unfolding d'_def using stock keys row assms(8)
    by (intro stock_ok_set_held [of _ tier]) (simp_all add: db_keys_ids)
  have cov_row: "held_sum (tier_id t) d \<le> quantity_held t" if "t \<in> set (tiers d)" for t
    using cov that by (simp add: covered_def)
  show "covered d'"
    unfolding d'_def using h row cov_row cov_row [OF row(1)]
    by (intro covered_set_held) (auto simp: held_sum_add_hold active_qty_def)
qed

lemma create_keeps_inv:
  assumes inv: "checkout_inv d" and tier: "rows_get (\<lambda>t. tier_id t = tid) (tiers d) = Inr tier"
    and "active_holds_count (hold_user h) (tier_event tier) d < 2"
    and "hold_quantity h \<le> quantity_available tier"
    and "insertable h d" and "pos_int_ok (quantity_held tier + hold_quantity h)"
    and h: "hold_tier h = tid" "hold_status h = Active"
  shows "checkout_inv (set_held tid (quantity_held tier + hold_quantity h) (add_hold h d))"
proof -
  note row = rows_get_Inr_D [OF tier]
  from inv have keys: "db_keys d" "stock_ok d" "covered d" and ab: "abuse_ok d"
    by (simp_all add: checkout_inv_def)
  have "abuse_ok (add_hold h d)"
    using ab keys(1) row h assms(3) by (intro abuse_ok_add_hold) (simp_all add: db_keys_ids)
  with create_keeps_base [OF keys row assms(4-8)] show ?thesis by (simp add: checkout_inv_def)
qed

text \<open>
  A hold leaves the active ones and the held column of its tier is set to \<open>n\<close>; what the
  remaining active holds ask for must stay covered.
\<close>

lemma drop_hold_keeps_inv:
  assumes inv: "checkout_inv d" and h: "h \<in> set (holds d)" "hold_status h = Active" and s: "s \<noteq> Active"
    and n: "pos_int_ok n" "held_sum (hold_tier h) d \<le> n + hold_quantity h"
    and room: "\<And>t. t \<in> set (tiers d) \<Longrightarrow> tier_id t = hold_tier h \<Longrightarrow> n + quantity_sold t \<le> quantity_total t"
  shows "checkout_inv (set_held (hold_tier h) n (set_hold_status (hold_id h) s d))"
proof -
  from inv have keys: "db_keys d" and stock: "stock_ok d" and cov: "covered d" and ab: "abuse_ok d"
    by (simp_all add: checkout_inv_def)
  obtain tier where row: "tier \<in> set (tiers d)" "tier_id tier = hold_tier h"
    using hold_tier_row [OF keys h(1)] by blast
  have "stock_ok (set_held (hold_tier h) n (set_hold_status (hold_id h) s d))"
    using stock keys row n(1) room by (intro stock_ok_set_held [of _ tier]) (simp_all add: db_keys_ids)
  moreover have sum: "held_sum tid (set_hold_status (hold_id h) s d) = held_sum tid d - active_qty tid h" for tid
    using keys h s by (simp add: held_sum_set_hold_status db_keys_ids)
  have "held_sum (tier_id t) d \<le> quantity_held t" if "t \<in> set (tiers d)" for t
    using cov that by (simp add: covered_def)
  then have "covered (set_held (hold_tier h) n (set_hold_status (hold_id h) s d))"
    using h n(2) by (intro covered_set_held) (auto simp: sum active_qty_def)
  ultimately show ?thesis
    using keys ab s by (simp add: checkout_inv_def db_keys_set_held db_keys_set_hold_status abuse_ok_set_hold_status)
qed

lemma inv_row:
  assumes "checkout_inv d" and "t \<in> set (tiers d)"
  shows "held_sum (tier_id t) d \<le> quantity_held t" and "pos_int_ok (quantity_held t)"
    and "quantity_held t + quantity_sold t \<le> quantity_total t"
  using assms by (simp_all add: checkout_inv_def covered_def stock_ok_def)

lemma inv_hold_quantity:
  assumes "checkout_inv d" and "h \<in> set (holds d)" and "hold_status h = Active"
  shows "0 \<le> hold_quantity h" and "hold_quantity h \<le> held_sum (hold_tier h) d"
proof -
  from assms(1) have "db_keys d" by (simp add: checkout_inv_def)
  then show "0 \<le> hold_quantity h" and "hold_quantity h \<le> held_sum (hold_tier h) d"
    using assms active_qty_le_held_sum [of d h "hold_tier h"] by (simp_all add: active_qty_def db_keys_def)
qed

lemma release_keeps_inv:
  assumes inv: "checkout_inv d" and h: "h \<in> set (holds d)" "hold_status h = Active"
    and tier: "tier \<in> set (tiers d)" "tier_id tier = hold_tier h" and s: "s \<noteq> Active"
  shows "pos_int_ok (quantity_held tier - hold_quantity h)"
    and "checkout_inv (set_held (hold_tier h) (quantity_held tier - hold_quantity h)
      (set_hold_status (hold_id h) s d))"
proof -
  note q = inv_hold_quantity [OF inv h] and t = inv_row [OF inv tier(1)]
  have same: "t = tier" if "t \<in> set (tiers d)" "tier_id t = hold_tier h" for t
    using inv that tier by (auto simp: checkout_inv_def db_keys_def intro: key_inj)
  show ok: "pos_int_ok (quantity_held tier - hold_quantity h)"
    using q t tier by (auto simp: pos_int_ok_def)
  show "checkout_inv (set_held (hold_tier h) (quantity_held tier - hold_quantity h)
      (set_hold_status (hold_id h) s d))"
    using q t tier ok s by (intro drop_hold_keeps_inv [OF inv h]) (auto dest: same)
qed

lemma active_hold_get:
  assumes "db_keys d" and "h \<in> set (holds d)" and "hold_status h = Active"
  shows "rows_get (\<lambda>x. hold_token x = hold_token h \<and> hold_status x = Active) (holds d) = Inr h"
proof -
  have "filter (\<lambda>x. hold_token x = hold_token h) (holds d) = [h]"
    using assms by (simp add: filter_key_singleton db_keys_def)
  then have "filter (\<lambda>x. hold_status x = Active) (filter (\<lambda>x. hold_token x = hold_token h) (holds d)) = [h]"
    using assms(3) by simp
  then show ?thesis by (simp add: rows_get_def filter_filter conj_commute)
qed

text \<open>With the invariant no lookup and no column check can fail, so a release always succeeds.\<close>

lemma release_hold_inv:
  assumes "checkout_inv (database w)"
  obtains (None) "release_hold_by_token C tok w = (Inr (), w)"
      "\<And>h. h \<in> set (holds (database w)) \<Longrightarrow> hold_token h = tok \<Longrightarrow> hold_status h \<noteq> Active"
    | (Some) h tier where "h \<in> set (holds (database w))" "hold_token h = tok" "hold_status h = Active"
      "tier \<in> set (tiers (database w))" "tier_id tier = hold_tier h"
      "release_hold_by_token C tok w = (Inr (),
        \<lparr>database = set_held (hold_tier h) (quantity_held tier - hold_quantity h)
             (set_hold_status (hold_id h) Released (database w)),
         redis = drop_hold_caches C h (redis w)\<rparr>)"
proof -
  let ?P = "\<lambda>h. hold_token h = tok \<and> hold_status h = Active"
  from assms have keys: "db_keys (database w)" by (simp add: checkout_inv_def)
  show ?thesis
  proof (cases "\<exists>h\<in>set (holds (database w)). ?P h")
    case False
    then have "filter ?P (holds (database w)) = []" by (auto simp: filter_empty_conv)
    with False show ?thesis
      by (intro None) (auto simp: release_hold_by_token_eq rows_get_def)
  next
    case True
    then obtain h where h: "h \<in> set (holds (database w))" "hold_token h = tok" "hold_status h = Active" by blast
    then have get: "rows_get ?P (holds (database w)) = Inr h"
      using active_hold_get [OF keys h(1,3)] by simp
    obtain tier where t: "tier \<in> set (tiers (database w))" "tier_id tier = hold_tier h"
        "rows_get (\<lambda>t. tier_id t = hold_tier h) (tiers (database w)) = Inr tier"
      using hold_tier_row [OF keys h(1)] by blast
    have "pos_int_ok (quantity_held tier - hold_quantity h)"
      using release_keeps_inv(1) [OF assms h(1,3) t(1,2)] by blast
    with get t show ?thesis
      by (intro Some [OF h t(1,2)]) (simp add: release_hold_by_token_eq Let_def)
  qed
qed

end
