(* ===== verification/CheckoutSweep.thy ===== *)
theory CheckoutSweep
  imports CheckoutInv
begin

text \<open>
  The sweep of expired holds: what its loop does to the tables, that the invariant of the
  checkout survives it, and how much of the stock it fails to give back.
\<close>

section \<open>The loop without its exceptions\<close>

definition sweep_db_step :: "db \<Rightarrow> checkout_hold \<times> ticket_tier \<Rightarrow> db" where
  "sweep_db_step d p = set_held (hold_tier (fst p)) (quantity_held (snd p) - hold_quantity (fst p))
     (set_hold_status (hold_id (fst p)) Expired d)"

definition sweep_db :: "(checkout_hold \<times> ticket_tier) list \<Rightarrow> db \<Rightarrow> db" where
  "sweep_db ps d = foldl sweep_db_step d ps"

definition sweep_caches :: "'c cache_api \<Rightarrow> checkout_hold list \<Rightarrow> 'c \<Rightarrow> 'c" where
  "sweep_caches C hs c = foldl (\<lambda>c h. drop_hold_caches C h c) c hs"

lemma sweep_loop_Cons:
  "sweep_loop C ((h, s) # ps) n w =
     (if (\<exists>t\<in>set (tiers (database w)). tier_id t = hold_tier h)
         \<and> \<not> pos_int_ok (quantity_held s - hold_quantity h)
      then (Inl IntegrityError, with_db (set_hold_status (hold_id h) Expired) w)
      else sweep_loop C ps (n + 1)
        \<lparr>database = sweep_db_step (database w) (h, s), redis = drop_hold_caches C h (redis w)\<rparr>)"
  by (cases w) (simp add: prog_simps save_hold_status_def update_tier_held_def with_db_def with_redis_def
      sweep_db_step_def drop_hold_caches_def set_hold_status_def)

text \<open>
  What holds of the rows still to be swept: they are active holds of the database as it is
  now, and the copy of the tier still covers what is asked for.
\<close>

definition sweep_ready :: "(checkout_hold \<times> ticket_tier) list \<Rightarrow> db \<Rightarrow> bool" where
  "sweep_ready ps d \<longleftrightarrow> distinct (map (hold_id \<circ> fst) ps) \<and>
     (\<forall>(h, s)\<in>set ps. h \<in> set (holds d) \<and> hold_status h = Active
        \<and> held_sum (hold_tier h) d \<le> quantity_held s \<and> quantity_held s \<le> 2147483647
        \<and> (\<forall>t\<in>set (tiers d). tier_id t = hold_tier h \<longrightarrow> quantity_held s + quantity_sold t \<le> quantity_total t))"

lemma sweep_step_ok:
  assumes "checkout_inv d" and "sweep_ready ((h, s) # ps) d"
  shows "pos_int_ok (quantity_held s - hold_quantity h)"
    and "checkout_inv (sweep_db_step d (h, s))" and "sweep_ready ps (sweep_db_step d (h, s))"
proof -
  from assms(2) have h: "h \<in> set (holds d)" "hold_status h = Active"
    and s: "held_sum (hold_tier h) d \<le> quantity_held s" "quantity_held s \<le> 2147483647"
    and room: "\<And>t. t \<in> set (tiers d) \<Longrightarrow> tier_id t = hold_tier h
      \<Longrightarrow> quantity_held s + quantity_sold t \<le> quantity_total t"
    by (auto simp: sweep_ready_def)
  note q = inv_hold_quantity [OF assms(1) h]
  show ok: "pos_int_ok (quantity_held s - hold_quantity h)" using q s by (simp add: pos_int_ok_def)
  have less: "quantity_held s - hold_quantity h + quantity_sold t \<le> quantity_total t"
    if "t \<in> set (tiers d)" "tier_id t = hold_tier h" for t
    using room [OF that] q by simp
  show "checkout_inv (sweep_db_step d (h, s))"
    unfolding sweep_db_step_def using s ok less by (auto intro: drop_hold_keeps_inv [OF assms(1) h])
  have keys: "db_keys d" using assms(1) by (simp add: checkout_inv_def)
  have sum: "held_sum tid (sweep_db_step d (h, s)) \<le> held_sum tid d" for tid
    using held_sum_set_hold_status [of d h Expired tid] active_qty_nonneg [OF keys h(1)] keys h(1)
    by (simp add: sweep_db_step_def db_keys_ids)
  show "sweep_ready ps (sweep_db_step d (h, s))"
    unfolding sweep_ready_def
  proof (intro conjI ballI)
    show "distinct (map (hold_id \<circ> fst) ps)" using assms(2) by (simp add: sweep_ready_def)
    fix p assume p: "p \<in> set ps"
    obtain g u where [simp]: "p = (g, u)" by (cases p)
    from assms(2) p have g: "g \<in> set (holds d)" "hold_status g = Active" "hold_id g \<noteq> hold_id h"
      "held_sum (hold_tier g) d \<le> quantity_held u" "quantity_held u \<le> 2147483647"
      "\<forall>t\<in>set (tiers d). tier_id t = hold_tier g \<longrightarrow> quantity_held u + quantity_sold t \<le> quantity_total t"
      by (force simp: sweep_ready_def)+
    have in_d: "g \<in> set (holds (sweep_db_step d (h, s)))"
      using g by (auto simp: sweep_db_step_def mem_set_hold_status)
    have room': "\<forall>t\<in>set (tiers (sweep_db_step d (h, s))). tier_id t = hold_tier g \<longrightarrow>
        quantity_held u + quantity_sold t \<le> quantity_total t"
      using g(6) by (simp add: sweep_db_step_def set_held_def ball_rows_update)
    show "case p of (ha, sa) \<Rightarrow> ha \<in> set (holds (sweep_db_step d (h, s))) \<and> hold_status ha = Active
        \<and> held_sum (hold_tier ha) (sweep_db_step d (h, s)) \<le> quantity_held sa \<and> quantity_held sa \<le> 2147483647
        \<and> (\<forall>t\<in>set (tiers (sweep_db_step d (h, s))). tier_id t = hold_tier ha \<longrightarrow>
             quantity_held sa + quantity_sold t \<le> quantity_total t)"
      using g(2,4,5) sum [of "hold_tier g"] in_d room' by simp
  qed
qed

lemma sweep_loop_ok:
  assumes "checkout_inv (database w)" and "sweep_ready ps (database w)"
  shows "sweep_loop C ps n w = (Inr (n + int (length ps)),
      \<lparr>database = sweep_db ps (database w), redis = sweep_caches C (map fst ps) (redis w)\<rparr>)
    \<and> checkout_inv (sweep_db ps (database w))"
  using assms
proof (induction ps arbitrary: n w)
  case Nil
  then show ?case by (cases w) (simp add: ret_def sweep_db_def sweep_caches_def)
next
  case (Cons p ps)
  obtain h s where [simp]: "p = (h, s)" by (cases p)
  let ?w = "\<lparr>database = sweep_db_step (database w) (h, s), redis = drop_hold_caches C h (redis w)\<rparr>"
  note step = sweep_step_ok [OF Cons.prems(1) Cons.prems(2) [unfolded \<open>p = (h, s)\<close>]]
  have "sweep_loop C ps (n + 1) ?w = (Inr (n + 1 + int (length ps)),
      \<lparr>database = sweep_db ps (database ?w), redis = sweep_caches C (map fst ps) (redis ?w)\<rparr>)
    \<and> checkout_inv (sweep_db ps (database ?w))"
    using step by (intro Cons.IH) simp_all
  with step(1) show ?case
    by (simp add: sweep_loop_Cons sweep_db_def sweep_caches_def del: sweep_loop.simps)
qed

section \<open>Closed forms\<close>

lemma holds_sweep_db:
  "holds (sweep_db ps d) =
     rows_update (\<lambda>h. hold_id h \<in> hold_id ` fst ` set ps) (\<lambda>h. h\<lparr>hold_status := Expired\<rparr>) (holds d)"
proof (induction ps rule: rev_induct)
  case Nil
  then show ?case by (simp add: sweep_db_def rows_update_def)
next
  case (snoc p ps)
  then show ?case
    by (simp add: sweep_db_def sweep_db_step_def set_hold_status_def rows_update_def)
qed

definition swept_tier :: "(checkout_hold \<times> ticket_tier) list \<Rightarrow> ticket_tier \<Rightarrow> ticket_tier" where
  "swept_tier ps t =
     (case last_option (filter (\<lambda>p. hold_tier (fst p) = tier_id t) ps) of
        None \<Rightarrow> t
      | Some (h, s) \<Rightarrow> t\<lparr>quantity_held := quantity_held s - hold_quantity h\<rparr>)"

lemma tiers_sweep_db: "tiers (sweep_db ps d) = map (swept_tier ps) (tiers d)"
proof (induction ps rule: rev_induct)
  case Nil
  then show ?case by (simp add: sweep_db_def swept_tier_def)
next
  case (snoc p ps)
  then show ?case
    by (simp add: sweep_db_def sweep_db_step_def set_held_def rows_update_def swept_tier_def
        split: option.split prod.split)
qed

section \<open>The query\<close>

lemma join_tiers_Nil [simp]: "join_tiers ts [] = []"
  by (simp add: join_tiers_def map_filter_simps)

lemma join_tiers_Cons:
  "join_tiers ts (h # hs) =
     (case List.find (\<lambda>t. tier_id t = hold_tier h) ts of
        None \<Rightarrow> join_tiers ts hs
      | Some t \<Rightarrow> (h, t) # join_tiers ts hs)"
  by (simp add: join_tiers_def map_filter_simps split: option.split)

lemma find_tier:
  "distinct (map tier_id ts) \<Longrightarrow> t \<in> set ts \<Longrightarrow> tier_id t = tid \<Longrightarrow> List.find (\<lambda>t. tier_id t = tid) ts = Some t"
  by (induction ts) (auto simp: image_iff)

lemma join_tiers_eq:
  assumes "distinct (map tier_id ts)" and "\<And>h. h \<in> set hs \<Longrightarrow> hold_tier h \<in> tier_id ` set ts"
  shows "join_tiers ts hs = map (\<lambda>h. (h, the (List.find (\<lambda>t. tier_id t = hold_tier h) ts))) hs"
  using assms(2)
proof (induction hs)
  case Nil
  then show ?case by simp
next
  case (Cons h hs)
  then obtain t where "t \<in> set ts" "tier_id t = hold_tier h" by force
  then have "List.find (\<lambda>t. tier_id t = hold_tier h) ts = Some t" using assms(1) by (intro find_tier)
  with Cons show ?case by (simp add: join_tiers_Cons)
qed

lemma mem_join_tiers: "(h, s) \<in> set (join_tiers ts hs) \<Longrightarrow> h \<in> set hs \<and> s \<in> set ts \<and> tier_id s = hold_tier h"
  by (induction hs) (auto simp: join_tiers_Cons find_Some_iff split: option.splits)

lemma due_subset: "set (due_holds toks d) \<subseteq> set (holds d)"
  by (auto simp: due_holds_def)

lemma due_hold_tier: "db_keys d \<Longrightarrow> h \<in> set (due_holds toks d) \<Longrightarrow> hold_tier h \<in> tier_id ` set (tiers d)"
  by (simp add: due_holds_def db_keys_def)

lemma map_fst_join_due:
  assumes "db_keys d"
  shows "map fst (join_tiers (tiers d) (due_holds toks d)) = due_holds toks d"
proof -
  show ?thesis using assms due_hold_tier [OF assms] by (simp add: join_tiers_eq db_keys_ids comp_def)
qed

lemma sweep_ready_join:
  assumes "checkout_inv d"
  shows "sweep_ready (join_tiers (tiers d) (due_holds toks d)) d"
proof -
  from assms have keys: "db_keys d" by (simp add: checkout_inv_def)
  have "distinct (map hold_id (due_holds toks d))"
    using keys by (simp add: due_holds_def db_keys_def distinct_map_filter)
  moreover have "map (hold_id \<circ> fst) (join_tiers (tiers d) (due_holds toks d)) = map hold_id (due_holds toks d)"
    using map_fst_join_due [OF keys, of toks] by (metis map_map)
  moreover have "h \<in> set (holds d) \<and> hold_status h = Active \<and> held_sum (hold_tier h) d \<le> quantity_held s
      \<and> quantity_held s \<le> 2147483647
      \<and> (\<forall>t\<in>set (tiers d). tier_id t = hold_tier h \<longrightarrow> quantity_held s + quantity_sold t \<le> quantity_total t)"
    if "(h, s) \<in> set (join_tiers (tiers d) (due_holds toks d))" for h s
  proof -
    from mem_join_tiers [OF that] have h: "h \<in> set (holds d)" "hold_status h = Active"
      and s: "s \<in> set (tiers d)" "tier_id s = hold_tier h"
      by (auto simp: due_holds_def)
    have "quantity_held s + quantity_sold t \<le> quantity_total t"
      if t: "t \<in> set (tiers d)" "tier_id t = hold_tier h" for t
    proof -
      have "t = s" using db_keys_ids(1) [OF keys] t s by (intro key_inj [of tier_id "tiers d"]) simp_all
      then show ?thesis using inv_row(3) [OF assms s(1)] by simp
    qed
    with h s inv_row [OF assms s(1)] show ?thesis by (simp add: pos_int_ok_def)
  qed
  ultimately show ?thesis unfolding sweep_ready_def by auto
qed

text \<open>What a sweep that pops \<open>toks\<close> does to the rows.\<close>

definition swept_hold :: "uuid list \<Rightarrow> checkout_hold \<Rightarrow> checkout_hold" where
  "swept_hold toks h =
     (if hold_token h \<in> set toks \<and> hold_status h = Active then h\<lparr>hold_status := Expired\<rparr> else h)"

definition tier_after_sweep :: "checkout_hold list \<Rightarrow> ticket_tier \<Rightarrow> ticket_tier" where
  "tier_after_sweep due t =
     (case last_option (filter (\<lambda>h. hold_tier h = tier_id t) due) of
        None \<Rightarrow> t
      | Some h \<Rightarrow> t\<lparr>quantity_held := quantity_held t - hold_quantity h\<rparr>)"

lemma holds_sweep_due:
  assumes "db_keys d"
  shows "holds (sweep_db (join_tiers (tiers d) (due_holds toks d)) d) = map (swept_hold toks) (holds d)"
proof -
  have "fst ` set (join_tiers (tiers d) (due_holds toks d)) = set (due_holds toks d)"
    using arg_cong [OF map_fst_join_due [OF assms, of toks], of set] by simp
  moreover have "hold_id h \<in> hold_id ` set (due_holds toks d) \<longleftrightarrow> h \<in> set (due_holds toks d)"
    if "h \<in> set (holds d)" for h
    using db_keys_ids(2) [OF assms] that due_subset [of toks d]
    by (intro inj_on_image_mem_iff [of hold_id "set (holds d)"]) (simp_all add: distinct_map)
  ultimately show ?thesis
    by (simp add: holds_sweep_db rows_update_def swept_hold_def due_holds_def)
qed

lemma tiers_sweep_due:
  assumes "db_keys d"
  shows "tiers (sweep_db (join_tiers (tiers d) (due_holds toks d)) d)
           = map (tier_after_sweep (due_holds toks d)) (tiers d)"
proof -
  let ?due = "due_holds toks d" and ?f = "\<lambda>h. (h, the (List.find (\<lambda>t. tier_id t = hold_tier h) (tiers d)))"
  have ids: "distinct (map tier_id (tiers d))" using assms by (simp add: db_keys_def)
  have join: "join_tiers (tiers d) ?due = map ?f ?due"
    using ids due_hold_tier [OF assms] by (intro join_tiers_eq)
  have "swept_tier (map ?f ?due) t = tier_after_sweep ?due t" if t: "t \<in> set (tiers d)" for t
  proof -
    let ?L = "filter (\<lambda>h. hold_tier h = tier_id t) ?due"
    have L: "filter (\<lambda>p. hold_tier (fst p) = tier_id t) (map ?f ?due) = map ?f ?L"
      by (simp add: filter_map comp_def)
    show ?thesis
    proof (cases "?L = []")
      case True
      then show ?thesis by (simp add: swept_tier_def tier_after_sweep_def L)
    next
      case False
      then have "last ?L \<in> set ?L" by (rule last_in_set)
      then have "List.find (\<lambda>u. tier_id u = hold_tier (last ?L)) (tiers d) = Some t"
        using ids t by (intro find_tier) auto
      with False show ?thesis
        by (simp add: swept_tier_def tier_after_sweep_def L last_option_def last_map)
    qed
  qed
  then show ?thesis by (simp add: tiers_sweep_db join)
qed

end
