(* ===== verification/CheckoutProps.thy ===== *)
theory CheckoutProps
  imports CheckoutSweep
begin

text \<open>
  The checkout as a state machine: the steps requests and the beat schedule take one after
  the other, what holds in every state they reach, and what each operation promises.
\<close>

section \<open>Sequences of operations\<close>

inductive checkout_step :: "'c cache_api \<Rightarrow> 'c world \<Rightarrow> 'c world \<Rightarrow> bool" for C where
  step_create: "create_hold C t0 t1 hid tok uid tid q w = (r, w') \<Longrightarrow> checkout_step C w w'"
| step_release: "release_hold_by_token C tok w = (r, w') \<Longrightarrow> checkout_step C w w'"
| step_sweep: "sweep_expired_holds C now w = (r, w') \<Longrightarrow> checkout_step C w w'"

inductive checkout_reachable :: "'c cache_api \<Rightarrow> 'c world \<Rightarrow> 'c world \<Rightarrow> bool" for C where
  reach_refl: "checkout_reachable C w w"
| reach_step: "checkout_reachable C w v \<Longrightarrow> checkout_step C v u \<Longrightarrow> checkout_reachable C w u"

inductive_cases checkout_stepE: "checkout_step C w w'"

definition sweep_tokens :: "'c cache_api \<Rightarrow> instant \<Rightarrow> 'c world \<Rightarrow> uuid list" where
  "sweep_tokens C now w = fst (pop_expired_holds C now (redis w))"

definition due_now :: "'c cache_api \<Rightarrow> instant \<Rightarrow> 'c world \<Rightarrow> checkout_hold list" where
  "due_now C now w = due_holds (sweep_tokens C now w) (database w)"

lemma due_holds_Nil [simp]: "due_holds [] d = []"
  by (simp add: due_holds_def)

lemma due_holds_token:
  assumes "db_keys d" and "h \<in> set (holds d)" and "hold_token h = tok" and "hold_status h = Active"
  shows "due_holds [tok] d = [h]"
proof -
  have "due_holds [tok] d = filter (\<lambda>g. hold_status g = Active) (filter (\<lambda>g. hold_token g = tok) (holds d))"
    by (simp add: due_holds_def conj_commute)
  then show ?thesis using filter_key_singleton [OF db_keys_ids(3) [OF assms(1)] assms(2,3)] assms(4) by simp
qed

lemma swept_hold_Nil [simp]: "swept_hold [] = id"
  by (simp add: swept_hold_def fun_eq_iff)

lemma tier_after_sweep_Nil [simp]: "tier_after_sweep [] = id"
  by (simp add: tier_after_sweep_def fun_eq_iff)

lemma sweep_ok:
  assumes "checkout_inv (database w)"
  obtains w' where "sweep_expired_holds C now w = (Inr (int (length (due_now C now w))), w')"
    and "holds (database w') = map (swept_hold (sweep_tokens C now w)) (holds (database w))"
    and "tiers (database w') = map (tier_after_sweep (due_now C now w)) (tiers (database w))"
    and "redis w' = sweep_caches C (due_now C now w) (snd (pop_expired_holds C now (redis w)))"
    and "checkout_inv (database w')"
proof -
  obtain toks c where pop: "pop_expired_holds C now (redis w) = (toks, c)" by fastforce
  let ?d = "database w" and ?ps = "join_tiers (tiers (database w)) (due_holds toks (database w))"
  have keys: "db_keys ?d" using assms by (simp add: checkout_inv_def)
  show ?thesis
  proof (cases "toks = []")
    case True
    have "sweep_expired_holds C now w = (Inr (int (length (due_now C now w))), w\<lparr>redis := c\<rparr>)"
      by (simp add: sweep_expired_holds_def due_now_def sweep_tokens_def pop True ret_def)
    then show ?thesis
      using assms
      by (intro that [of "w\<lparr>redis := c\<rparr>"])
        (simp_all add: due_now_def sweep_tokens_def pop True sweep_caches_def)
  next
    case False
    let ?w' = "\<lparr>database = sweep_db ?ps ?d, redis = sweep_caches C (map fst ?ps) c\<rparr>"
    have run: "sweep_loop C ?ps 0 (w\<lparr>redis := c\<rparr>) = (Inr (int (length ?ps)), ?w') \<and> checkout_inv (database ?w')"
      using sweep_loop_ok [of "w\<lparr>redis := c\<rparr>" ?ps C 0] assms sweep_ready_join [OF assms] by simp
    have "length ?ps = length (due_holds toks ?d)"
      using arg_cong [OF map_fst_join_due [OF keys], of length toks] by simp
    with False run
    have "sweep_expired_holds C now w = (Inr (int (length (due_now C now w))), ?w')"
      by (simp add: sweep_expired_holds_def due_now_def sweep_tokens_def pop)
    then show ?thesis
      using run keys
      by (intro that [of ?w'])
        (simp_all add: due_now_def sweep_tokens_def pop holds_sweep_due tiers_sweep_due map_fst_join_due)
  qed
qed

section \<open>Every reachable state\<close>

lemma create_step_inv:
  assumes "checkout_inv (database w)" and "create_hold C t0 t1 hid tok uid tid q w = (r, w')"
  shows "checkout_inv (database w')"
proof (cases r)
  case (Inl e)
  then show ?thesis using assms create_hold_failure by blast
next
  case (Inr h)
  with assms(2) have "create_hold C t0 t1 hid tok uid tid q w = (Inr h, w')" by simp
  then show ?thesis
  proof (rule create_hold_success)
    fix tier
    assume tier: "rows_get (\<lambda>t. tier_id t = tid) (tiers (database w)) = Inr tier"
      and abuse: "active_holds_count uid (tier_event tier) (database w) < 2"
      and avail: "q \<le> quantity_available tier" "insertable h (database w)" "pos_int_ok (quantity_held tier + q)"
      and h: "h = new_hold t0 hid tok uid tid q"
      and w': "database w' = set_held tid (quantity_held tier + q) (add_hold h (database w))"
    show ?thesis
      using create_keeps_inv [OF assms(1) tier, of h] abuse avail h w' by simp
  qed
qed

lemma release_step_inv:
  assumes "checkout_inv (database w)" and "release_hold_by_token C tok w = (r, w')"
  shows "checkout_inv (database w')"
  using assms(1)
proof (cases rule: release_hold_inv [of w C tok])
  case None
  then show ?thesis using assms by simp
next
  case (Some h tier)
  then show ?thesis
    using assms release_keeps_inv(2) [OF assms(1), of h tier Released] by simp
qed

lemma sweep_step_inv:
  assumes "checkout_inv (database w)" and "sweep_expired_holds C now w = (r, w')"
  shows "checkout_inv (database w')"
proof -
  show ?thesis by (rule sweep_ok [OF assms(1), of C now]) (use assms(2) in simp)
qed

lemma reachable_inv:
  "checkout_reachable C w w' \<Longrightarrow> checkout_inv (database w) \<Longrightarrow> checkout_inv (database w')"
  by (induction rule: checkout_reachable.induct)
    (auto elim!: checkout_stepE dest: create_step_inv release_step_inv sweep_step_inv)

section \<open>What a sweep gives back\<close>

lemma held_sum_swept:
  "sum_list (map (\<lambda>h. active_qty tid (swept_hold toks h)) hs)
     = sum_list (map (active_qty tid) hs)
       - sum_list (map hold_quantity (filter (\<lambda>h. hold_tier h = tid)
           (filter (\<lambda>h. hold_token h \<in> set toks \<and> hold_status h = Active) hs)))"
  by (induction hs) (auto simp: swept_hold_def active_qty_def)

lemma sum_list_last:
  fixes f :: "'a \<Rightarrow> int"
  shows "xs \<noteq> [] \<Longrightarrow> sum_list (map f xs) = sum_list (map f (butlast xs)) + f (last xs)"
  by (induction xs rule: rev_induct) simp_all

lemma tier_after_sweep_held:
  "quantity_held (tier_after_sweep due t) =
     quantity_held t - sum_list (map hold_quantity (filter (\<lambda>h. hold_tier h = tier_id t) due))
     + sum_list (map hold_quantity (butlast (filter (\<lambda>h. hold_tier h = tier_id t) due)))"
  by (auto simp: tier_after_sweep_def last_option_def sum_list_last [of "filter _ _"])

lemma tier_after_sweep_id [simp]: "tier_id (tier_after_sweep due t) = tier_id t"
  by (simp add: tier_after_sweep_def split: option.split)

section \<open>A small world\<close>

text \<open>One event with ten tickets; the concrete inputs of the witnesses start from it.\<close>

definition small_tier :: ticket_tier where
  "small_tier = \<lparr>tier_id = ''t'', tier_event = ''e'', tier_name = ''VIP'', tier_description = [], tier_price = 100,
     tier_currency = ''KES'', quantity_total = 10, quantity_held = 0, quantity_sold = 0,
     max_per_order = 10, sale_starts_at = None, sale_ends_at = None, tier_is_active = True,
     sort_order = 0\<rparr>"

definition small_db :: db where
  "small_db = \<lparr>users = [], companies = [], members = [], events = [], tiers = [small_tier],
     holds = [], payments = [], tickets = [], audit_logs = []\<rparr>"

definition small_world :: "ttl_store world" where
  "small_world = \<lparr>database = small_db, redis = ttl_empty\<rparr>"

lemma small_inv: "checkout_inv small_db"
  by (simp add: inv_defs small_db_def small_tier_def pos_int_ok_def held_sum_def
      active_holds_count_def rows_count_def)

lemma small_accounted: "accounted small_db"
  by (simp add: accounted_def small_db_def small_tier_def held_sum_def)

definition small_held_world :: "ttl_store world" where
  "small_held_world = snd (create_hold ttl_api 0 0 ''h'' ''k'' ''u'' ''t'' 3 small_world)"

lemmas small_defs = small_tier_def small_db_def small_world_def

lemma small_create:
  "create_hold ttl_api 0 0 ''h'' ''k'' ''u'' ''t'' 3 small_world
     = (Inr (new_hold 0 ''h'' ''k'' ''u'' ''t'' 3), small_held_world)"
  by (simp add: small_held_world_def create_hold_eq small_defs rows_get_def Let_def
      active_holds_count_def rows_count_def quantity_available_def insertable_def pos_int_ok_def)

lemma small_held_db: "database small_held_world = set_held ''t'' 3 (add_hold (new_hold 0 ''h'' ''k'' ''u'' ''t'' 3) small_db)"
  by (simp add: small_held_world_def create_hold_eq small_defs rows_get_def Let_def
      active_holds_count_def rows_count_def quantity_available_def insertable_def pos_int_ok_def)

lemma small_held_inv: "checkout_inv (database small_held_world)"
  using create_step_inv [OF _ small_create] small_inv by (simp add: small_world_def)

section \<open>Properties of the services\<close>

text \<open>
  C4: \<open>create_hold\<close> on every branch. A tier that does not exist, a user with two active
  holds on the event, a quantity above what is available and a row the database refuses
  raise, in this order, and leave the world as it was; otherwise one active hold that
  expires 15 minutes later is added, the tier's held column grows by the quantity, and
  nothing else in the database changes.
\<close>

theorem create_hold_branches:
  "create_hold C t0 t1 hid tok uid tid q w =
     (case rows_get (\<lambda>t. tier_id t = tid) (tiers (database w)) of
        Inl e \<Rightarrow> (Inl e, w)
      | Inr tier \<Rightarrow>
          if 2 \<le> active_holds_count uid (tier_event tier) (database w) then (Inl HoldAbuseError, w)
          else if quantity_available tier < q
          then (Inl (InsufficientInventoryError (quantity_available tier) q), w)
          else if hid \<notin> hold_id ` set (holds (database w)) \<and> tok \<notin> hold_token ` set (holds (database w))
               \<and> q \<in> {0..2147483647} \<and> quantity_held tier + q \<in> {0..2147483647}
          then (let h = \<lparr>hold_id = hid, hold_token = tok, hold_user = uid, hold_tier = tid,
                         hold_quantity = q, hold_status = Active, hold_expires_at = t0 + 900000000\<rparr>
                in (Inr h,
                    \<lparr>database = (database w)\<lparr>
                       holds := holds (database w) @ [h],
                       tiers := map (\<lambda>t. if tier_id t = tid then t\<lparr>quantity_held := quantity_held tier + q\<rparr>
                                         else t) (tiers (database w))\<rparr>,
                     redis = invalidate_availability C tid
                       (push_hold_expiry C tok (t0 + 900000000)
                         (register_hold C t1 tok (hold_entry_of h) (redis w)))\<rparr>))
          else (Inl IntegrityError, w))"
  by (simp add: create_hold_eq Let_def insertable_def pos_int_ok_def new_hold_def hold_caches_def
      set_held_def add_hold_def rows_update_def minutes_def hold_duration_minutes_def
      split: sum.split)

text \<open>
  C1: Whatever sequence of holds, releases and sweeps runs, from a consistent database no
  tier promises more tickets than it has, every ticket an active hold asks for is set
  aside, and no user has more than two active holds on one event.
\<close>

theorem checkout_never_oversells:
  assumes "checkout_inv (database w)" and "checkout_reachable C w w'"
  shows "(\<forall>t\<in>set (tiers (database w')).
        held_sum (tier_id t) (database w') \<le> quantity_held t
      \<and> quantity_held t + quantity_sold t \<le> quantity_total t)
    \<and> active_holds_count uid ev (database w') \<le> 2
    \<and> checkout_inv (database w')"
proof -
  have "checkout_inv (database w')" using reachable_inv assms by blast
  then show ?thesis by (simp add: inv_row) (simp add: checkout_inv_def abuse_ok_def)
qed

theorem checkout_never_oversells_witness:
  "active_holds_count ''u'' ''e'' (database small_held_world) \<le> 2
    \<and> checkout_inv (database small_held_world)"
proof -
  have "checkout_reachable ttl_api small_world small_held_world"
    using reach_step [OF reach_refl step_create [OF small_create]] .
  then show ?thesis
    using checkout_never_oversells [of small_world ttl_api small_held_world "''u''" "''e''"] small_inv
    by (simp add: small_world_def)
qed

lemma set_held_twice: "tiers (set_held tid n (set_held tid m d)) = tiers (set_held tid n d)"
  by (simp add: set_held_def rows_update_def)

lemma set_held_tiers: "tiers d = tiers d' \<Longrightarrow> tiers (set_held tid n d) = tiers (set_held tid n d')"
  by (simp add: set_held_def)

lemma set_held_same:
  assumes "distinct (map tier_id (tiers d))" and "tier \<in> set (tiers d)" and "tier_id tier = tid"
  shows "tiers (set_held tid (quantity_held tier) d) = tiers d"
proof -
  have "t\<lparr>quantity_held := quantity_held tier\<rparr> = t" if "t \<in> set (tiers d)" "tier_id t = tid" for t
    using key_inj [OF assms(1) that(1) assms(2)] that assms(3) by simp
  then show ?thesis by (simp add: set_held_def rows_update_def map_idI)
qed

lemma rows_update_last:
  assumes "\<And>r. r \<in> set rs \<Longrightarrow> \<not> P r" and "P x"
  shows "rows_update P f (rs @ [x]) = rs @ [f x]"
proof -
  have "rows_update P f rs = rs" using assms(1) by (rule rows_update_none)
  with assms(2) show ?thesis by (simp add: rows_update_def)
qed

lemma release_created:
  assumes inv: "checkout_inv (database w)" and run: "create_hold C t0 t1 hid tok uid tid q w = (Inr h, w')"
  obtains w'' where "release_hold_by_token C tok w' = (Inr (), w'')"
    and "tiers (database w'') = tiers (database w)"
    and "holds (database w'') = holds (database w) @ [h\<lparr>hold_status := Released\<rparr>]"
  using run
proof (rule create_hold_success)
  fix tier :: ticket_tier
  let ?d = "database w" and ?n = "quantity_held tier + q"
  assume tier: "rows_get (\<lambda>t. tier_id t = tid) (tiers ?d) = Inr tier"
    and ins: "insertable h ?d" and h: "h = new_hold t0 hid tok uid tid q"
    and w': "database w' = set_held tid ?n (add_hold h ?d)"
  note row = rows_get_Inr_D [OF tier]
  have inv': "checkout_inv (database w')" using create_step_inv [OF inv run] .
  have keys: "db_keys ?d" "db_keys (database w')" using inv inv' by (simp_all add: checkout_inv_def)
  have h_in: "h \<in> set (holds (database w'))" by (simp add: w')
  from inv' show ?thesis
  proof (cases rule: release_hold_inv [of w' C tok])
    case None
    then show ?thesis using None(2) [OF h_in] h by simp
  next
    case (Some g u)
    have gh: "g = h"
      using Some(1,2) h_in h by (intro key_inj [OF db_keys_ids(3) [OF keys(2)]]) simp_all
    have "tier\<lparr>quantity_held := ?n\<rparr> \<in> set (tiers (database w'))"
      using row by (auto simp: w' mem_set_held)
    then have "u = tier\<lparr>quantity_held := ?n\<rparr>"
      using Some(4,5) row gh h by (intro key_inj [OF db_keys_ids(1) [OF keys(2)]]) simp_all
    then have held: "quantity_held u - hold_quantity g = quantity_held tier" using gh h by simp
    have "tiers (set_held tid (quantity_held tier) (set_hold_status hid Released (database w'))) = tiers ?d"
      using set_held_same [OF db_keys_ids(1) [OF keys(1)] row]
        set_held_tiers [of "set_hold_status hid Released (database w')" "set_held tid ?n ?d"]
        set_held_tiers [of "database w'" "set_held tid ?n ?d"] set_held_tiers [of "add_hold h ?d" ?d]
      by (simp add: w' set_held_twice)
    moreover have "holds (set_hold_status hid Released (database w')) = holds ?d @ [h\<lparr>hold_status := Released\<rparr>]"
    proof -
      have "\<And>r. r \<in> set (holds ?d) \<Longrightarrow> hold_id r \<noteq> hid" and "hold_id h = hid"
        using ins h by (auto simp: insertable_def)
      then show ?thesis by (simp add: set_hold_status_def w' rows_update_last)
    qed
    ultimately show ?thesis
      using Some(6) gh h held by (intro that [of "snd (release_hold_by_token C tok w')"]) simp_all
  qed
qed

lemma release_again:
  assumes "checkout_inv (database w)" and "release_hold_by_token C tok w = (r, w')"
  shows "release_hold_by_token C tok w' = (Inr (), w')"
proof -
  have inv': "checkout_inv (database w')" using release_step_inv [OF assms] .
  then have keys: "db_keys (database w')" by (simp add: checkout_inv_def)
  have gone: "hold_status g \<noteq> Active" if "g \<in> set (holds (database w'))" "hold_token g = tok" for g
    using assms(1)
  proof (cases rule: release_hold_inv [of w C tok])
    case None
    with that assms(2) show ?thesis by auto
  next
    case (Some h tier)
    have w': "holds (database w') = holds (set_hold_status (hold_id h) Released (database w))"
      using Some(6) assms(2) by simp
    then have "h\<lparr>hold_status := Released\<rparr> \<in> set (holds (database w'))"
      using Some(1) by (auto simp: mem_set_hold_status)
    then have "g = h\<lparr>hold_status := Released\<rparr>"
      using that Some(2) by (intro key_inj [OF db_keys_ids(3) [OF keys]]) simp_all
    then show ?thesis by simp
  qed
  show ?thesis
    using inv'
  proof (cases rule: release_hold_inv [of w' C tok])
    case None
    then show ?thesis by simp
  next
    case (Some h tier)
    with gone show ?thesis by blast
  qed
qed

text \<open>
  C16: Releasing a hold right after creating it gives every tier row back as it was and keeps
  the hold as released; releasing the token once more changes nothing.
\<close>

theorem release_undoes_create:
  assumes "checkout_inv (database w)" and "create_hold C t0 t1 hid tok uid tid q w = (Inr h, w')"
  shows "\<exists>w''. release_hold_by_token C tok w' = (Inr (), w'')
    \<and> tiers (database w'') = tiers (database w)
    \<and> holds (database w'') = holds (database w) @ [h\<lparr>hold_status := Released\<rparr>]
    \<and> release_hold_by_token C tok w'' = (Inr (), w'')"
  by (rule release_created [OF assms])
    (use release_again [OF create_step_inv [OF assms]] in blast)

theorem release_undoes_create_witness:
  "\<exists>w''. release_hold_by_token ttl_api ''k'' small_held_world = (Inr (), w'')
    \<and> tiers (database w'') = [small_tier]
    \<and> holds (database w'') = [(new_hold 0 ''h'' ''k'' ''u'' ''t'' 3)\<lparr>hold_status := Released\<rparr>]
    \<and> release_hold_by_token ttl_api ''k'' w'' = (Inr (), w'')"
  using release_undoes_create [OF _ small_create] small_inv by (simp add: small_world_def small_db_def)

section \<open>Properties of the sweep\<close>

text \<open>
  C10: From a consistent database a sweep never fails. It reports and expires exactly the
  active holds whose tokens it popped; but a tier gets back only the quantity of the last
  of its expired holds, because every update starts from the copy of the tier that was read
  before the loop.
\<close>

theorem sweep_exact:
  assumes "checkout_inv (database w)"
  shows "\<exists>w'. sweep_expired_holds C now w = (Inr (int (length (due_now C now w))), w')
    \<and> holds (database w') =
        map (\<lambda>h. if hold_token h \<in> set (sweep_tokens C now w) \<and> hold_status h = Active
                 then h\<lparr>hold_status := Expired\<rparr> else h) (holds (database w))
    \<and> tiers (database w') =
        map (\<lambda>t. case filter (\<lambda>h. hold_tier h = tier_id t) (due_now C now w) of
                   [] \<Rightarrow> t
                 | hs \<Rightarrow> t\<lparr>quantity_held := quantity_held t - hold_quantity (last hs)\<rparr>)
          (tiers (database w))
    \<and> checkout_inv (database w')"
proof -
  have "tier_after_sweep due =
      (\<lambda>t. case filter (\<lambda>h. hold_tier h = tier_id t) due of
             [] \<Rightarrow> t | hs \<Rightarrow> t\<lparr>quantity_held := quantity_held t - hold_quantity (last hs)\<rparr>)" for due
    by (auto simp: fun_eq_iff tier_after_sweep_def last_option_def split: list.split)
  moreover have "swept_hold toks = (\<lambda>h. if hold_token h \<in> set toks \<and> hold_status h = Active
      then h\<lparr>hold_status := Expired\<rparr> else h)" for toks
    by (simp add: fun_eq_iff swept_hold_def)
  ultimately have eqs: "\<And>toks. swept_hold toks = (\<lambda>h. if hold_token h \<in> set toks \<and> hold_status h = Active
      then h\<lparr>hold_status := Expired\<rparr> else h)"
    and eqt: "\<And>due. tier_after_sweep due =
      (\<lambda>t. case filter (\<lambda>h. hold_tier h = tier_id t) due of
             [] \<Rightarrow> t | hs \<Rightarrow> t\<lparr>quantity_held := quantity_held t - hold_quantity (last hs)\<rparr>)"
    by blast+
  obtain v where v: "sweep_expired_holds C now w = (Inr (int (length (due_now C now w))), v)"
    "holds (database v) = map (swept_hold (sweep_tokens C now w)) (holds (database w))"
    "tiers (database v) = map (tier_after_sweep (due_now C now w)) (tiers (database w))"
    "checkout_inv (database v)"
    by (rule sweep_ok [OF assms, of C now])
  show ?thesis by (intro exI [of _ v] conjI v(1) v(4) v(2) [unfolded eqs] v(3) [unfolded eqt])
qed

theorem sweep_exact_witness:
  "\<exists>w'. sweep_expired_holds ttl_api 900000000 small_held_world = (Inr 1, w')
    \<and> tiers (database w') = [small_tier]"
proof -
  have toks: "sweep_tokens ttl_api 900000000 small_held_world = [''k'']"
    by (simp add: sweep_tokens_def pop_expired_holds_def small_held_world_def create_hold_eq small_defs
        rows_get_def Let_def active_holds_count_def rows_count_def quantity_available_def insertable_def
        pos_int_ok_def hold_caches_def ttl_defs ttl_empty_def ttl_zrange_def push_hold_expiry_def
        register_hold_def invalidate_availability_def minutes_def hold_duration_minutes_def)
  have due: "due_now ttl_api 900000000 small_held_world = [new_hold 0 ''h'' ''k'' ''u'' ''t'' 3]"
    by (simp add: due_now_def toks due_holds_def small_held_db small_db_def)
  have tiers: "tiers (database small_held_world) = [small_tier\<lparr>quantity_held := 3\<rparr>]"
    by (simp add: small_held_db set_held_def small_db_def small_tier_def)
  show ?thesis
    using sweep_exact [OF small_held_inv, of ttl_api 900000000] by (auto simp: due tiers small_tier_def)
qed

text \<open>
  C15: When every ticket set aside belongs to an active hold, a sweep leaves a tier with as
  many tickets set aside for nobody as the expired holds of that tier other than the last
  had asked for. With at most one expired hold per tier nothing is lost; with more, seats
  stay unsellable for good.
\<close>

theorem sweep_loses_stock:
  assumes "checkout_inv (database w)" and "accounted (database w)" and "t \<in> set (tiers (database w))"
    and "sweep_expired_holds C now w = (r, w')"
  shows "tier_after_sweep (due_now C now w) t \<in> set (tiers (database w'))
    \<and> quantity_held (tier_after_sweep (due_now C now w) t) - held_sum (tier_id t) (database w')
        = sum_list (map hold_quantity
            (butlast (filter (\<lambda>h. hold_tier h = tier_id t) (due_now C now w))))"
proof (rule sweep_ok [OF assms(1), of C now])
  fix v
  assume run: "sweep_expired_holds C now w = (Inr (int (length (due_now C now w))), v)"
    and holds: "holds (database v) = map (swept_hold (sweep_tokens C now w)) (holds (database w))"
    and tiers: "tiers (database v) = map (tier_after_sweep (due_now C now w)) (tiers (database w))"
  from run assms(4) have [simp]: "v = w'" by simp
  have "held_sum (tier_id t) (database w') = held_sum (tier_id t) (database w)
      - sum_list (map hold_quantity (filter (\<lambda>h. hold_tier h = tier_id t) (due_now C now w)))"
    using holds held_sum_swept [of "tier_id t" "sweep_tokens C now w" "holds (database w)"]
    by (simp add: held_sum_def comp_def due_now_def due_holds_def)
  moreover have "held_sum (tier_id t) (database w) = quantity_held t"
    using assms(2,3) by (simp add: accounted_def)
  ultimately show ?thesis
    using tiers assms(3) by (simp add: tier_after_sweep_held)
qed

definition small_two_world :: "ttl_store world" where
  "small_two_world = snd (create_hold ttl_api 0 0 ''h2'' ''k2'' ''u'' ''t'' 4 small_held_world)"

lemma small_two_create:
  "create_hold ttl_api 0 0 ''h2'' ''k2'' ''u'' ''t'' 4 small_held_world
     = (Inr (new_hold 0 ''h2'' ''k2'' ''u'' ''t'' 4), small_two_world)"
  by (simp add: small_two_world_def create_hold_eq small_held_db set_held_def small_defs rows_get_def Let_def
      active_holds_count_def rows_count_def hold_in_event_def quantity_available_def insertable_def pos_int_ok_def)

lemma small_two_db:
  "database small_two_world = set_held ''t'' 7 (add_hold (new_hold 0 ''h2'' ''k2'' ''u'' ''t'' 4) (database small_held_world))"
  by (simp add: small_two_world_def create_hold_eq small_held_db set_held_def small_defs rows_get_def Let_def
      active_holds_count_def rows_count_def hold_in_event_def quantity_available_def insertable_def pos_int_ok_def)

lemma small_two_inv: "checkout_inv (database small_two_world)"
  using create_step_inv [OF small_held_inv small_two_create] .

lemma small_two_accounted: "accounted (database small_two_world)"
  by (simp add: accounted_def small_two_db small_held_db set_held_def small_defs held_sum_def active_qty_def)

theorem sweep_loses_stock_witness:
  "\<exists>t. t \<in> set (tiers (database (snd (sweep_expired_holds ttl_api 900000000 small_two_world))))
    \<and> quantity_held t - held_sum (tier_id t) (database (snd (sweep_expired_holds ttl_api 900000000 small_two_world))) = 3"
proof -
  let ?t = "small_tier\<lparr>quantity_held := 7\<rparr>"
  have red: "redis small_two_world = hold_caches ttl_api 0 (new_hold 0 ''h2'' ''k2'' ''u'' ''t'' 4)
      (hold_caches ttl_api 0 (new_hold 0 ''h'' ''k'' ''u'' ''t'' 3) ttl_empty)"
    using small_two_create small_create
    by (auto elim!: create_hold_success simp: small_world_def)
  have toks: "set (sweep_tokens ttl_api 900000000 small_two_world) = {''k'', ''k2''}"
    by (auto simp: sweep_tokens_def pop_expired_holds_def red hold_caches_def ttl_defs ttl_empty_def
        set_ttl_zrange push_hold_expiry_def
        register_hold_def invalidate_availability_def minutes_def hold_duration_minutes_def split: if_splits)
  have due: "due_now ttl_api 900000000 small_two_world
      = [new_hold 0 ''h'' ''k'' ''u'' ''t'' 3, new_hold 0 ''h2'' ''k2'' ''u'' ''t'' 4]"
    by (simp add: due_now_def toks due_holds_def small_two_db small_held_db small_db_def)
  have mem: "?t \<in> set (tiers (database small_two_world))"
    by (simp add: small_two_db small_held_db set_held_def small_db_def small_tier_def)
  let ?run = "sweep_expired_holds ttl_api 900000000 small_two_world"
  have "?run = (fst ?run, snd ?run)" by simp
  note lost = sweep_loses_stock [OF small_two_inv small_two_accounted mem this]
  have "tier_id (tier_after_sweep (due_now ttl_api 900000000 small_two_world) ?t) = tier_id ?t"
    by simp
  with lost show ?thesis
    by (intro exI [of _ "tier_after_sweep (due_now ttl_api 900000000 small_two_world) ?t"])
      (simp add: due small_tier_def)
qed

end
