(* ===== verification/TierApi.thy ===== *)
theory TierApi
  imports Tenancy CheckoutProps
begin

text \<open>
  \<open>inventory/serializers.py\<close> and the write requests of \<open>inventory/views.py\<close>: what an organizer
  can do to a tier over the API, and what that does to the stock. The framework's fields
  check a value against the options of the model column; a form holds the values they have
  parsed, texts without the white space around them.
\<close>

section \<open>The serializer\<close>

text \<open>The writable fields; \<open>None\<close> for one the request leaves out, which a PATCH may.\<close>

record tier_form =
  tf_event :: "uuid option"
  tf_name :: "string option"
  tf_description :: "string option"
  tf_price :: "rat option"
  tf_currency :: "string option"
  tf_quantity_total :: "int option"
  tf_max_per_order :: "int option"
  tf_sale_starts_at :: "instant option option"
  tf_sale_ends_at :: "instant option option"
  tf_is_active :: "bool option"
  tf_sort_order :: "int option"

definition if_given :: "('a \<Rightarrow> bool) \<Rightarrow> 'a option \<Rightarrow> bool" where
  "if_given P x = (case x of None \<Rightarrow> True | Some v \<Rightarrow> P v)"

text \<open>\<open>DecimalField(max_digits=10, decimal_places=2)\<close>, which may be negative.\<close>

definition price_ok :: "rat \<Rightarrow> bool" where
  "price_ok p \<longleftrightarrow> \<bar>p\<bar> < 10 ^ 8 \<and> of_int \<lfloor>p * 100\<rfloor> = p * 100"

definition tier_form_valid :: "db \<Rightarrow> tier_form \<Rightarrow> bool" where
  "tier_form_valid d f \<longleftrightarrow>
     if_given (\<lambda>e. list_ex (\<lambda>ev. ev_id ev = e) (events d)) (tf_event f)
     \<and> if_given (\<lambda>n. n \<noteq> [] \<and> char_length n \<le> 100) (tf_name f)
     \<and> if_given price_ok (tf_price f)
     \<and> if_given (\<lambda>c. c \<noteq> [] \<and> char_length c \<le> 3) (tf_currency f)
     \<and> if_given pos_int_ok (tf_quantity_total f) \<and> if_given pos_int_ok (tf_max_per_order f)
     \<and> if_given pos_int_ok (tf_sort_order f)"

text \<open>The fields without a default, which all but a PATCH must carry.\<close>

definition tier_form_complete :: "tier_form \<Rightarrow> bool" where
  "tier_form_complete f \<longleftrightarrow>
     tf_event f \<noteq> None \<and> tf_name f \<noteq> None \<and> tf_price f \<noteq> None \<and> tf_quantity_total f \<noteq> None"

definition apply_tier_form :: "tier_form \<Rightarrow> ticket_tier \<Rightarrow> ticket_tier" where
  "apply_tier_form f t =
     t\<lparr>tier_event := given (tf_event f) (tier_event t), tier_name := given (tf_name f) (tier_name t),
       tier_description := given (tf_description f) (tier_description t),
       tier_price := given (tf_price f) (tier_price t), tier_currency := given (tf_currency f) (tier_currency t),
       quantity_total := given (tf_quantity_total f) (quantity_total t),
       max_per_order := given (tf_max_per_order f) (max_per_order t),
       sale_starts_at := given (tf_sale_starts_at f) (sale_starts_at t),
       sale_ends_at := given (tf_sale_ends_at f) (sale_ends_at t),
       tier_is_active := given (tf_is_active f) (tier_is_active t),
       sort_order := given (tf_sort_order f) (sort_order t)\<rparr>"

definition blank_tier :: "uuid \<Rightarrow> ticket_tier" where
  "blank_tier tid =
     \<lparr>tier_id = tid, tier_event = [], tier_name = [], tier_description = [], tier_price = 0,
      tier_currency = ''KES'', quantity_total = 0, quantity_held = 0, quantity_sold = 0, max_per_order = 10,
      sale_starts_at = None, sale_ends_at = None, tier_is_active = True, sort_order = 0\<rparr>"

text \<open>
  What a reader is shown; \<open>dec\<close> and \<open>isofmt\<close> are how the framework writes decimals and
  instants. The two counters are not among it, only what is left of them.
\<close>

definition json_instant :: "(instant \<Rightarrow> string) \<Rightarrow> instant option \<Rightarrow> json" where
  "json_instant isofmt t = (case t of None \<Rightarrow> JNull | Some t \<Rightarrow> JStr (isofmt t))"

definition tier_representation :: "(rat \<Rightarrow> string) \<Rightarrow> (instant \<Rightarrow> string) \<Rightarrow> instant \<Rightarrow> ticket_tier \<Rightarrow> json" where
  "tier_representation dec isofmt now t =
     JObj [(''id'', JStr (tier_id t)), (''event'', JStr (tier_event t)), (''name'', JStr (tier_name t)),
       (''description'', JStr (tier_description t)), (''price'', JStr (dec (tier_price t))),
       (''currency'', JStr (tier_currency t)), (''quantity_total'', JInt (quantity_total t)),
       (''quantity_available'', JInt (quantity_available t)), (''max_per_order'', JInt (max_per_order t)),
       (''sale_starts_at'', json_instant isofmt (sale_starts_at t)), (''sale_ends_at'', json_instant isofmt (sale_ends_at t)),
       (''is_active'', JBool (tier_is_active t)), (''is_on_sale'', JBool (is_on_sale now t)),
       (''sort_order'', JInt (sort_order t))]"

section \<open>Requests\<close>

text \<open>
  \<open>event_id\<close> is the parameter of the query string, which the queryset reads in detail routes
  too. The instance that was looked up is saved with all its columns.
\<close>

definition tier_lookup :: "string option \<Rightarrow> uuid \<Rightarrow> db \<Rightarrow> ticket_tier option" where
  "tier_lookup event_id pk d = List.find (\<lambda>t. tier_id t = pk) (tier_queryset event_id d)"

definition save_tier :: "ticket_tier \<Rightarrow> db \<Rightarrow> db" where
  "save_tier t d = d\<lparr>tiers := rows_update (\<lambda>s. tier_id s = tier_id t) (\<lambda>_. t) (tiers d)\<rparr>"

definition tier_update :: "bool \<Rightarrow> user option \<Rightarrow> string option \<Rightarrow> uuid \<Rightarrow> tier_form \<Rightarrow> db \<Rightarrow> response \<times> db" where
  "tier_update partial u event_id pk f d =
     (case request_denied (tier_permissions (if partial then PartialUpdate else Update)) u of
        Some r \<Rightarrow> (r, d)
      | None \<Rightarrow>
          (case tier_lookup event_id pk d of
             None \<Rightarrow> (NotFound, d)
           | Some t \<Rightarrow>
               if \<not> (partial \<or> tier_form_complete f) \<or> \<not> tier_form_valid d f then (BadRequest, d)
               else (Ok, save_tier (apply_tier_form f t) d)))"

definition tier_create :: "user option \<Rightarrow> uuid \<Rightarrow> tier_form \<Rightarrow> db \<Rightarrow> response \<times> db" where
  "tier_create u tid f d =
     (case request_denied (tier_permissions Create) u of
        Some r \<Rightarrow> (r, d)
      | None \<Rightarrow>
          if \<not> tier_form_complete f \<or> \<not> tier_form_valid d f then (BadRequest, d)
          else if tid \<in> tier_id ` set (tiers d) then (ServerError, d)
          else (Created, d\<lparr>tiers := tiers d @ [apply_tier_form f (blank_tier tid)]\<rparr>))"

text \<open>
  The deletion of tiers: their holds go with them; a ticket of one of the tiers, or a payment
  or a ticket of one of the holds, protects them.
\<close>

definition tiers_protected :: "uuid list \<Rightarrow> db \<Rightarrow> bool" where
  "tiers_protected tids d \<longleftrightarrow>
     (let hs = map hold_id (filter (\<lambda>h. hold_tier h \<in> set tids) (holds d));
          is_one = (\<lambda>h. case h of None \<Rightarrow> False | Some h \<Rightarrow> h \<in> set hs)
      in list_ex (\<lambda>k. tk_tier k \<in> set tids \<or> is_one (tk_hold k)) (tickets d)
         \<or> list_ex (\<lambda>p. is_one (pay_hold p)) (payments d))"

definition drop_tiers :: "uuid list \<Rightarrow> db \<Rightarrow> db" where
  "drop_tiers tids d = d\<lparr>tiers := filter (\<lambda>t. tier_id t \<notin> set tids) (tiers d),
     holds := filter (\<lambda>h. hold_tier h \<notin> set tids) (holds d)\<rparr>"

definition tier_destroy :: "user option \<Rightarrow> string option \<Rightarrow> uuid \<Rightarrow> db \<Rightarrow> response \<times> db" where
  "tier_destroy u event_id pk d =
     (case request_denied (tier_permissions Destroy) u of
        Some r \<Rightarrow> (r, d)
      | None \<Rightarrow>
          (case tier_lookup event_id pk d of
             None \<Rightarrow> (NotFound, d)
           | Some t \<Rightarrow>
               if tiers_protected [pk] d then (ServerError, d) else (NoContent, drop_tiers [pk] d)))"

section \<open>What an edit does\<close>

lemma tier_lookup_SomeD:
  assumes "tier_lookup event_id pk d = Some t"
  shows "t \<in> set (tiers d)" and "tier_id t = pk" and "tier_is_active t"
  using assms
  by (auto simp: tier_lookup_def tier_queryset_def Let_def find_Some_iff split: option.splits if_splits
      dest!: arg_cong [of _ _ set] nth_mem)

lemma apply_tier_form_same [simp]:
  "tier_id (apply_tier_form f t) = tier_id t" "quantity_held (apply_tier_form f t) = quantity_held t"
  "quantity_sold (apply_tier_form f t) = quantity_sold t"
  "quantity_total (apply_tier_form f t) = given (tf_quantity_total f) (quantity_total t)"
  "tier_event (apply_tier_form f t) = given (tf_event f) (tier_event t)"
  by (simp_all add: apply_tier_form_def)

lemma save_tier_simps [simp]:
  "holds (save_tier t d) = holds d" "events (save_tier t d) = events d"
  "held_sum tid (save_tier t d) = held_sum tid d"
  by (simp_all add: save_tier_def held_sum_def)

lemma mem_save_tier: "s \<in> set (tiers (save_tier t d)) \<longleftrightarrow>
    (\<exists>r\<in>set (tiers d). s = (if tier_id r = tier_id t then t else r))"
  by (simp add: save_tier_def mem_rows_update)

lemma map_save_tier:
  assumes "distinct (map tier_id (tiers d))" and "t0 \<in> set (tiers d)" and "tier_id t = tier_id t0" and "g t = g t0"
  shows "map g (tiers (save_tier t d)) = map g (tiers d)"
proof -
  have "s = t0" if "s \<in> set (tiers d)" "tier_id s = tier_id t" for s
    using assms(1-3) that by (auto intro: key_inj)
  then show ?thesis using assms(4) by (auto simp: save_tier_def rows_update_def)
qed

lemma hold_in_event_keys:
  "hold_in_event ts ev h \<longleftrightarrow> (hold_tier h, ev) \<in> set (map (\<lambda>t. (tier_id t, tier_event t)) ts)"
  by (force simp: hold_in_event_def)

text \<open>A row is replaced by one with the same key, event and counters.\<close>

lemma save_tier_inv:
  assumes inv: "checkout_inv d" and row: "t0 \<in> set (tiers d)"
    and same: "tier_id t = tier_id t0" "tier_event t = tier_event t0" "quantity_held t = quantity_held t0"
      "quantity_sold t = quantity_sold t0"
  shows "checkout_inv (save_tier t d) \<longleftrightarrow> quantity_held t + quantity_sold t \<le> quantity_total t"
proof -
  have keys: "db_keys d" and stock: "stock_ok d" and cov: "covered d" and ab: "abuse_ok d"
    using inv by (simp_all add: checkout_inv_def)
  have ids: "map tier_id (tiers (save_tier t d)) = map tier_id (tiers d)"
    using keys row same(1) by (intro map_save_tier) (simp_all add: db_keys_ids)
  have the_row: "s = t0" if "s \<in> set (tiers d)" "tier_id s = tier_id t" for s
    using keys row same(1) that by (auto simp: db_keys_def intro: key_inj)
  have "tier_id ` set (tiers (save_tier t d)) = tier_id ` set (tiers d)"
    using arg_cong [OF ids, of set] by (simp only: set_map)
  then have "db_keys (save_tier t d)"
    using keys unfolding db_keys_def ids by simp
  moreover have "covered (save_tier t d)"
    unfolding covered_def
  proof
    fix s assume "s \<in> set (tiers (save_tier t d))"
    then obtain r where "r \<in> set (tiers d)" "tier_id s = tier_id r" "quantity_held s = quantity_held r"
      using same(3) the_row by (auto simp: mem_save_tier split: if_splits)
    then show "held_sum (tier_id s) (save_tier t d) \<le> quantity_held s"
      using cov by (simp add: covered_def)
  qed
  moreover have "map (\<lambda>t. (tier_id t, tier_event t)) (tiers (save_tier t d)) = map (\<lambda>t. (tier_id t, tier_event t)) (tiers d)"
    using keys row same(1,2) by (intro map_save_tier) (simp_all add: db_keys_ids)
  then have "abuse_ok (save_tier t d)"
    using ab by (simp add: abuse_ok_def active_holds_count_def hold_in_event_keys)
  moreover have "stock_ok (save_tier t d) \<longleftrightarrow> quantity_held t + quantity_sold t \<le> quantity_total t"
  proof
    have "t \<in> set (tiers (save_tier t d))" using row same(1) by (auto simp: mem_save_tier)
    then show "stock_ok (save_tier t d) \<Longrightarrow> quantity_held t + quantity_sold t \<le> quantity_total t"
      by (simp add: stock_ok_def)
    show "quantity_held t + quantity_sold t \<le> quantity_total t \<Longrightarrow> stock_ok (save_tier t d)"
      using stock row same(3,4) by (auto simp: stock_ok_def mem_save_tier)
  qed
  ultimately show ?thesis by (simp add: checkout_inv_def)
qed

lemma tier_update_OkD:
  assumes "tier_update partial u event_id pk f d = (Ok, d')"
  obtains t where "t \<in> set (tiers d)" and "tier_id t = pk" and "tier_is_active t" and "tier_form_valid d f"
    and "d' = save_tier (apply_tier_form f t) d"
    and "case u of None \<Rightarrow> False | Some v \<Rightarrow> u_role v = Organizer"
proof -
  have role: "user_role_value r = ''organizer'' \<longleftrightarrow> r = Organizer" for r by (cases r) simp_all
  show ?thesis
    using assms
    by (auto simp: tier_update_def request_denied_def tier_permissions_def role split: option.splits if_splits
        intro!: that dest: tier_lookup_SomeD)
qed

lemma tier_update_cases:
  "fst (tier_update partial u event_id pk f d) \<noteq> Ok \<and> snd (tier_update partial u event_id pk f d) = d
   \<or> fst (tier_update partial u event_id pk f d) = Ok
     \<and> (\<exists>t. tier_lookup event_id pk d = Some t
          \<and> snd (tier_update partial u event_id pk f d) = save_tier (apply_tier_form f t) d)"
  by (auto simp: tier_update_def request_denied_def split: option.split)

lemma sum_list_all_0: "(\<And>x. x \<in> set xs \<Longrightarrow> f x = (0::int)) \<Longrightarrow> sum_list (map f xs) = 0"
  by (induction xs) auto

lemma filter_filter_length_le: "(\<And>x. P x \<Longrightarrow> R x) \<Longrightarrow> length (filter P (filter Q xs)) \<le> length (filter R xs)"
  by (induction xs) auto

lemma add_tier_inv:
  assumes inv: "checkout_inv d" and new: "tier_id t \<notin> tier_id ` set (tiers d)"
    and zero: "quantity_held t = 0" "quantity_sold t = 0" "0 \<le> quantity_total t"
  shows "checkout_inv (d\<lparr>tiers := tiers d @ [t]\<rparr>)"
proof -
  let ?d = "d\<lparr>tiers := tiers d @ [t]\<rparr>"
  have keys: "db_keys d" and stock: "stock_ok d" and cov: "covered d" and ab: "abuse_ok d"
    using inv by (simp_all add: checkout_inv_def)
  have other: "hold_tier h \<noteq> tier_id t" if "h \<in> set (holds d)" for h
    using keys new that unfolding db_keys_def by metis
  have sums: "held_sum tid ?d = held_sum tid d" for tid by (simp add: held_sum_def)
  have "held_sum (tier_id t) d = 0"
    unfolding held_sum_def using other by (intro sum_list_all_0) (auto simp: active_qty_def)
  then have "covered ?d" using cov zero by (simp add: covered_def sums)
  moreover have "db_keys ?d" using keys new by (auto simp: db_keys_def)
  moreover have "stock_ok ?d" using stock zero by (simp add: stock_ok_def pos_int_ok_def)
  moreover have "filter (\<lambda>h. hold_user h = uid \<and> hold_in_event (tiers ?d) ev h \<and> hold_status h = Active) (holds d)
      = filter (\<lambda>h. hold_user h = uid \<and> hold_in_event (tiers d) ev h \<and> hold_status h = Active) (holds d)" for uid ev
    using other by (intro filter_cong) (fastforce simp: hold_in_event_def)+
  then have "abuse_ok ?d" using ab by (simp add: abuse_ok_def active_holds_count_def rows_count_def)
  ultimately show ?thesis by (simp add: checkout_inv_def)
qed

lemma drop_tiers_simps [simp]:
  "tiers (drop_tiers tids d) = filter (\<lambda>t. tier_id t \<notin> set tids) (tiers d)"
  "holds (drop_tiers tids d) = filter (\<lambda>h. hold_tier h \<notin> set tids) (holds d)"
  "payments (drop_tiers tids d) = payments d" "tickets (drop_tiers tids d) = tickets d"
  "audit_logs (drop_tiers tids d) = audit_logs d" "events (drop_tiers tids d) = events d"
  by (simp_all add: drop_tiers_def)

lemma drop_tiers_inv:
  assumes inv: "checkout_inv d"
  shows "checkout_inv (drop_tiers tids d)"
proof -
  have keys: "db_keys d" and stock: "stock_ok d" and cov: "covered d" and ab: "abuse_ok d"
    using inv by (simp_all add: checkout_inv_def)
  have "sum_list (map (active_qty tid) (filter (\<lambda>h. hold_tier h \<notin> set tids) hs)) = sum_list (map (active_qty tid) hs)"
    if "tid \<notin> set tids" for tid hs
    using that by (induction hs) (auto simp: active_qty_def)
  then have "covered (drop_tiers tids d)" using cov by (simp add: covered_def held_sum_def)
  moreover have "db_keys (drop_tiers tids d)" using keys by (auto simp: db_keys_def distinct_map_filter)
  moreover have "stock_ok (drop_tiers tids d)" using stock by (simp add: stock_ok_def)
  moreover have "active_holds_count uid ev (drop_tiers tids d) \<le> active_holds_count uid ev d" for uid ev
    unfolding active_holds_count_def rows_count_def drop_tiers_simps
    by (intro filter_filter_length_le) (auto simp: hold_in_event_def)
  then have "abuse_ok (drop_tiers tids d)" using ab unfolding abuse_ok_def by (meson le_trans)
  ultimately show ?thesis by (simp add: checkout_inv_def)
qed

text \<open>What is not protected leaves no reference behind.\<close>

lemma drop_tiers_refs:
  assumes "\<not> tiers_protected tids d"
  shows "k \<in> set (tickets d) \<Longrightarrow> tk_tier k \<notin> set tids"
    and "k \<in> set (tickets d) \<Longrightarrow> h \<in> set (holds d) \<Longrightarrow> tk_hold k = Some (hold_id h) \<Longrightarrow> h \<in> set (holds (drop_tiers tids d))"
    and "p \<in> set (payments d) \<Longrightarrow> h \<in> set (holds d) \<Longrightarrow> pay_hold p = Some (hold_id h) \<Longrightarrow> h \<in> set (holds (drop_tiers tids d))"
  using assms by (force simp: tiers_protected_def Let_def list_ex_iff)+

lemma tier_create_inv:
  assumes "checkout_inv d"
  shows "checkout_inv (snd (tier_create u tid f d))"
proof -
  have "snd (tier_create u tid f d) = d \<or> tid \<notin> tier_id ` set (tiers d) \<and> tier_form_valid d f \<and> tier_form_complete f
      \<and> snd (tier_create u tid f d) = d\<lparr>tiers := tiers d @ [apply_tier_form f (blank_tier tid)]\<rparr>"
    by (auto simp: tier_create_def split: option.split)
  moreover have "checkout_inv (d\<lparr>tiers := tiers d @ [apply_tier_form f (blank_tier tid)]\<rparr>)"
    if "tid \<notin> tier_id ` set (tiers d)" "tier_form_valid d f" "tier_form_complete f"
    using that by (intro add_tier_inv [OF assms]) (auto simp: blank_tier_def tier_form_valid_def
        tier_form_complete_def if_given_def pos_int_ok_def given_def split: option.splits)
  ultimately show ?thesis
    using assms by auto
qed

lemma tier_destroy_inv:
  assumes "checkout_inv d"
  shows "checkout_inv (snd (tier_destroy u event_id pk d))"
  using assms drop_tiers_inv [OF assms, of "[pk]"] by (auto simp: tier_destroy_def split: option.split)

section \<open>Properties\<close>

text \<open>
  C19: Editing a tier. A successful PATCH or PUT is by an organizer, whoever owns the event,
  and changes one active tier; neither its counters nor any hold. For an edit that leaves
  the event as it is, the checkout invariant survives exactly when the total stays at or
  above what is held and sold, which nothing checks.
\<close>

theorem tier_update_effect:
  assumes "tier_update partial u event_id pk f d = (Ok, d')" and "checkout_inv d"
  shows "\<exists>t\<in>set (tiers d). tier_id t = pk \<and> tier_is_active t
      \<and> d' = d\<lparr>tiers := map (\<lambda>s. if tier_id s = pk then apply_tier_form f t else s) (tiers d)\<rparr>
      \<and> quantity_held (apply_tier_form f t) = quantity_held t \<and> quantity_sold (apply_tier_form f t) = quantity_sold t
      \<and> (given (tf_event f) (tier_event t) = tier_event t \<longrightarrow>
           checkout_inv d' = (quantity_held t + quantity_sold t \<le> given (tf_quantity_total f) (quantity_total t)))"
  using assms(1)
proof (rule tier_update_OkD)
  fix t
  assume t: "t \<in> set (tiers d)" "tier_id t = pk" "tier_is_active t"
    and d': "d' = save_tier (apply_tier_form f t) d"
  have "checkout_inv d' = (quantity_held t + quantity_sold t \<le> given (tf_quantity_total f) (quantity_total t))"
    if "given (tf_event f) (tier_event t) = tier_event t"
    using save_tier_inv [OF assms(2) t(1), of "apply_tier_form f t"] that by (simp add: d')
  then show ?thesis
    using t by (intro bexI [of _ t]) (simp_all add: d' save_tier_def rows_update_def)
qed

definition no_tier_form :: tier_form where
  "no_tier_form = \<lparr>tf_event = None, tf_name = None, tf_description = None, tf_price = None, tf_currency = None,
     tf_quantity_total = None, tf_max_per_order = None, tf_sale_starts_at = None, tf_sale_ends_at = None,
     tf_is_active = None, tf_sort_order = None\<rparr>"

text \<open>Three of ten tickets are held; a stranger lowers the total to one.\<close>

theorem tier_update_effect_witness:
  "\<exists>d'. tier_update True (Some organizer_ann) None ''t'' (no_tier_form\<lparr>tf_quantity_total := Some 1\<rparr>)
        (database small_held_world) = (Ok, d') \<and> \<not> checkout_inv d'"
proof -
  let ?d = "database small_held_world" and ?f = "no_tier_form\<lparr>tf_quantity_total := Some 1\<rparr>"
  have ts: "tiers ?d = [small_tier\<lparr>quantity_held := 3\<rparr>]"
    by (simp add: small_held_db set_held_def small_db_def small_tier_def)
  obtain d' where run: "tier_update True (Some organizer_ann) None ''t'' ?f ?d = (Ok, d')"
    by (simp add: tier_update_def request_denied_def tier_permissions_def organizer_ann_def tier_lookup_def
        tier_queryset_def ts small_tier_def tier_form_valid_def if_given_def no_tier_form_def pos_int_ok_def)
  from tier_update_effect [OF run small_held_inv] have "\<not> checkout_inv d'"
    by (auto simp: ts small_tier_def no_tier_form_def given_def)
  with run show ?thesis by blast
qed

text \<open>
  Adding and removing tiers is safe. Whatever the request, the checkout invariant holds
  afterwards; and no payment or ticket is left without its tier or hold, because a tier that
  has any is not removed.
\<close>

theorem tier_create_destroy_safe:
  assumes "checkout_inv d"
  shows "checkout_inv (snd (tier_create u tid f d)) \<and> checkout_inv (snd (tier_destroy u event_id pk d))
    \<and> tickets (snd (tier_destroy u event_id pk d)) = tickets d
    \<and> (fst (tier_destroy u event_id pk d) = NoContent \<longrightarrow>
         (\<forall>k\<in>set (tickets d). tk_tier k \<noteq> pk
            \<and> (\<forall>h\<in>set (holds d). tk_hold k = Some (hold_id h) \<longrightarrow> h \<in> set (holds (snd (tier_destroy u event_id pk d))))))"
proof (intro conjI)
  let ?r = "tier_destroy u event_id pk d"
  show "checkout_inv (snd (tier_create u tid f d))" by (rule tier_create_inv [OF assms])
  show "checkout_inv (snd ?r)" by (rule tier_destroy_inv [OF assms])
  have destroyed: "fst ?r \<noteq> NoContent \<and> snd ?r = d \<or> \<not> tiers_protected [pk] d \<and> snd ?r = drop_tiers [pk] d"
    by (auto simp: tier_destroy_def request_denied_def split: option.split if_splits)
  then show "tickets (snd ?r) = tickets d" by auto
  show "fst ?r = NoContent \<longrightarrow> (\<forall>k\<in>set (tickets d). tk_tier k \<noteq> pk
        \<and> (\<forall>h\<in>set (holds d). tk_hold k = Some (hold_id h) \<longrightarrow> h \<in> set (holds (snd ?r))))"
    using destroyed drop_tiers_refs(1,2) [of "[pk]" d] by auto
qed

text \<open>A tier with an active hold and no payment yet is removed, and its hold with it.\<close>

theorem tier_create_destroy_safe_witness:
  "fst (tier_destroy (Some organizer_ann) None ''t'' (database small_held_world)) = NoContent
   \<and> checkout_inv (snd (tier_destroy (Some organizer_ann) None ''t'' (database small_held_world)))"
proof
  show "fst (tier_destroy (Some organizer_ann) None ''t'' (database small_held_world)) = NoContent"
    by (simp add: tier_destroy_def request_denied_def tier_permissions_def organizer_ann_def tier_lookup_def
        tier_queryset_def tiers_protected_def small_held_db set_held_def add_hold_def small_db_def small_tier_def rows_update_def)
  show "checkout_inv (snd (tier_destroy (Some organizer_ann) None ''t'' (database small_held_world)))"
    using tier_create_destroy_safe [OF small_held_inv, of "Some organizer_ann" "[]" no_tier_form None "''t''"] by blast
qed

end
