(* ===== verification/EventApi.thy ===== *)
theory EventApi
  imports TierApi
begin

text \<open>
  \<open>events/serializers.py\<close> and the write requests of \<open>OrganizerEventViewSet\<close>: changing and
  removing an event; the views of \<open>accounts/views.py\<close>; and what the serializers of events,
  companies, members and users show. \<open>url_ok\<close> is the framework's validator of URLs. The dates
  of an event have no table in \<open>db\<close>; the database removes them with their event.
\<close>

section \<open>Events\<close>

text \<open>
  The writable fields, \<open>company\<close> not among them, as the framework has parsed them: texts
  without the white space around them.
\<close>

record event_form =
  ef_title :: "string option"
  ef_description :: "string option"
  ef_venue_name :: "string option"
  ef_venue_address :: "string option"
  ef_capacity :: "int option"
  ef_status :: "event_status option"
  ef_cover_image_url :: "string option"
  ef_timezone :: "string option"

definition event_form_valid :: "(string \<Rightarrow> bool) \<Rightarrow> event_form \<Rightarrow> bool" where
  "event_form_valid url_ok f \<longleftrightarrow>
     if_given (\<lambda>s. s \<noteq> [] \<and> char_length s \<le> 300) (ef_title f) \<and> if_given (\<lambda>s. s \<noteq> [] \<and> char_length s \<le> 200) (ef_venue_name f)
     \<and> if_given pos_int_ok (ef_capacity f) \<and> if_given (\<lambda>s. s = [] \<or> url_ok s \<and> char_length s \<le> 200) (ef_cover_image_url f)
     \<and> if_given (\<lambda>s. s \<noteq> [] \<and> char_length s \<le> 50) (ef_timezone f)"

definition event_form_complete :: "event_form \<Rightarrow> bool" where
  "event_form_complete f \<longleftrightarrow> ef_title f \<noteq> None \<and> ef_venue_name f \<noteq> None"

definition apply_event_form :: "event_form \<Rightarrow> event \<Rightarrow> event" where
  "apply_event_form f e =
     e\<lparr>ev_title := given (ef_title f) (ev_title e), ev_description := given (ef_description f) (ev_description e),
       ev_venue_name := given (ef_venue_name f) (ev_venue_name e),
       ev_venue_address := given (ef_venue_address f) (ev_venue_address e),
       ev_capacity := given (ef_capacity f) (ev_capacity e), ev_status := given (ef_status f) (ev_status e),
       ev_cover_image_url := given (ef_cover_image_url f) (ev_cover_image_url e),
       ev_timezone := given (ef_timezone f) (ev_timezone e)\<rparr>"

definition event_lookup :: "user \<Rightarrow> uuid \<Rightarrow> db \<Rightarrow> event option" where
  "event_lookup u pk d = List.find (\<lambda>e. ev_id e = pk) (organizer_event_queryset u d)"

definition event_update ::
  "(string \<Rightarrow> bool) \<Rightarrow> bool \<Rightarrow> user option \<Rightarrow> uuid \<Rightarrow> event_form \<Rightarrow> db \<Rightarrow> response \<times> db" where
  "event_update url_ok partial u pk f d =
     (case request_denied organizer_event_permissions u of
        Some r \<Rightarrow> (r, d)
      | None \<Rightarrow>
          (case u of None \<Rightarrow> (Unauthorized, d) | Some v \<Rightarrow>
          (case event_lookup v pk d of
             None \<Rightarrow> (NotFound, d)
           | Some e \<Rightarrow>
               if \<not> (partial \<or> event_form_complete f) \<or> \<not> event_form_valid url_ok f then (BadRequest, d)
               else (Ok, d\<lparr>events := rows_update (\<lambda>e. ev_id e = pk) (\<lambda>_. apply_event_form f e) (events d)\<rparr>))))"

text \<open>The tiers of an event go with it, and their holds, unless a ticket or a payment protects one.\<close>

definition event_destroy :: "user option \<Rightarrow> uuid \<Rightarrow> db \<Rightarrow> response \<times> db" where
  "event_destroy u pk d =
     (case request_denied organizer_event_permissions u of
        Some r \<Rightarrow> (r, d)
      | None \<Rightarrow>
          (case u of None \<Rightarrow> (Unauthorized, d) | Some v \<Rightarrow>
          (case event_lookup v pk d of
             None \<Rightarrow> (NotFound, d)
           | Some e \<Rightarrow>
               let tids = map tier_id (filter (\<lambda>t. tier_event t = pk) (tiers d))
               in if tiers_protected tids d then (ServerError, d)
                  else (NoContent, (drop_tiers tids d)\<lparr>events := filter (\<lambda>e. ev_id e \<noteq> pk) (events d)\<rparr>))))"

section \<open>Accounts\<close>

text \<open>
  The registration view is open. For the unique column \<open>email\<close> the framework looks for the
  trimmed text of the request among the users; what the serializer does not catch is a server error.
\<close>

definition register_view :: "auth_env \<Rightarrow> uuid \<Rightarrow> form \<Rightarrow> db \<Rightarrow> response \<times> db" where
  "register_view E uid data d =
     (if list_ex (\<lambda>u. map_option py_strip (map_of data ''email'') = Some (u_email u)) (users d) then (BadRequest, d)
      else case register E uid data d of
        (Inr u, d') \<Rightarrow> (Created, d')
      | (Inl ValidationError, d') \<Rightarrow> (BadRequest, d')
      | (Inl _, d') \<Rightarrow> (ServerError, d'))"

text \<open>The profile view works on the user of the request, whatever the request says.\<close>

definition profile_update_view :: "auth_env \<Rightarrow> user option \<Rightarrow> form \<Rightarrow> db \<Rightarrow> response \<times> db" where
  "profile_update_view E u data d =
     (case request_denied [IsAuthenticated] u of
        Some r \<Rightarrow> (r, d)
      | None \<Rightarrow>
          (case u of None \<Rightarrow> (Unauthorized, d) | Some v \<Rightarrow>
          (case update_profile E (u_id v) data d of
             (Inr _, d') \<Rightarrow> (Ok, d')
           | (Inl ValidationError, d') \<Rightarrow> (BadRequest, d')
           | (Inl _, d') \<Rightarrow> (ServerError, d'))))"

section \<open>What is shown\<close>

record event_date =
  ed_id :: uuid
  start_datetime :: instant
  end_datetime :: instant
  doors_open :: "instant option"
  ed_label :: string

definition event_date_representation :: "(instant \<Rightarrow> string) \<Rightarrow> event_date \<Rightarrow> json" where
  "event_date_representation isofmt x =
     JObj [(''id'', JStr (ed_id x)), (''start_datetime'', JStr (isofmt (start_datetime x))),
       (''end_datetime'', JStr (isofmt (end_datetime x))), (''doors_open'', json_instant isofmt (doors_open x)),
       (''label'', JStr (ed_label x))]"

fun event_status_value :: "event_status \<Rightarrow> string" where
  "event_status_value Draft = ''draft''"
| "event_status_value Published = ''published''"
| "event_status_value EventCancelled = ''cancelled''"
| "event_status_value Completed = ''completed''"

text \<open>The dates and the time of creation are looked up beside the row.\<close>

definition event_representation :: "(instant \<Rightarrow> string) \<Rightarrow> event_date list \<Rightarrow> instant \<Rightarrow> event \<Rightarrow> json" where
  "event_representation isofmt dates created e =
     JObj [(''id'', JStr (ev_id e)), (''company'', JStr (ev_company e)), (''title'', JStr (ev_title e)),
       (''description'', JStr (ev_description e)), (''venue_name'', JStr (ev_venue_name e)),
       (''venue_address'', JStr (ev_venue_address e)), (''capacity'', JInt (ev_capacity e)),
       (''status'', JStr (event_status_value (ev_status e))), (''cover_image_url'', JStr (ev_cover_image_url e)),
       (''timezone'', JStr (ev_timezone e)), (''dates'', JList (map (event_date_representation isofmt) dates)),
       (''created_at'', JStr (isofmt created))]"

definition profile_representation :: "(instant \<Rightarrow> string) \<Rightarrow> instant \<Rightarrow> user \<Rightarrow> json" where
  "profile_representation isofmt created u =
     JObj [(''id'', JStr (u_id u)), (''email'', JStr (u_email u)), (''first_name'', JStr (u_first_name u)),
       (''last_name'', JStr (u_last_name u)), (''role'', JStr (user_role_value (u_role u))),
       (''email_verified'', JBool (u_email_verified u)), (''created_at'', JStr (isofmt created))]"

fun member_role_value :: "member_role \<Rightarrow> string" where
  "member_role_value MemberOwner = ''owner''"
| "member_role_value MemberManager = ''manager''"
| "member_role_value MemberStaff = ''staff''"

text \<open>\<open>source='user.email'\<close> follows the reference of the membership.\<close>

definition member_representation :: "(instant \<Rightarrow> string) \<Rightarrow> uuid \<Rightarrow> instant \<Rightarrow> db \<Rightarrow> member \<Rightarrow> json option" where
  "member_representation isofmt mid joined d m =
     (case List.find (\<lambda>u. u_id u = mem_user m) (users d) of
        None \<Rightarrow> None
      | Some u \<Rightarrow>
          Some (JObj [(''id'', JStr mid), (''user_email'', JStr (u_email u)),
            (''role'', JStr (member_role_value (mem_role m))), (''joined_at'', JStr (isofmt joined))]))"

section \<open>Lemmas\<close>

text \<open>The user is an organizer and owns the company of the event.\<close>

definition owns_event :: "user option \<Rightarrow> db \<Rightarrow> event \<Rightarrow> bool" where
  "owns_event u d e \<longleftrightarrow>
     (case u of
        None \<Rightarrow> False
      | Some v \<Rightarrow> u_role v = Organizer \<and> list_ex (\<lambda>c. co_id c = ev_company e \<and> co_owner c = u_id v) (companies d))"

lemma event_lookup_SomeD:
  assumes "event_lookup v pk d = Some e"
  shows "e \<in> set (events d)" and "ev_id e = pk" and "list_ex (\<lambda>c. co_id c = ev_company e \<and> co_owner c = u_id v) (companies d)"
proof -
  have "e \<in> set (organizer_event_queryset v d) \<and> ev_id e = pk"
    using assms by (auto simp: event_lookup_def find_Some_iff)
  then show "e \<in> set (events d)" "ev_id e = pk" "list_ex (\<lambda>c. co_id c = ev_company e \<and> co_owner c = u_id v) (companies d)"
    by (auto simp: organizer_event_queryset_def list_ex_iff)
qed

lemma apply_event_form_same [simp]:
  "ev_id (apply_event_form f e) = ev_id e" "ev_company (apply_event_form f e) = ev_company e"
  "ev_status (apply_event_form f e) = given (ef_status f) (ev_status e)"
  by (simp_all add: apply_event_form_def)

lemma organizer_permitted:
  "request_denied organizer_event_permissions u = None \<Longrightarrow> \<exists>v. u = Some v \<and> u_role v = Organizer"
proof -
  have role: "user_role_value r = ''organizer'' \<longleftrightarrow> r = Organizer" for r by (cases r) simp_all
  show "request_denied organizer_event_permissions u = None \<Longrightarrow> \<exists>v. u = Some v \<and> u_role v = Organizer"
    by (cases u) (auto simp: request_denied_def organizer_event_permissions_def role split: if_splits)
qed

lemma event_update_cases:
  obtains (Refused) "fst (event_update url_ok partial u pk f d) \<noteq> Ok" "snd (event_update url_ok partial u pk f d) = d"
  | (Saved) e where "fst (event_update url_ok partial u pk f d) = Ok" "e \<in> set (events d)" "ev_id e = pk" "owns_event u d e"
      "snd (event_update url_ok partial u pk f d)
         = d\<lparr>events := rows_update (\<lambda>e. ev_id e = pk) (\<lambda>_. apply_event_form f e) (events d)\<rparr>"
proof (cases "request_denied organizer_event_permissions u")
  case (Some r)
  then have "r \<noteq> Ok" by (auto simp: request_denied_def split: if_splits)
  with Some show ?thesis by (intro Refused) (simp_all add: event_update_def)
next
  case None
  then obtain v where v: "u = Some v" "u_role v = Organizer" using organizer_permitted by blast
  show ?thesis
  proof (cases "event_lookup v pk d")
    case None': None
    show ?thesis by (rule Refused) (simp_all add: event_update_def None [unfolded v(1)] v None')
  next
    case (Some e)
    note e = event_lookup_SomeD [OF Some]
    have own: "owns_event u d e" using e v by (simp add: owns_event_def)
    note step = event_update_def None [unfolded v(1)] v Some
    show ?thesis
    proof (cases "\<not> (partial \<or> event_form_complete f) \<or> \<not> event_form_valid url_ok f")
      case True
      show ?thesis by (rule Refused) (use True in \<open>simp_all add: step\<close>)
    next
      case False
      show ?thesis by (rule Saved [OF _ e(1,2) own]) (use False in \<open>simp_all add: step\<close>)
    qed
  qed
qed

lemma event_destroy_cases:
  obtains (Refused) "fst (event_destroy u pk d) \<noteq> NoContent" "snd (event_destroy u pk d) = d"
  | (Removed) tids e where "fst (event_destroy u pk d) = NoContent" "e \<in> set (events d)" "ev_id e = pk" "owns_event u d e"
      "tids = map tier_id (filter (\<lambda>t. tier_event t = pk) (tiers d))" "\<not> tiers_protected tids d"
      "snd (event_destroy u pk d) = (drop_tiers tids d)\<lparr>events := filter (\<lambda>e. ev_id e \<noteq> pk) (events d)\<rparr>"
proof (cases "request_denied organizer_event_permissions u")
  case (Some r)
  then have "r \<noteq> NoContent" by (auto simp: request_denied_def split: if_splits)
  with Some show ?thesis by (intro Refused) (simp_all add: event_destroy_def)
next
  case None
  then obtain v where v: "u = Some v" "u_role v = Organizer" using organizer_permitted by blast
  let ?tids = "map tier_id (filter (\<lambda>t. tier_event t = pk) (tiers d))"
  show ?thesis
  proof (cases "event_lookup v pk d")
    case None': None
    show ?thesis by (rule Refused) (simp_all add: event_destroy_def None [unfolded v(1)] v None')
  next
    case (Some e)
    note e = event_lookup_SomeD [OF Some]
    have own: "owns_event u d e" using e v by (simp add: owns_event_def)
    note step = event_destroy_def None [unfolded v(1)] v Some Let_def
    show ?thesis
    proof (cases "tiers_protected ?tids d")
      case True
      show ?thesis by (rule Refused) (use True in \<open>simp_all add: step\<close>)
    next
      case False
      show ?thesis by (rule Removed [OF _ e(1,2) own refl False]) (use False in \<open>simp_all add: step\<close>)
    qed
  qed
qed

lemma checkout_inv_events [simp]: "checkout_inv (d\<lparr>events := es\<rparr>) = checkout_inv d"
  by (simp add: inv_defs held_sum_def active_holds_count_def)

lemma event_writes_inv:
  assumes "checkout_inv d"
  shows "checkout_inv (snd (event_update url_ok partial u pk f d))" and "checkout_inv (snd (event_destroy u pk d))"
proof -
  show "checkout_inv (snd (event_update url_ok partial u pk f d))"
    by (cases rule: event_update_cases [of url_ok partial u pk f d]) (use assms in simp_all)
  show "checkout_inv (snd (event_destroy u pk d))"
    by (cases rule: event_destroy_cases [of u pk d]) (use assms drop_tiers_inv in simp_all)
qed

section \<open>Property\<close>

text \<open>
  C18: A request to change or remove an event stays inside the company. Whatever a user sends
  to these two, an event of a company the user does not own is there afterwards as it was,
  with its tiers and their holds; no event changes its company; no payment or ticket goes,
  every tier and hold a ticket refers to is still there, and every hold a payment refers to;
  and the checkout invariant holds on. The requests that write tiers are not
  among these: they check no company (\<open>TierApi\<close>).
\<close>

theorem event_writes_tenant_scoped:
  assumes "checkout_inv d" and "distinct (map ev_id (events d))" and "e \<in> set (events d)" and "\<not> owns_event u d e"
    and "d' \<in> {snd (event_update url_ok partial u pk f d), snd (event_destroy u pk d)}"
  shows "e \<in> set (events d') \<and> checkout_inv d'
    \<and> filter (\<lambda>t. tier_event t = ev_id e) (tiers d') = filter (\<lambda>t. tier_event t = ev_id e) (tiers d)
    \<and> filter (hold_in_event (tiers d) (ev_id e)) (holds d') = filter (hold_in_event (tiers d) (ev_id e)) (holds d)
    \<and> (\<forall>x\<in>set (events d'). \<exists>y\<in>set (events d). ev_id y = ev_id x \<and> ev_company y = ev_company x)
    \<and> payments d' = payments d \<and> tickets d' = tickets d
    \<and> (\<forall>k\<in>set (tickets d). tk_tier k \<in> tier_id ` set (tiers d) \<longrightarrow> tk_tier k \<in> tier_id ` set (tiers d'))
    \<and> (\<forall>k\<in>set (tickets d). \<forall>h\<in>set (holds d). tk_hold k = Some (hold_id h) \<longrightarrow> h \<in> set (holds d'))
    \<and> (\<forall>p\<in>set (payments d). \<forall>h\<in>set (holds d). pay_hold p = Some (hold_id h) \<longrightarrow> h \<in> set (holds d'))"
proof -
  have keys: "db_keys d" using assms(1) by (simp add: checkout_inv_def)
  have mine: "ev_id x \<noteq> ev_id e" if "x \<in> set (events d)" "owns_event u d x" for x
    using that assms(2-4) key_inj [of ev_id "events d"] by metis
  from assms(5) show ?thesis
  proof (elim insertE)
    assume d': "d' = snd (event_update url_ok partial u pk f d)"
    show ?thesis
    proof (cases rule: event_update_cases [of url_ok partial u pk f d])
      case Refused
      with assms show ?thesis by (auto simp: d')
    next
      case (Saved x)
      have "e \<in> set (events d')"
        using mine [OF Saved(2,4)] assms(3) Saved(3) by (auto simp: d' Saved(5) mem_rows_update intro!: bexI [of _ e])
      moreover have "\<forall>x\<in>set (events d'). \<exists>y\<in>set (events d). ev_id y = ev_id x \<and> ev_company y = ev_company x"
      proof
        fix y assume "y \<in> set (events d')"
        then obtain z where "z \<in> set (events d)" "y = (if ev_id z = pk then apply_event_form f x else z)"
          by (auto simp: d' Saved(5) mem_rows_update)
        with Saved(2,3) show "\<exists>y'\<in>set (events d). ev_id y' = ev_id y \<and> ev_company y' = ev_company y"
          by (cases "ev_id z = pk") auto
      qed
      ultimately show ?thesis using assms(1) by (simp add: d' Saved(5))
    qed
  next
    assume d': "d' = snd (event_destroy u pk d)"
    show ?thesis
    proof (cases rule: event_destroy_cases [of u pk d])
      case Refused
      with assms show ?thesis by (auto simp: d')
    next
      case (Removed tids x)
      have other: "tier_id t \<notin> set tids" if "t \<in> set (tiers d)" "tier_event t = ev_id e" for t
        using that mine [OF Removed(2,4)] Removed(3) key_inj [OF db_keys_ids(1) [OF keys]] by (force simp: Removed(5))
      have "filter (\<lambda>t. tier_event t = ev_id e) (tiers d') = filter (\<lambda>t. tier_event t = ev_id e) (tiers d)"
        using other by (auto simp: d' Removed(7) intro!: filter_cong)
      moreover have "hold_tier h \<notin> set tids" if "hold_in_event (tiers d) (ev_id e) h" for h
        using that other unfolding hold_in_event_def by metis
      then have "filter (hold_in_event (tiers d) (ev_id e)) (holds d') = filter (hold_in_event (tiers d) (ev_id e)) (holds d)"
        by (auto simp: d' Removed(7) intro!: filter_cong)
      moreover have "e \<in> set (events d')" using mine [OF Removed(2,4)] assms(3) Removed(3) by (simp add: d' Removed(7))
      moreover have "\<forall>k\<in>set (tickets d). \<forall>h\<in>set (holds d). tk_hold k = Some (hold_id h) \<longrightarrow> h \<in> set (holds d')"
        "\<forall>p\<in>set (payments d). \<forall>h\<in>set (holds d). pay_hold p = Some (hold_id h) \<longrightarrow> h \<in> set (holds d')"
        using drop_tiers_refs(2,3) [OF Removed(6)] by (simp_all add: d' Removed(7))
      moreover have "\<forall>k\<in>set (tickets d). tk_tier k \<in> tier_id ` set (tiers d) \<longrightarrow> tk_tier k \<in> tier_id ` set (tiers d')"
      proof (intro ballI impI)
        fix k assume k: "k \<in> set (tickets d)" and "tk_tier k \<in> tier_id ` set (tiers d)"
        then obtain t where "t \<in> set (tiers d)" "tier_id t = tk_tier k" by auto
        with drop_tiers_refs(1) [OF Removed(6) k] have "t \<in> set (tiers d')" by (simp add: d' Removed(7))
        with \<open>tier_id t = tk_tier k\<close> show "tk_tier k \<in> tier_id ` set (tiers d')" by force
      qed
      ultimately show ?thesis using drop_tiers_inv [OF assms(1)] by (auto simp: d' Removed(7))
    qed
  qed simp
qed

text \<open>Ann removes an event of her own; the one of another company stays.\<close>

definition sample_event :: "uuid \<Rightarrow> uuid \<Rightarrow> event" where
  "sample_event eid cid = \<lparr>ev_id = eid, ev_company = cid, ev_title = ''Gig'', ev_description = [], ev_venue_name = ''Hall'',
     ev_venue_address = [], ev_capacity = 0, ev_status = Draft, ev_cover_image_url = [], ev_timezone = ''Africa/Nairobi''\<rparr>"

definition two_companies_db :: db where
  "two_companies_db = no_rows\<lparr>
     companies := [company_create_row ''c'' organizer_ann ''C'' no_form,
       company_create_row ''c2'' (organizer_ann\<lparr>u_id := ''bob''\<rparr>) ''D'' no_form],
     events := [sample_event ''e'' ''c'', sample_event ''e2'' ''c2'']\<rparr>"

theorem event_writes_tenant_scoped_witness:
  "fst (event_destroy (Some organizer_ann) ''e'' two_companies_db) = NoContent
   \<and> sample_event ''e2'' ''c2'' \<in> set (events (snd (event_destroy (Some organizer_ann) ''e'' two_companies_db)))"
proof
  note rows = two_companies_db_def no_rows_def company_create_row_def sample_event_def organizer_ann_def
  show "fst (event_destroy (Some organizer_ann) ''e'' two_companies_db) = NoContent"
    by (simp add: event_destroy_def event_lookup_def organizer_event_queryset_def request_denied_def
        organizer_event_permissions_def tiers_protected_def rows)
  have inv: "checkout_inv two_companies_db" and ids: "distinct (map ev_id (events two_companies_db))"
    and e: "sample_event ''e2'' ''c2'' \<in> set (events two_companies_db)"
    and foreign: "\<not> owns_event (Some organizer_ann) two_companies_db (sample_event ''e2'' ''c2'')"
    by (simp_all add: rows inv_defs active_holds_count_def rows_count_def owns_event_def)
  have "snd (event_destroy (Some organizer_ann) ''e'' two_companies_db) \<in>
      {snd (event_update (\<lambda>_. True) True (Some organizer_ann) ''e'' undefined two_companies_db),
       snd (event_destroy (Some organizer_ann) ''e'' two_companies_db)}" by simp
  from event_writes_tenant_scoped [OF inv ids e foreign this]
  show "sample_event ''e2'' ''c2'' \<in> set (events (snd (event_destroy (Some organizer_ann) ''e'' two_companies_db)))"
    by blast
qed

end
