(* ===== verification/SlugIndex.thy ===== *)
theory SlugIndex
  imports Models CacheApi
begin

text \<open>
  \<open>companies/slug_index.py\<close>: the index from slug to company, kept in the cache for an hour,
  with the database behind it.
\<close>

section \<open>The index\<close>

definition slug_key :: "string \<Rightarrow> string" where
  "slug_key slug = ''company_slug:'' @ slug"

definition slug_cache_ttl :: int where
  "slug_cache_ttl = 3600"

text \<open>\<open>cache.set(cache_key, str(company.id), SLUG_CACHE_TTL)\<close>\<close>

definition slug_store :: "'c cache_api \<Rightarrow> instant \<Rightarrow> string \<Rightarrow> uuid \<Rightarrow> 'c \<Rightarrow> 'c" where
  "slug_store C t slug cid c = c_set C c t (slug_key slug) (CStr cid) slug_cache_ttl"

text \<open>\<open>t0\<close> is the clock at the lookup, \<open>t1\<close> at the write after a miss.\<close>

definition get_company_id_by_slug ::
  "'c cache_api \<Rightarrow> instant \<Rightarrow> instant \<Rightarrow> string \<Rightarrow> ('c world, cval option) prog" where
  "get_company_id_by_slug C t0 t1 slug w =
     (case c_get C (redis w) t0 (slug_key slug) of
        Some v \<Rightarrow> ret (Some v) w
      | None \<Rightarrow>
          (case rows_get (\<lambda>co. co_slug co = slug \<and> co_is_active co) (companies (database w)) of
             Inl DoesNotExist \<Rightarrow> ret None w
           | Inl e \<Rightarrow> throw e w
           | Inr co \<Rightarrow> ret (Some (CStr (co_id co))) (with_redis (slug_store C t1 slug (co_id co)) w)))"

definition invalidate_slug :: "'c cache_api \<Rightarrow> string \<Rightarrow> 'c \<Rightarrow> 'c" where
  "invalidate_slug C slug c = c_delete C c (slug_key slug)"

text \<open>The loop over the active companies, all written at the instant \<open>t\<close>.\<close>

definition warm_slug_cache :: "'c cache_api \<Rightarrow> instant \<Rightarrow> 'c world \<Rightarrow> int \<times> 'c world" where
  "warm_slug_cache C t w =
     (let active = filter co_is_active (companies (database w))
      in (int (length active),
          with_redis (\<lambda>c. foldl (\<lambda>c co. slug_store C t (co_slug co) (co_id co) c) c active) w))"

section \<open>Lookups\<close>

text \<open>What the database says: the id of the one active company with the slug.\<close>

definition slug_truth :: "db \<Rightarrow> string \<Rightarrow> cval option result" where
  "slug_truth d slug =
     (case rows_get (\<lambda>co. co_slug co = slug \<and> co_is_active co) (companies d) of
        Inl DoesNotExist \<Rightarrow> Inr None
      | Inl e \<Rightarrow> Inl e
      | Inr co \<Rightarrow> Inr (Some (CStr (co_id co))))"

definition str_of_cval :: "cval option \<Rightarrow> string option" where
  "str_of_cval v = (case v of Some (CStr s) \<Rightarrow> Some s | _ \<Rightarrow> None)"

sublocale django_cache \<subseteq> slugs: ttl_registry_drop
    "\<lambda>t slug cid. slug_store C t slug cid" "\<lambda>c t slug. str_of_cval (c_get C c t (slug_key slug))"
    "\<lambda>_ _. slug_cache_ttl" "\<lambda>_. True" "\<lambda>slug. invalidate_slug C slug"
  by unfold_locales
    (auto simp: slug_store_def slug_key_def slug_cache_ttl_def str_of_cval_def invalidate_slug_def
      get_simps get_set_live get_set_dead not_less)

lemma lookup_miss:
  "c_get C (redis w) t0 (slug_key slug) = None \<Longrightarrow>
   fst (get_company_id_by_slug C t0 t1 slug w) = slug_truth (database w) slug"
  by (simp add: get_company_id_by_slug_def slug_truth_def ret_def throw_def split: sum.split exn.split)

lemma lookup_hit:
  "c_get C (redis w) t0 (slug_key slug) = Some v \<Longrightarrow>
   get_company_id_by_slug C t0 t1 slug w = (Inr (Some v), w)"
  by (simp add: get_company_id_by_slug_def ret_def)

lemma lookup_database: "database (snd (get_company_id_by_slug C t0 t1 slug w)) = database w"
  by (simp add: get_company_id_by_slug_def ret_def throw_def split: option.split sum.split exn.split)

context django_cache
begin

lemma slug_stored_get:
  "t \<le> t' \<Longrightarrow> c_get C (slug_store C t slug cid c) t' (slug_key slug) =
     (if t' < t + usecs slug_cache_ttl then Some (CStr cid) else None)"
  by (cases "t' < t + usecs slug_cache_ttl")
    (simp_all add: slug_store_def slug_cache_ttl_def get_set_live get_set_dead)

lemma slug_stored_other:
  "slug' \<noteq> slug \<Longrightarrow> c_get C (slug_store C t slug cid c) t' (slug_key slug') = c_get C c t' (slug_key slug')"
  by (simp add: slug_store_def slug_key_def get_set_other)

lemma slug_invalidated_get: "c_get C (invalidate_slug C slug c) t (slug_key slug) = None"
  by (simp add: invalidate_slug_def get_delete)

lemma warm_get:
  assumes "distinct (map co_slug active)" and "co \<in> set active" and "t \<le> t'" and "t' < t + usecs slug_cache_ttl"
  shows "c_get C (foldl (\<lambda>c co. slug_store C t (co_slug co) (co_id co) c) c active) t' (slug_key (co_slug co))
    = Some (CStr (co_id co))"
  using assms
proof (induction active rule: rev_induct)
  case (snoc x active)
  then show ?case
    by (cases "co = x") (auto simp: slug_stored_get slug_stored_other image_iff)
qed simp

end

section \<open>Properties\<close>

text \<open>
  C36: The index can be an hour behind. A slug that was resolved through the database at
  \<open>t\<close> keeps resolving to that company for an hour, whatever happens to the database; an
  invalidation, and the end of the hour, bring the answer of the database back.
\<close>

theorem slug_index_staleness:
  assumes "django_cache C" and "c_get C (redis w) t (slug_key slug) = None"
    and "slug_truth (database w) slug = Inr (Some (CStr cid))" and "t \<le> t'"
    and "redis w' = redis (snd (get_company_id_by_slug C t t slug w))"
  shows "fst (get_company_id_by_slug C t t slug w) = Inr (Some (CStr cid))
    \<and> fst (get_company_id_by_slug C t' t1 slug w') =
        (if t' < t + 3600000000 then Inr (Some (CStr cid)) else slug_truth (database w') slug)
    \<and> fst (get_company_id_by_slug C t' t1 slug (with_redis (invalidate_slug C slug) w'))
        = slug_truth (database w') slug"
proof -
  obtain co where "rows_get (\<lambda>co. co_slug co = slug \<and> co_is_active co) (companies (database w)) = Inr co"
    "co_id co = cid"
    using assms(3) by (auto simp: slug_truth_def split: sum.splits exn.splits)
  then have w': "redis w' = slug_store C t slug cid (redis w)"
    using assms(2,5) by (simp add: get_company_id_by_slug_def ret_def)
  have "c_get C (redis w') t' (slug_key slug) = (if t' < t + 3600000000 then Some (CStr cid) else None)"
    using django_cache.slug_stored_get [OF assms(1,4)] by (simp add: w' slug_cache_ttl_def)
  moreover have "c_get C (invalidate_slug C slug (redis w')) t' (slug_key slug) = None"
    by (rule django_cache.slug_invalidated_get [OF assms(1)])
  moreover have "fst (get_company_id_by_slug C t t slug w) = slug_truth (database w) slug"
    by (rule lookup_miss [OF assms(2)])
  ultimately show ?thesis
    using assms(3) lookup_miss [of C w' t' slug t1] lookup_hit [of C w' t' slug _ t1]
      lookup_miss [of C "with_redis (invalidate_slug C slug) w'" t' slug t1]
    by (cases "t' < t + 3600000000") simp_all
qed

definition acme :: company where
  "acme = \<lparr>co_id = ''c1'', co_name = ''Acme'', co_slug = ''acme'', co_owner = ''u'', co_plan = Free,
     co_timezone = ''Africa/Nairobi'', co_logo_url = [], co_primary_color = ''#000000'', co_is_active = True\<rparr>"

definition acme_db :: "bool \<Rightarrow> db" where
  "acme_db is_on = \<lparr>users = [], companies = [acme\<lparr>co_is_active := is_on\<rparr>], members = [], events = [],
     tiers = [], holds = [], payments = [], tickets = [], audit_logs = []\<rparr>"

theorem slug_index_staleness_witness:
  "fst (get_company_id_by_slug ttl_api 3599000000 0 ''acme''
      \<lparr>database = acme_db False, redis = redis (snd (get_company_id_by_slug ttl_api 0 0 ''acme''
         \<lparr>database = acme_db True, redis = ttl_empty\<rparr>))\<rparr>) = Inr (Some (CStr ''c1''))
   \<and> slug_truth (acme_db False) ''acme'' = Inr None"
proof -
  have "slug_truth (database \<lparr>database = acme_db True, redis = ttl_empty\<rparr>) ''acme'' = Inr (Some (CStr ''c1''))"
    by (simp add: slug_truth_def rows_get_def acme_db_def acme_def)
  note stale = slug_index_staleness [OF ttl.django_cache_axioms _ this, of 0 3599000000
      "\<lparr>database = acme_db False, redis = redis (snd (get_company_id_by_slug ttl_api 0 0 ''acme''
         \<lparr>database = acme_db True, redis = ttl_empty\<rparr>))\<rparr>" 0]
  moreover have "slug_truth (acme_db False) ''acme'' = Inr None"
    by (simp add: slug_truth_def rows_get_def acme_db_def acme_def)
  ultimately show ?thesis by simp
qed

text \<open>
  Warming resolves every active company: afterwards, for an hour, a lookup of its slug
  returns its id without the database, and the count returned is the number of active
  companies.
\<close>

theorem slug_index_warm:
  assumes "django_cache C" and "distinct (map co_slug (companies (database w)))"
    and "co \<in> set (companies (database w))" and "co_is_active co"
    and "t \<le> t'" and "t' < t + 3600000000"
  shows "get_company_id_by_slug C t' t1 (co_slug co) (snd (warm_slug_cache C t w))
      = (Inr (Some (CStr (co_id co))), snd (warm_slug_cache C t w))
    \<and> fst (warm_slug_cache C t w) = int (rows_count co_is_active (companies (database w)))"
proof -
  have "distinct (map co_slug (filter co_is_active (companies (database w))))"
    using assms(2) by (simp add: distinct_map_filter)
  moreover have "co \<in> set (filter co_is_active (companies (database w)))" using assms(3,4) by simp
  moreover have "t' < t + usecs slug_cache_ttl" using assms(6) by (simp add: slug_cache_ttl_def)
  ultimately have "c_get C (redis (snd (warm_slug_cache C t w))) t' (slug_key (co_slug co)) = Some (CStr (co_id co))"
    unfolding warm_slug_cache_def Let_def snd_conv redis_with_redis
    by (intro django_cache.warm_get [OF assms(1) _ _ assms(5)])
  then show ?thesis by (simp add: lookup_hit) (simp add: warm_slug_cache_def rows_count_def Let_def)
qed

theorem slug_index_warm_witness:
  "fst (get_company_id_by_slug ttl_api 1 0 ''acme''
     (snd (warm_slug_cache ttl_api 0 \<lparr>database = acme_db True, redis = ttl_empty\<rparr>))) = Inr (Some (CStr ''c1''))"
  using slug_index_warm [OF ttl.django_cache_axioms, of "\<lparr>database = acme_db True, redis = ttl_empty\<rparr>" acme 0 1 0]
  by (simp add: acme_db_def acme_def)

end
