(* ===== verification/CheckoutLiveness.thy ===== *)
theory CheckoutLiveness
  imports CheckoutProps
begin

text \<open>
  The sorted set and the table of holds together: every active hold is queued under its
  token with its expiry, whatever services and sweeps have run, so a sweep misses none.
\<close>

section \<open>Every active hold is queued\<close>

definition queued_until :: "'c cache_api \<Rightarrow> 'c \<Rightarrow> uuid \<Rightarrow> instant option" where
  "queued_until C c tok = z_score C c hold_expiry_zset tok"

definition tracked :: "'c cache_api \<Rightarrow> 'c world \<Rightarrow> bool" where
  "tracked C w \<longleftrightarrow> (\<forall>h\<in>set (holds (database w)). hold_status h = Active \<longrightarrow>
     queued_until C (redis w) (hold_token h) = Some (hold_expires_at h))"

context redis_server
begin

lemma queued_frame [simp]:
  "queued_until C (register_hold C t tok' e c) tok = queued_until C c tok"
  "queued_until C (release_hold C tok' c) tok = queued_until C c tok"
  "queued_until C (invalidate_availability C tid c) tok = queued_until C c tok"
  by (simp_all add: queued_until_def register_hold_def release_hold_def invalidate_availability_def frame_simps)

lemma queued_hold_caches:
  "queued_until C (hold_caches C t1 h c) tok = (if tok = hold_token h then Some (hold_expires_at h) else queued_until C c tok)"
  by (simp add: hold_caches_def) (simp add: queued_until_def heap.due_push register_hold_def frame_simps)

lemma queued_drop_hold_caches [simp]: "queued_until C (drop_hold_caches C h c) tok = queued_until C c tok"
  by (simp add: drop_hold_caches_def)

lemma queued_sweep_caches [simp]: "queued_until C (sweep_caches C hs c) tok = queued_until C c tok"
  by (induction hs arbitrary: c) (simp_all add: sweep_caches_def)

lemma queued_pop:
  "queued_until C (snd (pop_expired_holds C now c)) tok =
     (if tok \<in> set (fst (pop_expired_holds C now c)) then None else queued_until C c tok)"
  by (simp add: queued_until_def heap.due_pop)

lemma mem_popped:
  "tok \<in> set (fst (pop_expired_holds C now c)) \<longleftrightarrow> (\<exists>t. queued_until C c tok = Some t \<and> 0 \<le> t \<and> t \<le> now)"
  by (simp add: queued_until_def heap.mem_pop)

lemma tracked_create:
  assumes "tracked C w" and "create_hold C t0 t1 hid tok uid tid q w = (r, w')"
  shows "tracked C w'"
proof (cases r)
  case (Inl e)
  then show ?thesis using assms create_hold_failure by blast
next
  case (Inr h)
  with assms(2) have "create_hold C t0 t1 hid tok uid tid q w = (Inr h, w')" by simp
  then show ?thesis
  proof (rule create_hold_success)
    fix tier
    assume "insertable h (database w)"
      and "database w' = set_held tid (quantity_held tier + q) (add_hold h (database w))"
      and "redis w' = hold_caches C t1 h (redis w)"
    then show ?thesis
      using assms(1) by (auto simp: tracked_def queued_hold_caches insertable_def image_iff)
  qed
qed

lemma tracked_release:
  assumes "tracked C w" and "release_hold_by_token C tok w = (r, w')"
  shows "tracked C w'"
proof (cases "w' = w")
  case False
  show ?thesis
  proof (cases r)
    case (Inl e)
    then show ?thesis using assms release_hold_failure by blast
  next
    case (Inr u)
    with assms(2) have "release_hold_by_token C tok w = (Inr (), w')" by simp
    then show ?thesis
    proof (rule release_hold_success [OF _ False])
      fix h tier
      assume "database w' = set_held (hold_tier h) (quantity_held tier - hold_quantity h)
           (set_hold_status (hold_id h) Released (database w))"
        and "redis w' = drop_hold_caches C h (redis w)"
      then show ?thesis
        using assms(1) by (auto simp: tracked_def mem_set_hold_status split: if_splits)
    qed
  qed
qed (use assms(1) in simp)

text \<open>What a sweep at \<open>now\<close> leaves active is queued and not yet due.\<close>

lemma sweep_misses_none:
  assumes "checkout_inv (database w)" and "tracked C w" and "sweep_expired_holds C now w = (r, w')"
  shows "tracked C w'"
    and "h \<in> set (holds (database w')) \<Longrightarrow> hold_status h = Active \<Longrightarrow> 0 \<le> hold_expires_at h \<Longrightarrow> now < hold_expires_at h"
proof -
  let ?toks = "sweep_tokens C now w"
  have hs: "holds (database w') = map (swept_hold ?toks) (holds (database w))"
    by (rule sweep_ok [OF assms(1), of C now]) (use assms(3) in simp)
  have c: "redis w' = sweep_caches C (due_now C now w) (snd (pop_expired_holds C now (redis w)))"
    by (rule sweep_ok [OF assms(1), of C now]) (use assms(3) in simp)
  have kept: "h \<in> set (holds (database w)) \<and> hold_token h \<notin> set ?toks"
    if h: "h \<in> set (holds (database w'))" "hold_status h = Active" for h
    using h by (auto simp: hs swept_hold_def split: if_splits)
  have queued: "queued_until C (redis w) (hold_token h) = Some (hold_expires_at h)"
    if h: "h \<in> set (holds (database w'))" "hold_status h = Active" for h
    using kept [OF h] h(2) assms(2) by (simp add: tracked_def)
  show "tracked C w'"
    using kept queued by (simp add: tracked_def c queued_pop sweep_tokens_def)
  show "now < hold_expires_at h"
    if h: "h \<in> set (holds (database w'))" "hold_status h = Active" "0 \<le> hold_expires_at h"
    using kept [OF h(1,2)] queued [OF h(1,2)] h(3) by (auto simp: sweep_tokens_def mem_popped)
qed

lemma tracked_reachable:
  assumes "checkout_reachable C w w'" and "checkout_inv (database w)" and "tracked C w"
  shows "tracked C w'"
  using assms
proof (induction rule: checkout_reachable.induct)
  case (reach_step w v u)
  then have inv: "checkout_inv (database v)" and "tracked C v" by (auto dest: reachable_inv)
  then show ?case
    using reach_step.hyps(2)
    by (auto elim!: checkout_stepE intro: tracked_create tracked_release sweep_misses_none(1))
qed simp

end

section \<open>Property\<close>

text \<open>
  No hold outlives its time. Whatever services and sweeps have run since a state in
  which every active hold was queued, a sweep at \<open>now\<close> returns, and leaves no hold active
  whose expiry has come.
\<close>

theorem sweep_leaves_no_expired_hold:
  assumes "redis_server C" and "checkout_inv (database w)" and "tracked C w" and "checkout_reachable C w v"
  shows "\<exists>n w'. sweep_expired_holds C now v = (Inr n, w') \<and> 0 \<le> n
      \<and> (\<forall>h. h \<in> set (holds (database w')) \<longrightarrow> hold_status h = Active \<longrightarrow> 0 \<le> hold_expires_at h
            \<longrightarrow> now < hold_expires_at h)"
proof -
  have inv: "checkout_inv (database v)" using reachable_inv [OF assms(4,2)] .
  have tr: "tracked C v" using redis_server.tracked_reachable [OF assms(1,4,2,3)] .
  obtain w' where run: "sweep_expired_holds C now v = (Inr (int (length (due_now C now v))), w')"
    using sweep_ok [OF inv] by blast
  show ?thesis
    using run redis_server.sweep_misses_none(2) [OF assms(1) inv tr run] by (intro exI conjI) auto
qed

theorem sweep_leaves_no_expired_hold_witness:
  "\<exists>n w'. sweep_expired_holds ttl_api 900000000 small_held_world = (Inr n, w')
     \<and> rows_count (\<lambda>h. hold_status h = Active) (holds (database w')) = 0"
proof -
  have "tracked ttl_api small_world" by (simp add: tracked_def small_defs)
  moreover have "checkout_inv (database small_world)" using small_inv by (simp add: small_world_def)
  moreover have "checkout_reachable ttl_api small_world small_held_world"
    using reach_step [OF reach_refl step_create [OF small_create]] .
  ultimately obtain n w' where w': "sweep_expired_holds ttl_api 900000000 small_held_world = (Inr n, w')"
      "\<And>h. h \<in> set (holds (database w')) \<Longrightarrow> hold_status h = Active \<Longrightarrow> 0 \<le> hold_expires_at h \<Longrightarrow> 900000000 < hold_expires_at h"
    using sweep_leaves_no_expired_hold [OF ttl.redis_server_axioms, of small_world small_held_world 900000000] by blast
  have "holds (database w') = map (swept_hold (sweep_tokens ttl_api 900000000 small_held_world)) (holds (database small_held_world))"
    by (rule sweep_ok [OF small_held_inv, of ttl_api 900000000]) (use w'(1) in simp)
  then have "hold_status h \<noteq> Active" if "h \<in> set (holds (database w'))" for h
    using w'(2) [OF that] that
    by (auto simp: small_held_db small_db_def swept_hold_def new_hold_def minutes_def hold_duration_minutes_def
        split: if_splits)
  then show ?thesis using w'(1) by (auto simp: rows_count_def filter_empty_conv)
qed

end
