(* ===== verification/Faults.thy ===== *)
theory Faults
  imports Models
begin

text \<open>
  The database and Redis behind a network that fails. Every statement the code sends, and
  every commit, meets one of three fates, and the list of fates to come is part of the
  state: a service of the code becomes a program over the world and this list. The rules
  at the end pass assertions through such programs, one rule per construct.
\<close>

section \<open>Statements and transactions\<close>

text \<open>
  A statement is answered, or it fails before the server has executed it, or the server
  executes it and the answer is lost; the client sees the same exception in the last two
  cases. A process that is killed is one that fails there and sends nothing more. When the
  list is used up, everything is answered.
\<close>

datatype reply = Answered | Refused | Unanswered

type_synonym 'c net = "'c world \<times> reply list"

fun next_reply :: "reply list \<Rightarrow> reply \<times> reply list" where
  "next_reply [] = (Answered, [])"
| "next_reply (a # rs) = (a, rs)"

definition statement :: "exn \<Rightarrow> ('c world, 'a) prog \<Rightarrow> ('c net, 'a) prog" where
  "statement e m s =
     (case s of (w, rs) \<Rightarrow> case next_reply rs of (a, rs') \<Rightarrow> case m w of (r, w') \<Rightarrow>
      (case a of
         Answered \<Rightarrow> (r, (w', rs'))
       | Refused \<Rightarrow> (Inl e, (w, rs'))
       | Unanswered \<Rightarrow> (Inl e, (w', rs'))))"

abbreviation sql :: "('c world, 'a) prog \<Rightarrow> ('c net, 'a) prog" where
  "sql \<equiv> statement OperationalError"

abbreviation redis_command :: "('c \<Rightarrow> 'c) \<Rightarrow> ('c net, unit) prog" where
  "redis_command f \<equiv> statement ConnectionError (modify (with_redis f))"

text \<open>
  \<open>@transaction.atomic\<close>: an exception in the body rolls the database back, and so does a
  commit that is refused. A commit whose answer is lost has taken place. Redis is not part
  of the transaction.
\<close>

definition rolled_back :: "db \<Rightarrow> 'c world \<Rightarrow> 'c world" where
  "rolled_back d w = w\<lparr>database := d\<rparr>"

definition transaction :: "('c net, 'a) prog \<Rightarrow> ('c net, 'a) prog" where
  "transaction m s =
     (case m s of
        (Inl e, (w', rs')) \<Rightarrow> (Inl e, (rolled_back (database (fst s)) w', rs'))
      | (Inr x, (w', rs')) \<Rightarrow>
         (case next_reply rs' of (a, rs'') \<Rightarrow>
          (case a of
             Answered \<Rightarrow> (Inr x, (w', rs''))
           | Refused \<Rightarrow> (Inl OperationalError, (rolled_back (database (fst s)) w', rs''))
           | Unanswered \<Rightarrow> (Inl OperationalError, (w', rs'')))))"

lemma rolled_back_simps [simp]:
  "database (rolled_back d w) = d" "redis (rolled_back d w) = redis w"
  "rolled_back (database w) w = w"
  by (simp_all add: rolled_back_def)

lemma transaction_cong: "M (w, rs) = M' (w, qs) \<Longrightarrow> transaction M (w, rs) = transaction M' (w, qs)"
  by (simp only: transaction_def fst_conv)

lemma statement_cases:
  obtains (Done) rs' where "statement e m (w, rs) = (fst (m w), (snd (m w), rs'))"
  | (Fail) w' rs' where "statement e m (w, rs) = (Inl e, (w', rs'))" "w' = w \<or> w' = snd (m w)"
proof -
  obtain a rs' where "next_reply rs = (a, rs')" by fastforce
  then show ?thesis
    using that(1) [of rs'] that(2) [of w rs'] that(2) [of "snd (m w)" rs']
    by (cases a) (simp_all add: statement_def case_prod_beta)
qed

lemma statement_simps [simp]:
  "statement e m (w, Answered # rs) = (fst (m w), (snd (m w), rs))"
  "statement e m (w, Refused # rs) = (Inl e, (w, rs))"
  "statement e m (w, Unanswered # rs) = (Inl e, (snd (m w), rs))"
  by (simp_all add: statement_def case_prod_beta)

section \<open>A program and its version under faults\<close>

text \<open>
  \<open>M\<close> is \<open>m\<close> under faults: on a healthy network it does what \<open>m\<close> does, and if it returns,
  nothing has gone wrong.
\<close>

definition under_faults :: "('c world, 'a) prog \<Rightarrow> ('c net, 'a) prog \<Rightarrow> bool" where
  "under_faults m M \<longleftrightarrow>
     (\<forall>w. M (w, []) = (fst (m w), (snd (m w), []))) \<and>
     (\<forall>w rs x w' rs'. M (w, rs) = (Inr x, (w', rs')) \<longrightarrow> m w = (Inr x, w'))"

named_theorems fault_rules \<open>a program under faults, construct by construct\<close>

lemma under_faultsD:
  "under_faults m M \<Longrightarrow> M (w, []) = (fst (m w), (snd (m w), []))"
  "under_faults m M \<Longrightarrow> M (w, rs) = (Inr x, (w', rs')) \<Longrightarrow> m w = (Inr x, w')"
  unfolding under_faults_def by blast+

lemma under_faults_ret [fault_rules]: "under_faults (ret x) (ret x)"
  by (simp add: under_faults_def ret_def)

lemma under_faults_throw [fault_rules]: "under_faults (throw e) (throw e)"
  by (simp add: under_faults_def throw_def)

lemma under_faults_statement [fault_rules]: "under_faults m (statement e m)"
  unfolding under_faults_def
proof (intro conjI allI impI)
  fix w show "statement e m (w, []) = (fst (m w), (snd (m w), []))"
    by (simp add: statement_def split: prod.splits)
next
  fix w rs x w' rs' assume "statement e m (w, rs) = (Inr x, (w', rs'))"
  then show "m w = (Inr x, w')"
    by (cases rule: statement_cases [of e m w rs]) (auto intro: prod_eqI)
qed

lemma under_faults_bindE [fault_rules]:
  assumes "under_faults m M" and "\<And>x. under_faults (f x) (F x)"
  shows "under_faults (bindE m f) (bindE M F)"
  unfolding under_faults_def
proof (intro conjI allI impI)
  fix w
  show "bindE M F (w, []) = (fst (bindE m f w), (snd (bindE m f w), []))"
    using under_faultsD(1) [OF assms(1), of w] under_faultsD(1) [OF assms(2)]
    by (simp add: bindE_def split: prod.splits sum.splits)
next
  fix w rs y w' rs' assume "bindE M F (w, rs) = (Inr y, (w', rs'))"
  then obtain x v qs where "M (w, rs) = (Inr x, (v, qs))" and "F x (v, qs) = (Inr y, (w', rs'))"
    by (elim bindE_eq_InrE) (metis surj_pair)
  then show "bindE m f w = (Inr y, w')"
    using under_faultsD(2) [OF assms(1)] under_faultsD(2) [OF assms(2)] by (simp add: bindE_def)
qed

lemma under_faults_if [fault_rules]:
  "under_faults m M \<Longrightarrow> under_faults n N \<Longrightarrow> under_faults (if b then m else n) (if b then M else N)"
  by simp

lemma under_faults_transaction [fault_rules]:
  assumes "under_faults m M"
  shows "under_faults (atomic m) (transaction M)"
  unfolding under_faults_def
proof (intro conjI allI impI)
  fix w show "transaction M (w, []) = (fst (atomic m w), (snd (atomic m w), []))"
    using under_faultsD(1) [OF assms, of w]
    by (cases "m w"; cases "fst (m w)") (auto simp: transaction_def atomic_def rolled_back_def)
next
  fix w rs x w' rs' assume "transaction M (w, rs) = (Inr x, (w', rs'))"
  then obtain qs where "M (w, rs) = (Inr x, (w', qs))"
    by (auto simp: transaction_def split: prod.splits sum.splits reply.splits)
  then show "atomic m w = (Inr x, w')"
    using under_faultsD(2) [OF assms] by (simp add: atomic_Inr_iff)
qed

text \<open>A transaction is all or nothing, whatever fails; an exception does not tell which.\<close>

lemma transaction_cases:
  assumes "under_faults m M" and "transaction M (w, rs) = (r, (w', rs'))"
  obtains (Commit) x where "atomic m w = (Inr x, w')" "r = Inr x \<or> r = Inl OperationalError"
  | (Rollback) e where "r = Inl e" "database w' = database w"
proof -
  obtain r1 w1 rs1 where M: "M (w, rs) = (r1, (w1, rs1))" by (metis surj_pair)
  show ?thesis
  proof (cases r1)
    case (Inl e)
    with M assms(2) show ?thesis by (intro Rollback [of e]) (auto simp: transaction_def)
  next
    case (Inr x)
    have m: "atomic m w = (Inr x, w1)"
      using under_faultsD(2) [OF assms(1)] M Inr by (simp add: atomic_Inr_iff)
    obtain a qs where "next_reply rs1 = (a, qs)" by fastforce
    then show ?thesis
      using M Inr assms(2) m Commit [of x] Rollback
      by (cases a) (auto simp: transaction_def)
  qed
qed

section \<open>Assertions\<close>

text \<open>
  \<open>Q\<close> holds when the program returns and \<open>E\<close> when it raises, wherever the network fails.
\<close>

definition ends :: "('c world \<Rightarrow> bool) \<Rightarrow> ('c net, 'a) prog \<Rightarrow> ('a \<Rightarrow> 'c world \<Rightarrow> bool) \<Rightarrow> ('c world \<Rightarrow> bool) \<Rightarrow> bool" where
  "ends P M Q E \<longleftrightarrow> (\<forall>w rs. P w \<longrightarrow>
     (case M (w, rs) of (r, (w', rs')) \<Rightarrow> (case r of Inr x \<Rightarrow> Q x w' | Inl e \<Rightarrow> E w')))"

lemma endsD:
  "ends P M Q E \<Longrightarrow> P w \<Longrightarrow> M (w, rs) = (Inr x, (w', rs')) \<Longrightarrow> Q x w'"
  "ends P M Q E \<Longrightarrow> P w \<Longrightarrow> M (w, rs) = (Inl e, (w', rs')) \<Longrightarrow> E w'"
  unfolding ends_def by (metis (mono_tags, lifting) case_prod_conv sum.case)+

lemma ends_ret: "(\<And>w. P w \<Longrightarrow> Q x w) \<Longrightarrow> ends P (ret x) Q E"
  by (simp add: ends_def ret_def)

lemma ends_throw: "(\<And>w. P w \<Longrightarrow> E w) \<Longrightarrow> ends P (throw e) Q E"
  by (simp add: ends_def throw_def)

lemma ends_statement:
  assumes "\<And>w. P w \<Longrightarrow> E w" and "\<And>w. P w \<Longrightarrow> E (snd (m w))"
    and "\<And>w x w'. P w \<Longrightarrow> m w = (Inr x, w') \<Longrightarrow> Q x w'"
  shows "ends P (statement e m) Q E"
  unfolding ends_def
proof (intro allI impI)
  fix w rs assume P: "P w"
  show "case statement e m (w, rs) of (r, (w', rs')) \<Rightarrow> (case r of Inr x \<Rightarrow> Q x w' | Inl e \<Rightarrow> E w')"
  proof (cases rule: statement_cases [of e m w rs])
    case (Done rs')
    then show ?thesis using assms(2) [OF P] assms(3) [OF P]
      by (cases "m w"; cases "fst (m w)") auto
  next
    case (Fail w' rs')
    then show ?thesis using assms(1,2) [OF P] by auto
  qed
qed

lemma ends_bindE:
  assumes "ends P M R E" and "\<And>x. ends (R x) (f x) Q E"
  shows "ends P (bindE M f) Q E"
  unfolding ends_def
proof (intro allI impI)
  fix w rs assume P: "P w"
  obtain r w1 rs1 where M: "M (w, rs) = (r, (w1, rs1))" by (metis surj_pair)
  show "case bindE M f (w, rs) of (r, (w', rs')) \<Rightarrow> (case r of Inr x \<Rightarrow> Q x w' | Inl e \<Rightarrow> E w')"
  proof (cases r)
    case (Inl e)
    then show ?thesis using endsD(2) [OF assms(1) P] M by simp
  next
    case (Inr x)
    then have "R x w1" using endsD(1) [OF assms(1) P] M by simp
    then show ?thesis using assms(2) [of x] M Inr by (simp add: ends_def)
  qed
qed

lemma ends_if:
  "(b \<Longrightarrow> ends P M Q E) \<Longrightarrow> (\<not> b \<Longrightarrow> ends P N Q E) \<Longrightarrow> ends P (if b then M else N) Q E"
  by simp

lemma ends_weaken:
  assumes "ends P M Q E" and "\<And>w. P' w \<Longrightarrow> P w" and "\<And>x w. Q x w \<Longrightarrow> Q' x w" and "\<And>w. E w \<Longrightarrow> E' w"
  shows "ends P' M Q' E'"
  using assms unfolding ends_def by (fastforce split: sum.splits prod.splits)

lemma ends_conj:
  assumes "ends P M Q E" and "ends P' M Q' E'"
  shows "ends (\<lambda>w. P w \<and> P' w) M (\<lambda>x w. Q x w \<and> Q' x w) (\<lambda>w. E w \<and> E' w)"
  unfolding ends_def
proof (intro allI impI)
  fix w rs assume P: "P w \<and> P' w"
  obtain r w' rs' where M: "M (w, rs) = (r, (w', rs'))" by (metis surj_pair)
  show "case M (w, rs) of (r, (w', rs')) \<Rightarrow> (case r of Inr x \<Rightarrow> Q x w' \<and> Q' x w' | Inl e \<Rightarrow> E w' \<and> E' w')"
    using P M endsD [OF assms(1), of w rs] endsD [OF assms(2), of w rs] by (cases r) simp_all
qed

lemma ends_transaction:
  assumes "ends (\<lambda>w. w = w0) M Q (\<lambda>w. E (rolled_back (database w0) w))"
    and "\<And>x w. Q x w \<Longrightarrow> E w" and "\<And>x w. Q x w \<Longrightarrow> E (rolled_back (database w0) w)"
  shows "ends (\<lambda>w. w = w0) (transaction M) Q E"
  unfolding ends_def
proof (intro allI impI)
  fix w rs assume w: "w = w0"
  obtain r w1 rs1 where M: "M (w0, rs) = (r, (w1, rs1))" by (metis surj_pair)
  obtain a qs where a: "next_reply rs1 = (a, qs)" by fastforce
  show "case transaction M (w, rs) of (r, (w', rs')) \<Rightarrow> (case r of Inr x \<Rightarrow> Q x w' | Inl e \<Rightarrow> E w')"
  proof (cases r)
    case (Inl e)
    then show ?thesis using endsD(2) [OF assms(1) refl] M w by (simp add: transaction_def)
  next
    case (Inr x)
    then have "Q x w1" using endsD(1) [OF assms(1) refl] M by simp
    then show ?thesis using M w Inr a assms(2,3) by (cases a) (auto simp: transaction_def)
  qed
qed

section \<open>Invariants of a program\<close>

abbreviation preserves :: "('c world \<Rightarrow> bool) \<Rightarrow> ('c net, 'a) prog \<Rightarrow> bool" where
  "preserves I M \<equiv> ends I M (\<lambda>_. I) I"

named_theorems preserve_rules \<open>an invariant passed through a program\<close>

lemma preserves_ret [preserve_rules]: "preserves I (ret x)"
  by (simp add: ends_ret)

lemma preserves_throw [preserve_rules]: "preserves I (throw e)"
  by (simp add: ends_throw)

lemma preserves_bindE [preserve_rules]: "preserves I M \<Longrightarrow> (\<And>x. preserves I (f x)) \<Longrightarrow> preserves I (bindE M f)"
  by (rule ends_bindE)

lemma preserves_if [preserve_rules]: "preserves I M \<Longrightarrow> preserves I N \<Longrightarrow> preserves I (if b then M else N)"
  by simp

lemma preserves_sum [preserve_rules]:
  "(\<And>e. preserves I (f e)) \<Longrightarrow> (\<And>x. preserves I (g x)) \<Longrightarrow> preserves I (case r of Inl e \<Rightarrow> f e | Inr x \<Rightarrow> g x)"
  by (cases r) simp_all

lemma preserves_statement [preserve_rules]: "(\<And>w. I w \<Longrightarrow> I (snd (m w))) \<Longrightarrow> preserves I (statement e m)"
  by (rule ends_statement) (assumption | metis snd_conv)+

lemma preservesD: "preserves I M \<Longrightarrow> I w \<Longrightarrow> M (w, rs) = (r, (w', rs')) \<Longrightarrow> I w'"
  by (cases r) (auto dest: endsD)

end
