(* ===== verification/CheckoutFaults.thy ===== *)
theory CheckoutFaults
  imports CheckoutLiveness Faults
begin

text \<open>
  The checkout services and the sweep of \<open>checkout/services.py\<close> and \<open>checkout/tasks.py\<close>
  when the database, Redis or the process itself fails at any statement: what stays true
  of the tables, and what becomes of the registry and the sorted set, which no rollback
  reaches.
\<close>

section \<open>The services, statement by statement\<close>

definition create_hold_faulty ::
  "'c cache_api \<Rightarrow> instant \<Rightarrow> instant \<Rightarrow> uuid \<Rightarrow> uuid \<Rightarrow> uuid \<Rightarrow> uuid \<Rightarrow> int
     \<Rightarrow> ('c net, checkout_hold) prog" where
  "create_hold_faulty C t0 t1 hid tok uid tid quantity =
     transaction
      (bindE (sql (get_tier tid)) (\<lambda>tier.
       bindE (sql (lift_result (\<lambda>w. Inr (active_holds_count uid (tier_event tier) (database w))))) (\<lambda>active.
       if max_holds_per_user_per_event \<le> active then throw HoldAbuseError
       else if quantity_available tier < quantity
       then throw (InsufficientInventoryError (quantity_available tier) quantity)
       else
         (let hold = new_hold t0 hid tok uid tid quantity in
          bindE (sql (insert_hold hold)) (\<lambda>_.
          bindE (sql (update_tier_held tid (quantity_held tier + quantity))) (\<lambda>_.
          bindE (redis_command (register_hold C t1 tok (hold_entry_of hold))) (\<lambda>_.
          bindE (redis_command (push_hold_expiry C tok (hold_expires_at hold))) (\<lambda>_.
          bindE (redis_command (invalidate_availability C tid)) (\<lambda>_.
          ret hold)))))))))"

definition find_active_hold :: "uuid \<Rightarrow> ('c world, checkout_hold result) prog" where
  "find_active_hold tok =
     lift_result (\<lambda>w. Inr (rows_get (\<lambda>h. hold_token h = tok \<and> hold_status h = Active) (holds (database w))))"

definition release_hold_faulty :: "'c cache_api \<Rightarrow> uuid \<Rightarrow> ('c net, unit) prog" where
  "release_hold_faulty C tok =
     transaction
      (bindE (sql (find_active_hold tok)) (\<lambda>found. case found of
         Inl e \<Rightarrow> if e = DoesNotExist then ret () else throw e
       | Inr hold \<Rightarrow>
          bindE (sql (save_hold_status (hold_id hold) Released)) (\<lambda>_.
          bindE (sql (get_tier (hold_tier hold))) (\<lambda>tier.
          bindE (sql (update_tier_held (hold_tier hold) (quantity_held tier - hold_quantity hold))) (\<lambda>_.
          bindE (redis_command (release_hold C tok)) (\<lambda>_.
          redis_command (invalidate_availability C (hold_tier hold))))))))"

section \<open>The sweep, statement by statement\<close>

text \<open>The pipeline is one request: \<open>MULTI\<close>, the two commands, \<open>EXEC\<close>.\<close>

definition pop_pipeline :: "'c cache_api \<Rightarrow> instant \<Rightarrow> ('c world, uuid list) prog" where
  "pop_pipeline C now w = (case pop_expired_holds C now (redis w) of (toks, c) \<Rightarrow> (Inr toks, w\<lparr>redis := c\<rparr>))"

definition select_due :: "uuid list \<Rightarrow> ('c world, (checkout_hold \<times> ticket_tier) list) prog" where
  "select_due toks = lift_result (\<lambda>w. Inr (join_tiers (tiers (database w)) (due_holds toks (database w))))"

fun sweep_loop_faulty :: "'c cache_api \<Rightarrow> (checkout_hold \<times> ticket_tier) list \<Rightarrow> int \<Rightarrow> ('c net, int) prog" where
  "sweep_loop_faulty C [] n = ret n"
| "sweep_loop_faulty C ((hold, tier) # rest) n =
     bindE (sql (save_hold_status (hold_id hold) Expired)) (\<lambda>_.
     bindE (sql (update_tier_held (hold_tier hold) (quantity_held tier - hold_quantity hold))) (\<lambda>_.
     bindE (redis_command (release_hold C (hold_token hold))) (\<lambda>_.
     bindE (redis_command (invalidate_availability C (hold_tier hold))) (\<lambda>_.
     sweep_loop_faulty C rest (n + 1)))))"

definition sweep_faulty :: "'c cache_api \<Rightarrow> instant \<Rightarrow> ('c net, int) prog" where
  "sweep_faulty C now =
     bindE (statement ConnectionError (pop_pipeline C now)) (\<lambda>toks.
     if toks = [] then ret 0
     else bindE (sql (select_due toks)) (\<lambda>ps. sweep_loop_faulty C ps 0))"

text \<open>What both updates of a hold and both commands keep, the loop keeps.\<close>

lemma sweep_loop_faulty_preserves:
  assumes "\<And>w hid. I w \<Longrightarrow> I (with_db (set_hold_status hid Expired) w)"
    and "\<And>w tid n. I w \<Longrightarrow> I (with_db (set_held tid n) w)"
    and "\<And>w tok. I w \<Longrightarrow> I (with_redis (release_hold C tok) w)"
    and "\<And>w tid. I w \<Longrightarrow> I (with_redis (invalidate_availability C tid) w)"
  shows "preserves I (sweep_loop_faulty C ps n)"
proof (induction ps arbitrary: n)
  case (Cons p ps)
  show ?case
    by (cases p, simp only: sweep_loop_faulty.simps, intro preserve_rules Cons.IH)
      (simp_all add: save_hold_status_def modify_def update_tier_held_def throw_def assms)
qed (simp add: preserve_rules)

section \<open>They are the services, under faults\<close>

lemma create_hold_under_faults:
  "under_faults (create_hold C t0 t1 hid tok uid tid q) (create_hold_faulty C t0 t1 hid tok uid tid q)"
  unfolding create_hold_def create_hold_faulty_def Let_def by (intro fault_rules)

lemma release_hold_statements:
  "release_hold_by_token C tok =
     atomic
      (bindE (find_active_hold tok) (\<lambda>found. case found of
         Inl e \<Rightarrow> if e = DoesNotExist then ret () else throw e
       | Inr hold \<Rightarrow>
          bindE (save_hold_status (hold_id hold) Released) (\<lambda>_.
          bindE (get_tier (hold_tier hold)) (\<lambda>tier.
          bindE (update_tier_held (hold_tier hold) (quantity_held tier - hold_quantity hold)) (\<lambda>_.
          bindE (modify (with_redis (release_hold C tok))) (\<lambda>_.
          modify (with_redis (invalidate_availability C (hold_tier hold))))))))) "
  unfolding release_hold_by_token_def
  by (rule arg_cong [of _ _ atomic]) (auto simp: fun_eq_iff bindE_def [of "find_active_hold tok"] find_active_hold_def lift_result_def
      split: sum.split exn.split)

lemma under_faults_found [fault_rules]:
  "(\<And>e. under_faults (f e) (F e)) \<Longrightarrow> (\<And>h. under_faults (g h) (G h)) \<Longrightarrow>
   under_faults (case found of Inl e \<Rightarrow> f e | Inr h \<Rightarrow> g h) (case found of Inl e \<Rightarrow> F e | Inr h \<Rightarrow> G h)"
  by (cases found) simp_all

lemma release_hold_under_faults: "under_faults (release_hold_by_token C tok) (release_hold_faulty C tok)"
  unfolding release_hold_statements release_hold_faulty_def by (intro fault_rules)

lemma sweep_loop_under_faults: "under_faults (sweep_loop C ps n) (sweep_loop_faulty C ps n)"
proof (induction C ps n rule: sweep_loop_faulty.induct)
  case (2 C hold tier rest n)
  then show ?case unfolding sweep_loop.simps sweep_loop_faulty.simps by (intro fault_rules) simp
qed (simp add: fault_rules)

lemma sweep_statements:
  "sweep_expired_holds C now =
     bindE (pop_pipeline C now) (\<lambda>toks.
     if toks = [] then ret 0 else bindE (select_due toks) (\<lambda>ps. sweep_loop C ps 0))"
  by (simp add: fun_eq_iff sweep_expired_holds_def bindE_def pop_pipeline_def select_due_def lift_result_def
      Let_def split: prod.split)

lemma sweep_under_faults: "under_faults (sweep_expired_holds C now) (sweep_faulty C now)"
  unfolding sweep_statements sweep_faulty_def by (intro fault_rules sweep_loop_under_faults)

lemma create_hold_parts:
  obtains m M where "create_hold C t0 t1 hid tok uid tid q = atomic m"
    and "create_hold_faulty C t0 t1 hid tok uid tid q = transaction M" and "under_faults m M"
  by (rule that, rule create_hold_def, rule create_hold_faulty_def, unfold Let_def, intro fault_rules)

lemma release_hold_parts:
  obtains m M where "release_hold_by_token C tok = atomic m"
    and "release_hold_faulty C tok = transaction M" and "under_faults m M"
  by (rule that, rule release_hold_statements, rule release_hold_faulty_def, intro fault_rules)

text \<open>Each service commits what it does without faults, or leaves the database alone.\<close>

lemma create_hold_faulty_cases:
  assumes "create_hold_faulty C t0 t1 hid tok uid tid q (w, rs) = (r, (w', rs'))"
  obtains (Commit) h where "create_hold C t0 t1 hid tok uid tid q w = (Inr h, w')" "r = Inr h \<or> r = Inl OperationalError"
  | (Rollback) e where "r = Inl e" "database w' = database w"
  using assms create_hold_parts [of C t0 t1 hid tok uid tid q] transaction_cases by (metis (no_types))

lemma release_hold_faulty_cases:
  assumes "release_hold_faulty C tok (w, rs) = (r, (w', rs'))"
  obtains (Commit) "release_hold_by_token C tok w = (Inr (), w')" "r = Inr () \<or> r = Inl OperationalError"
  | (Rollback) e where "r = Inl e" "database w' = database w"
  using assms release_hold_parts [of C tok] transaction_cases by (metis (full_types) old.unit.exhaust)

section \<open>The invariant of the tables\<close>

lemma create_hold_faulty_inv:
  assumes "create_hold_faulty C t0 t1 hid tok uid tid q (w, rs) = (r, (w', rs'))" and "checkout_inv (database w)"
  shows "checkout_inv (database w')"
  using assms(1)
proof (cases rule: create_hold_faulty_cases)
  case (Commit h)
  then show ?thesis using create_step_inv assms(2) by blast
qed (simp add: assms(2))

lemma release_hold_faulty_inv:
  assumes "release_hold_faulty C tok (w, rs) = (r, (w', rs'))" and "checkout_inv (database w)"
  shows "checkout_inv (database w')"
  using assms(1)
proof (cases rule: release_hold_faulty_cases)
  case Commit
  then show ?thesis using release_step_inv assms(2) by blast
qed (simp add: assms(2))

text \<open>Between the two updates of a hold its seats are still set aside, so nothing is oversold.\<close>

lemma inv_set_hold_status:
  assumes inv: "checkout_inv d" and h: "h \<in> set (holds d)" and s: "s \<noteq> Active"
  shows "checkout_inv (set_hold_status (hold_id h) s d)"
proof -
  from inv have d: "db_keys d" "stock_ok d" "covered d" "abuse_ok d" by (simp_all add: checkout_inv_def)
  have "held_sum tid (set_hold_status (hold_id h) s d) \<le> held_sum tid d" for tid
    using held_sum_set_hold_status [OF db_keys_ids(2) [OF d(1)] h s] active_qty_nonneg [OF d(1) h] by simp
  then have "covered (set_hold_status (hold_id h) s d)"
    using d(3) by (fastforce simp: covered_def intro: order_trans)
  then show ?thesis
    using d s by (simp add: checkout_inv_def db_keys_set_hold_status abuse_ok_set_hold_status)
qed

lemma sweep_loop_faulty_inv:
  "ends (\<lambda>w. checkout_inv (database w) \<and> sweep_ready ps (database w)) (sweep_loop_faulty C ps n)
     (\<lambda>_ w. checkout_inv (database w)) (\<lambda>w. checkout_inv (database w))"
proof (induction ps arbitrary: n)
  case Nil
  then show ?case by (auto intro: ends_ret)
next
  case (Cons p ps)
  obtain h s where p [simp]: "p = (h, s)" by (cases p)
  let ?E = "\<lambda>w. checkout_inv (database w)"
  let ?done = "\<lambda>_ w. checkout_inv (database w) \<and> sweep_ready ps (database w)"
  let ?mid = "\<lambda>_ w. \<exists>d. checkout_inv d \<and> sweep_ready ((h, s) # ps) d \<and> database w = set_hold_status (hold_id h) Expired d"
  have mid: "checkout_inv (set_hold_status (hold_id h) Expired d)"
    if "checkout_inv d" "sweep_ready ((h, s) # ps) d" for d
    using that by (intro inv_set_hold_status) (simp_all add: sweep_ready_def)
  note step = sweep_step_ok [unfolded sweep_db_step_def fst_conv snd_conv]
  show ?case
    unfolding p sweep_loop_faulty.simps
  proof (rule ends_bindE [where R = ?mid], rule_tac [2] ends_bindE [where R = ?done],
      rule_tac [3] ends_bindE [where R = ?done], rule_tac [4] ends_bindE [where R = ?done], rule_tac [5] Cons.IH)
    show "ends (\<lambda>w. checkout_inv (database w) \<and> sweep_ready ((h, s) # ps) (database w))
        (sql (save_hold_status (hold_id h) Expired)) ?mid ?E"
      by (rule ends_statement) (auto simp: save_hold_status_def modify_def intro: mid)
    show "ends (?mid u) (sql (update_tier_held (hold_tier h) (quantity_held s - hold_quantity h))) ?done ?E" for u
      by (rule ends_statement) (auto simp: update_tier_held_def modify_def throw_def intro: mid step split: if_splits)
  qed (auto simp: modify_def intro: ends_statement)
qed

lemma sweep_faulty_inv:
  assumes "sweep_faulty C now (w, rs) = (r, (w', rs'))" and "checkout_inv (database w)"
  shows "checkout_inv (database w')"
proof -
  let ?E = "\<lambda>w. checkout_inv (database w)"
  have "ends ?E (sql (select_due toks)) (\<lambda>ps w. ?E w \<and> sweep_ready ps (database w)) ?E" for toks
    by (rule ends_statement) (auto simp: select_due_def lift_result_def sweep_ready_join)
  then have rest: "preserves ?E (if toks = [] then ret 0 else bindE (sql (select_due toks)) (\<lambda>ps. sweep_loop_faulty C ps 0))" for toks
    by (intro preserve_rules ends_bindE [OF _ sweep_loop_faulty_inv])
  have "preserves ?E (sweep_faulty C now)"
    unfolding sweep_faulty_def
    by (rule preserves_bindE [OF preserves_statement rest]) (simp add: pop_pipeline_def split: prod.split)
  then show ?thesis using preservesD assms by fast
qed

section \<open>Sequences of services and sweeps under faults\<close>

text \<open>What ran, as far as the outside can tell it: the token, and how the sweep ended.\<close>

datatype act = Creates uuid | Releases uuid | Sweeps "int result"

inductive faulty_step :: "'c cache_api \<Rightarrow> 'c world \<Rightarrow> act \<Rightarrow> 'c world \<Rightarrow> bool" for C where
  faulty_create: "create_hold_faulty C t0 t1 hid tok uid tid q (w, rs) = (r, (w', rs')) \<Longrightarrow> faulty_step C w (Creates tok) w'"
| faulty_release: "release_hold_faulty C tok (w, rs) = (r, (w', rs')) \<Longrightarrow> faulty_step C w (Releases tok) w'"
| faulty_sweep: "sweep_faulty C now (w, rs) = (r, (w', rs')) \<Longrightarrow> faulty_step C w (Sweeps r) w'"

inductive faulty_run :: "'c cache_api \<Rightarrow> 'c world \<Rightarrow> act list \<Rightarrow> 'c world \<Rightarrow> bool" for C where
  run_start: "faulty_run C w [] w"
| run_step: "faulty_run C w as v \<Longrightarrow> faulty_step C v a u \<Longrightarrow> faulty_run C w (as @ [a]) u"

inductive_cases faulty_stepE: "faulty_step C w a w'"

lemma faulty_step_inv: "faulty_step C w a w' \<Longrightarrow> checkout_inv (database w) \<Longrightarrow> checkout_inv (database w')"
  by (erule faulty_stepE) (blast intro: create_hold_faulty_inv release_hold_faulty_inv sweep_faulty_inv)+

lemma faulty_run_inv: "faulty_run C w as w' \<Longrightarrow> checkout_inv (database w) \<Longrightarrow> checkout_inv (database w')"
  by (induction rule: faulty_run.induct) (auto intro: faulty_step_inv)

text \<open>A run rule: what every step keeps on good states, a run keeps.\<close>

lemma faulty_run_keeps:
  assumes "faulty_run C w as w'" and "checkout_inv (database w)" and "I w" and "list_all ok as"
    and "\<And>v a u. faulty_step C v a u \<Longrightarrow> checkout_inv (database v) \<Longrightarrow> I v \<Longrightarrow> ok a \<Longrightarrow> I u"
  shows "I w'"
  using assms(1-4)
  by (induction rule: faulty_run.induct) (auto dest: faulty_run_inv intro: assms(5))

section \<open>The sorted set under faults\<close>

text \<open>An interrupted sweep is one that raised.\<close>

fun uninterrupted :: "act \<Rightarrow> bool" where
  "uninterrupted (Sweeps (Inl e)) = False"
| "uninterrupted a = True"

text \<open>An active hold that is not in the sorted set is one no sweep finds.\<close>

definition stranded :: "'c cache_api \<Rightarrow> checkout_hold \<Rightarrow> 'c world \<Rightarrow> bool" where
  "stranded C h w \<longleftrightarrow> h \<in> set (holds (database w)) \<and> hold_status h = Active
     \<and> queued_until C (redis w) (hold_token h) = None"

context redis_server
begin

lemma queued_push: "queued_until C (push_hold_expiry C k t c) tok = (if tok = k then Some t else queued_until C c tok)"
  by (simp add: queued_until_def heap.due_push)

lemma preserves_command [preserve_rules]:
  "(\<And>w. I w \<Longrightarrow> I (with_redis f w)) \<Longrightarrow> preserves I (redis_command f)"
  by (rule preserves_statement) (simp add: modify_def)

text \<open>A creation touches the entry of its own token only, and that only if the token is new.\<close>

lemma create_hold_faulty_queue:
  assumes "create_hold_faulty C t0 t1 hid tok uid tid q (w, rs) = (r, (w', rs'))"
  shows "queued_until C (redis w') k = queued_until C (redis w) k
    \<or> k = tok \<and> tok \<notin> hold_token ` set (holds (database w))"
proof -
  let ?d = "database w" and ?h = "new_hold t0 hid tok uid tid q"
  let ?E = "\<lambda>v. queued_until C (redis v) k = queued_until C (redis w) k \<or> k = tok \<and> tok \<notin> hold_token ` set (holds ?d)"
  let ?I = "\<lambda>v. insertable ?h ?d \<and> ?E v" and ?S = "\<lambda>v. v = w"
  let ?rest = "\<lambda>tier. bindE (sql (update_tier_held tid (quantity_held tier + q))) (\<lambda>_.
          bindE (redis_command (register_hold C t1 tok (hold_entry_of ?h))) (\<lambda>_.
          bindE (redis_command (push_hold_expiry C tok (hold_expires_at ?h))) (\<lambda>_.
          bindE (redis_command (invalidate_availability C tid)) (\<lambda>_. ret ?h))))"
  have "preserves ?I (?rest tier)" for tier
    by (intro preserve_rules)
      (auto simp: update_tier_held_def modify_def throw_def queued_push insertable_def split: if_splits)
  then have rest: "ends ?I (?rest tier) (\<lambda>_. ?E) ?E" for tier
    by (rule ends_weaken) simp_all
  have ins: "ends ?S (sql (insert_hold ?h)) (\<lambda>_. ?I) ?E"
    by (rule ends_statement) (auto simp: insert_hold_def insertable_def Let_def modify_def throw_def split: if_splits)
  have guard: "ends ?S (if 2 \<le> active then throw HoldAbuseError
       else if quantity_available tier < q then throw (InsufficientInventoryError (quantity_available tier) q)
       else bindE (sql (insert_hold ?h)) (\<lambda>_. ?rest tier)) (\<lambda>_. ?E) ?E" for active :: nat and tier
    by (intro ends_if ends_throw ends_bindE [OF ins rest]) auto
  have count: "ends ?S (sql (lift_result (\<lambda>w. Inr (active_holds_count uid (tier_event tier) (database w))))) (\<lambda>_. ?S) ?E" for tier
    by (rule ends_statement) (auto simp: lift_result_def)
  have "ends ?S (sql (get_tier tid)) (\<lambda>_. ?S) ?E"
    by (rule ends_statement) (auto simp: get_tier_def lift_result_def)
  from ends_bindE [OF this ends_bindE [OF count guard]]
  have "ends ?S (create_hold_faulty C t0 t1 hid tok uid tid q) (\<lambda>_. ?E) ?E"
    unfolding create_hold_faulty_def Let_def max_holds_per_user_per_event_def hold_fields_new_hold
    by (intro ends_transaction) (auto elim!: ends_weaken)
  then show ?thesis using assms by (cases r) (blast dest: endsD)+
qed

text \<open>A release leaves the set alone, and so does a sweep once it has popped.\<close>

lemma release_hold_faulty_queue:
  assumes "release_hold_faulty C tok (w, rs) = (r, (w', rs'))"
  shows "queued_until C (redis w') k = queued_until C (redis w) k"
proof -
  let ?E = "\<lambda>v. queued_until C (redis v) k = queued_until C (redis w) k"
  have body: "preserves ?E (bindE (sql (find_active_hold tok)) (\<lambda>found. case found of
         Inl e \<Rightarrow> if e = DoesNotExist then ret () else throw e
       | Inr hold \<Rightarrow>
          bindE (sql (save_hold_status (hold_id hold) Released)) (\<lambda>_.
          bindE (sql (get_tier (hold_tier hold))) (\<lambda>tier.
          bindE (sql (update_tier_held (hold_tier hold) (quantity_held tier - hold_quantity hold))) (\<lambda>_.
          bindE (redis_command (release_hold C tok)) (\<lambda>_.
          redis_command (invalidate_availability C (hold_tier hold))))))))"
    by (intro preserve_rules)
      (simp_all add: find_active_hold_def lift_result_def save_hold_status_def modify_def get_tier_def
        update_tier_held_def throw_def)
  have "ends (\<lambda>v. v = w) (release_hold_faulty C tok) (\<lambda>_. ?E) ?E"
    unfolding release_hold_faulty_def
    by (rule ends_transaction, rule ends_weaken [OF body]) auto
  then show ?thesis using assms by (cases r) (blast dest: endsD)+
qed

lemma sweep_loop_faulty_queue: "preserves (\<lambda>v. queued_until C (redis v) k = x) (sweep_loop_faulty C ps n)"
  by (rule sweep_loop_faulty_preserves) simp_all

text \<open>No sweep makes a hold active.\<close>

lemma sweep_loop_faulty_active:
  "preserves (\<lambda>v. \<forall>h\<in>set (holds (database v)). hold_status h = Active \<longrightarrow> h \<in> H) (sweep_loop_faulty C ps n)"
  by (rule sweep_loop_faulty_preserves) (auto simp: mem_set_hold_status split: if_splits)

lemma create_hold_faulty_tracked:
  assumes "create_hold_faulty C t0 t1 hid tok uid tid q (w, rs) = (r, (w', rs'))" and "tracked C w"
  shows "tracked C w'"
  using assms(1)
proof (cases rule: create_hold_faulty_cases)
  case (Commit h)
  then show ?thesis using tracked_create assms(2) by blast
next
  case (Rollback e)
  have "queued_until C (redis w') (hold_token h) = Some (hold_expires_at h)"
    if "h \<in> set (holds (database w))" "hold_status h = Active" for h
    using create_hold_faulty_queue [OF assms(1), of "hold_token h"] that assms(2) by (auto simp: tracked_def)
  then show ?thesis using Rollback(2) by (simp add: tracked_def)
qed

lemma release_hold_faulty_tracked:
  assumes "release_hold_faulty C tok (w, rs) = (r, (w', rs'))" and "tracked C w"
  shows "tracked C w'"
  using assms(1)
proof (cases rule: release_hold_faulty_cases)
  case Commit
  then show ?thesis using tracked_release assms(2) by blast
next
  case (Rollback e)
  then show ?thesis
    using release_hold_faulty_queue [OF assms(1)] assms(2) by (simp add: tracked_def)
qed

lemma faulty_step_tracked:
  assumes "faulty_step C w a w'" and "checkout_inv (database w)" and "tracked C w" and "uninterrupted a"
  shows "tracked C w'"
  using assms(1)
proof (cases rule: faulty_step.cases)
  case (faulty_sweep now rs r rs')
  then obtain n where "sweep_faulty C now (w, rs) = (Inr n, (w', rs'))" using assms(4) by (cases r) auto
  then have "sweep_expired_holds C now w = (Inr n, w')" by (rule under_faultsD(2) [OF sweep_under_faults])
  then show ?thesis by (rule sweep_misses_none(1) [OF assms(2,3)])
qed (use assms(3) create_hold_faulty_tracked release_hold_faulty_tracked in blast)+

section \<open>Holds no sweep finds again\<close>

lemma interrupted_sweep:
  assumes "sweep_faulty C now (w, rs) = (Inl e, (w', rs'))" and "tracked C w" and "w' \<noteq> w"
    and h: "h \<in> set (holds (database w'))" "hold_status h = Active" "0 \<le> hold_expires_at h" "hold_expires_at h \<le> now"
  shows "stranded C h w'"
proof -
  let ?q = "queued_until C (snd (pop_expired_holds C now (redis w))) (hold_token h)"
  let ?H = "{g. g \<in> set (holds (database w)) \<and> hold_status g = Active}"
  let ?A = "\<lambda>v. \<forall>g\<in>set (holds (database v)). hold_status g = Active \<longrightarrow> g \<in> ?H"
  let ?Q = "\<lambda>v. queued_until C (redis v) (hold_token h) = ?q"
  let ?E = "\<lambda>v. v = w \<or> ?Q v \<and> ?A v"
  have loop: "preserves (\<lambda>v. ?Q v \<and> ?A v) (sweep_loop_faulty C ps n)" for ps n
    by (rule ends_conj [OF sweep_loop_faulty_queue sweep_loop_faulty_active])
  have "preserves (\<lambda>v. ?Q v \<and> ?A v) (if toks = [] then ret 0 else bindE (sql (select_due toks)) (\<lambda>ps. sweep_loop_faulty C ps 0))" for toks
    by (intro preserve_rules loop) (simp add: select_due_def lift_result_def)
  then have rest: "ends (\<lambda>v. ?Q v \<and> ?A v) (if toks = [] then ret 0 else bindE (sql (select_due toks))
      (\<lambda>ps. sweep_loop_faulty C ps 0)) (\<lambda>_ _. True) ?E" for toks
    by (rule ends_weaken) simp_all
  have "ends (\<lambda>v. v = w) (statement ConnectionError (pop_pipeline C now)) (\<lambda>_ v. ?Q v \<and> ?A v) ?E"
    by (rule ends_statement) (auto simp: pop_pipeline_def split: prod.splits)
  from ends_bindE [OF this rest] have "ends (\<lambda>v. v = w) (sweep_faulty C now) (\<lambda>_ _. True) ?E"
    unfolding sweep_faulty_def .
  from endsD(2) [OF this refl assms(1)] have "?E w'" .
  then have "?Q w'" and "?A w'" using assms(3) by simp_all
  then have "h \<in> set (holds (database w))" using h by simp
  then have "queued_until C (redis w) (hold_token h) = Some (hold_expires_at h)"
    using assms(2) h(2) by (simp add: tracked_def)
  then have "?q = None" using h(3,4) by (simp add: queued_pop mem_popped)
  then show ?thesis using \<open>?Q w'\<close> h by (simp add: stranded_def)
qed

lemma hold_status_other:
  "h \<in> set (holds d) \<Longrightarrow> hold_id h \<noteq> hid \<Longrightarrow> h \<in> set (holds (set_hold_status hid s d))"
  by (auto simp: mem_set_hold_status intro!: bexI [of _ h])

lemma sweep_loop_faulty_other:
  "\<forall>p\<in>set ps. hold_id (fst p) \<noteq> hold_id h \<Longrightarrow> preserves (\<lambda>v. h \<in> set (holds (database v))) (sweep_loop_faulty C ps n)"
proof (induction ps arbitrary: n)
  case (Cons p ps)
  then have "hold_id (fst p) \<noteq> hold_id h" by simp
  then show ?case
    by (cases p, simp only: sweep_loop_faulty.simps, intro preserve_rules Cons.IH)
      (use Cons.prems in \<open>auto simp: save_hold_status_def modify_def update_tier_held_def throw_def intro!: hold_status_other\<close>)
qed (simp add: preserve_rules)

lemma stranded_sweep:
  assumes "sweep_faulty C now (w, rs) = (r, (w', rs'))" and keys: "db_keys (database w)" and "stranded C h w"
  shows "stranded C h w'"
proof -
  let ?Q = "\<lambda>v. queued_until C (redis v) (hold_token h) = None"
  let ?I = "\<lambda>v. h \<in> set (holds (database v)) \<and> ?Q v"
  let ?pop = "\<lambda>toks v. database v = database w \<and> hold_token h \<notin> set toks \<and> ?Q v"
  have h: "h \<in> set (holds (database w))" "hold_status h = Active" "?Q w" using assms(3) by (simp_all add: stranded_def)
  have loop: "ends (\<lambda>v. ?I v \<and> (\<forall>p\<in>set ps. hold_id (fst p) \<noteq> hold_id h)) (sweep_loop_faulty C ps 0) (\<lambda>_. ?I) ?I" for ps
  proof (cases "\<forall>p\<in>set ps. hold_id (fst p) \<noteq> hold_id h")
    case True
    show ?thesis by (rule ends_weaken [OF ends_conj [OF sweep_loop_faulty_other [OF True] sweep_loop_faulty_queue]]) auto
  next
    case False
    then show ?thesis by (auto simp: ends_def)
  qed
  have other: "hold_id g \<noteq> hold_id h" if "g \<in> set (due_holds toks (database w))" "hold_token h \<notin> set toks" for g toks
    using that h(1) key_inj [OF db_keys_ids(2) [OF keys], of g h] by (auto simp: due_holds_def)
  have select: "ends (?pop toks) (sql (select_due toks)) (\<lambda>ps v. ?I v \<and> (\<forall>p\<in>set ps. hold_id (fst p) \<noteq> hold_id h)) ?I" for toks
    by (rule ends_statement) (auto simp: select_due_def lift_result_def h dest!: mem_join_tiers other)
  have rest: "ends (?pop toks) (if toks = [] then ret 0 else bindE (sql (select_due toks))
      (\<lambda>ps. sweep_loop_faulty C ps 0)) (\<lambda>_. ?I) ?I" for toks
    by (intro ends_if ends_ret ends_bindE [OF select loop]) (simp add: h)
  have "ends (\<lambda>v. v = w) (statement ConnectionError (pop_pipeline C now)) ?pop ?I"
    using h mem_popped [of "hold_token h" now "redis w"] queued_pop [of now "redis w" "hold_token h"]
    by (intro ends_statement) (auto simp: pop_pipeline_def split: prod.splits)
  from ends_bindE [OF this rest] have "ends (\<lambda>v. v = w) (sweep_faulty C now) (\<lambda>_. ?I) ?I"
    unfolding sweep_faulty_def .
  then have "?I w'" using assms(1) by (cases r) (blast dest: endsD)+
  then show ?thesis using h(2) by (simp add: stranded_def)
qed

lemma stranded_create:
  assumes "create_hold_faulty C t0 t1 hid tok uid tid q (w, rs) = (r, (w', rs'))" and st: "stranded C h w"
  shows "stranded C h w'"
proof -
  have "queued_until C (redis w') (hold_token h) = None"
    using create_hold_faulty_queue [OF assms(1), of "hold_token h"] st by (auto simp: stranded_def)
  moreover have "h \<in> set (holds (database w'))"
    using assms(1)
  proof (cases rule: create_hold_faulty_cases)
    case (Commit g)
    show ?thesis by (rule create_hold_success [OF Commit(1)]) (use st in \<open>simp add: stranded_def\<close>)
  qed (use st in \<open>simp add: stranded_def\<close>)
  ultimately show ?thesis using st by (simp add: stranded_def)
qed

lemma release_keeps_others:
  assumes "release_hold_by_token C tok w = (Inr (), w')" and keys: "db_keys (database w)"
    and h: "h \<in> set (holds (database w))" "hold_token h \<noteq> tok"
  shows "h \<in> set (holds (database w'))"
proof (cases "w' = w")
  case False
  show ?thesis
    using assms(1) False
  proof (rule release_hold_success)
    fix g tier n
    assume g: "g \<in> set (holds (database w))" "hold_token g = tok"
      and w': "database w' = set_held (hold_tier g) (quantity_held tier - hold_quantity g)
        (set_hold_status (hold_id g) Released (database w))"
    have "hold_id g \<noteq> hold_id h" using key_inj [OF db_keys_ids(2) [OF keys] g(1) h(1)] g(2) h(2) by auto
    then show ?thesis using h(1) by (simp add: w' hold_status_other)
  qed
qed (simp add: h(1))

lemma stranded_release:
  assumes "release_hold_faulty C tok (w, rs) = (r, (w', rs'))" and "db_keys (database w)"
    and st: "stranded C h w" and "hold_token h \<noteq> tok"
  shows "stranded C h w'"
proof -
  have "h \<in> set (holds (database w'))"
    using assms(1)
  proof (cases rule: release_hold_faulty_cases)
    case Commit
    show ?thesis by (rule release_keeps_others [OF Commit(1) assms(2) _ assms(4)]) (use st in \<open>simp add: stranded_def\<close>)
  qed (use st in \<open>simp add: stranded_def\<close>)
  then show ?thesis
    using release_hold_faulty_queue [OF assms(1), of "hold_token h"] st by (simp add: stranded_def)
qed

lemma stranded_step:
  assumes "faulty_step C w a w'" and "checkout_inv (database w)" and "stranded C h w" and "a \<noteq> Releases (hold_token h)"
  shows "stranded C h w'"
proof -
  have "db_keys (database w)" using assms(2) by (simp add: checkout_inv_def)
  with assms(1,3,4) show ?thesis
    by (auto elim!: faulty_stepE dest: stranded_create stranded_release stranded_sweep)
qed

end

section \<open>Properties\<close>

lemma healthy_network_is_service:
  "create_hold_faulty C t0 t1 hid tok uid tid q (w, []) =
     (fst (create_hold C t0 t1 hid tok uid tid q w), (snd (create_hold C t0 t1 hid tok uid tid q w), []))"
  "release_hold_faulty C tok (w, []) = (fst (release_hold_by_token C tok w), (snd (release_hold_by_token C tok w), []))"
  "sweep_faulty C now (w, []) = (fst (sweep_expired_holds C now w), (snd (sweep_expired_holds C now w), []))"
  by (rule under_faultsD(1), rule create_hold_under_faults release_hold_under_faults sweep_under_faults)+

text \<open>
  C2: Whatever fails, and at whichever statements: after any sequence of creations,
  releases and sweeps no tier promises more tickets than it has, every ticket an active
  hold asks for is set aside, and no user has more than two active holds on one event.
\<close>

theorem faults_never_oversell:
  assumes "checkout_inv (database w)" and "faulty_run C w as w'"
  shows "(\<forall>t\<in>set (tiers (database w')).
        held_sum (tier_id t) (database w') \<le> quantity_held t
      \<and> quantity_held t + quantity_sold t \<le> quantity_total t)
    \<and> active_holds_count uid ev (database w') \<le> 2
    \<and> checkout_inv (database w')"
proof -
  have "checkout_inv (database w')" using faulty_run_inv assms by blast
  then show ?thesis by (simp add: inv_row) (simp add: checkout_inv_def abuse_ok_def)
qed

text \<open>A sweep of the world with one hold that is killed between the two updates of the hold.\<close>

definition half_swept_world :: "ttl_store world" where
  "half_swept_world = fst (snd (sweep_faulty ttl_api 900000000 (small_held_world, [Answered, Answered, Answered, Refused])))"

lemma small_held_pop: "fst (pop_expired_holds ttl_api 900000000 (redis small_held_world)) = [''k'']"
  by (simp add: pop_expired_holds_def small_held_world_def create_hold_eq small_defs
      rows_get_def Let_def active_holds_count_def rows_count_def quantity_available_def insertable_def
      pos_int_ok_def hold_caches_def ttl_defs ttl_empty_def ttl_zrange_def push_hold_expiry_def
      register_hold_def invalidate_availability_def minutes_def hold_duration_minutes_def)

lemma small_held_due:
  "join_tiers (tiers (database small_held_world)) (due_holds [''k''] (database small_held_world)) =
     [(new_hold 0 ''h'' ''k'' ''u'' ''t'' 3, small_tier\<lparr>quantity_held := 3\<rparr>)]"
  by (simp add: small_held_db small_db_def set_held_def due_holds_def join_tiers_Cons small_tier_def)

lemma half_swept:
  "sweep_faulty ttl_api 900000000 (small_held_world, [Answered, Answered, Answered, Refused])
     = (Inl OperationalError, (half_swept_world, []))"
  "database half_swept_world = set_hold_status ''h'' Expired (database small_held_world)"
  by (simp_all add: half_swept_world_def sweep_faulty_def bindE_def pop_pipeline_def case_prod_beta small_held_pop
      select_due_def lift_result_def small_held_due save_hold_status_def modify_def)

theorem faults_never_oversell_witness:
  "checkout_inv (database half_swept_world) \<and> held_sum ''t'' (database half_swept_world) = 0
     \<and> map quantity_held (tiers (database half_swept_world)) = [3]"
proof -
  have "faulty_run ttl_api small_held_world [Sweeps (Inl OperationalError)] half_swept_world"
    using run_step [OF run_start faulty_sweep [OF half_swept(1)]] by simp
  from faults_never_oversell [OF small_held_inv this] show ?thesis
    by (simp add: half_swept(2)) (simp add: small_held_db small_db_def set_held_def set_hold_status_def held_sum_def
        active_qty_def small_tier_def)
qed

text \<open>A creation that gets through to Redis: the four statements before it have been answered.\<close>

lemma create_hold_reaches_redis:
  assumes "create_hold C t0 t1 hid tok uid tid q w = (Inr h, w1)"
  shows "create_hold_faulty C t0 t1 hid tok uid tid q (w, Answered # Answered # Answered # Answered # rs) =
    transaction (\<lambda>_.
      bindE (redis_command (register_hold C t1 tok (hold_entry_of h))) (\<lambda>_.
      bindE (redis_command (push_hold_expiry C tok (hold_expires_at h))) (\<lambda>_.
      bindE (redis_command (invalidate_availability C tid)) (\<lambda>_. ret h)))
        (\<lparr>database = database w1, redis = redis w\<rparr>, rs)) (w, rs)"
  using assms
proof (rule create_hold_success)
  fix tier
  assume tier: "rows_get (\<lambda>t. tier_id t = tid) (tiers (database w)) = Inr tier"
    and c: "active_holds_count uid (tier_event tier) (database w) < 2" "q \<le> quantity_available tier"
      "insertable h (database w)" "pos_int_ok (quantity_held tier + q)"
    and h: "h = new_hold t0 hid tok uid tid q"
    and w1: "database w1 = set_held tid (quantity_held tier + q) (add_hold h (database w))"
  have "insert_hold h w = (Inr (), with_db (add_hold h) w)"
    using c(3) by (simp add: insert_hold_def insertable_def modify_def add_hold_def [abs_def])
  moreover have "update_tier_held tid (quantity_held tier + q) (with_db (add_hold h) w) =
      (Inr (), \<lparr>database = database w1, redis = redis w\<rparr>)"
    using c(4) by (simp add: update_tier_held_def modify_def w1 with_db_def)
  ultimately show ?thesis
    unfolding create_hold_faulty_def using c(1,2)
    by (intro transaction_cong)
      (simp add: get_tier_def lift_result_def tier max_holds_per_user_per_event_def Let_def h [symmetric])
qed

text \<open>The commit of a creation whose answer is lost.\<close>

lemma lost_commit:
  assumes "create_hold C t0 t1 hid tok uid tid q w = (Inr h, w1)"
  shows "create_hold_faulty C t0 t1 hid tok uid tid q (w, replicate 7 Answered @ [Unanswered])
    = (Inl OperationalError, (w1, []))"
proof -
  have "redis w1 = hold_caches C t1 h (redis w)" "hold_tier h = tid" "hold_token h = tok"
    using assms by (auto elim!: create_hold_success)
  then have "w1 = \<lparr>database = database w1,
      redis = invalidate_availability C tid (push_hold_expiry C tok (hold_expires_at h)
        (register_hold C t1 tok (hold_entry_of h) (redis w)))\<rparr>"
    by (intro world_eqI) (simp_all add: hold_caches_def)
  then show ?thesis
    using create_hold_reaches_redis [OF assms, of "[Answered, Answered, Answered, Unanswered]"]
    by (simp add: numeral_eq_Suc transaction_def modify_def with_redis_def ret_def)
qed

text \<open>
  C7: A service under faults is all or nothing on the database, and an exception does not
  tell which: a creation either did what it does without faults, and then the caller has the
  hold or, if the answer to the commit was lost, an exception; or it raised and the tables
  are untouched. The same goes for a release.
\<close>

theorem faulty_services_all_or_nothing:
  assumes "create_hold_faulty C t0 t1 hid tok uid tid q (w, rs) = (r, (w', rs'))"
    and "release_hold_faulty C tok2 (w, rs2) = (r2, (w2, rs2'))"
  shows "((\<exists>h. create_hold C t0 t1 hid tok uid tid q w = (Inr h, w') \<and> (r = Inr h \<or> r = Inl OperationalError))
        \<or> (\<exists>e. r = Inl e \<and> database w' = database w))
    \<and> ((release_hold_by_token C tok2 w = (Inr (), w2) \<and> (r2 = Inr () \<or> r2 = Inl OperationalError))
        \<or> (\<exists>e. r2 = Inl e \<and> database w2 = database w))"
  using create_hold_faulty_cases [OF assms(1)] release_hold_faulty_cases [OF assms(2)] by metis

theorem faulty_services_all_or_nothing_witness:
  "fst (create_hold_faulty ttl_api 0 0 ''h'' ''k'' ''u'' ''t'' 3 (small_world, replicate 7 Answered @ [Unanswered]))
      = Inl OperationalError
    \<and> create_hold ttl_api 0 0 ''h'' ''k'' ''u'' ''t'' 3 small_world = (Inr (new_hold 0 ''h'' ''k'' ''u'' ''t'' 3), small_held_world)
    \<and> release_hold_by_token ttl_api ''k'' small_world = (Inr (), small_world)"
proof -
  have "find_active_hold ''k'' small_world = (Inr (Inl DoesNotExist), small_world)"
    by (simp add: find_active_hold_def lift_result_def small_defs rows_get_def)
  then have "release_hold_faulty ttl_api ''k'' (small_world, [Answered, Answered]) = (Inr (), (small_world, []))"
    by (simp add: release_hold_faulty_def transaction_def ret_def)
  from faulty_services_all_or_nothing [OF lost_commit [OF small_create] this]
  show ?thesis
    using lost_commit [OF small_create] small_create by (auto simp: small_held_db small_world_def small_db_def)
qed

text \<open>
  C5: As long as every sweep ends, faults in the services cost no sweep a hold: a sweep at
  \<open>now\<close> leaves no hold active whose expiry has come.
\<close>

theorem faults_leave_no_expired_hold:
  assumes "redis_server C" and "checkout_inv (database w)" and "tracked C w"
    and "faulty_run C w as v" and "list_all uninterrupted as"
  shows "\<exists>n w'. sweep_expired_holds C now v = (Inr n, w')
      \<and> (\<forall>h. h \<in> set (holds (database w')) \<longrightarrow> hold_status h = Active \<longrightarrow> 0 \<le> hold_expires_at h
            \<longrightarrow> now < hold_expires_at h)"
proof -
  have inv: "checkout_inv (database v)" using faulty_run_inv [OF assms(4,2)] .
  have tr: "tracked C v"
    using faulty_run_keeps [where I = "tracked C" and ok = uninterrupted, OF assms(4,2,3,5)]
      redis_server.faulty_step_tracked [OF assms(1)] by blast
  obtain w' where run: "sweep_expired_holds C now v = (Inr (int (length (due_now C now v))), w')"
    using sweep_ok [OF inv] by blast
  show ?thesis
    using run redis_server.sweep_misses_none(2) [OF assms(1) inv tr run] by (intro exI conjI) auto
qed

theorem faults_leave_no_expired_hold_witness:
  "\<exists>n w'. sweep_expired_holds ttl_api 900000000 small_held_world = (Inr n, w')
     \<and> rows_count (\<lambda>h. hold_status h = Active) (holds (database w')) = 0"
proof -
  have "tracked ttl_api small_world" by (simp add: tracked_def small_defs)
  moreover have "checkout_inv (database small_world)" using small_inv by (simp add: small_world_def)
  moreover have "faulty_run ttl_api small_world [Creates ''k''] small_held_world"
    using run_step [OF run_start faulty_create [OF lost_commit [OF small_create]]] by simp
  ultimately obtain n w' where w': "sweep_expired_holds ttl_api 900000000 small_held_world = (Inr n, w')"
      "\<And>h. h \<in> set (holds (database w')) \<Longrightarrow> hold_status h = Active \<Longrightarrow> 0 \<le> hold_expires_at h \<Longrightarrow> 900000000 < hold_expires_at h"
    using faults_leave_no_expired_hold [OF ttl.redis_server_axioms, of small_world "[Creates ''k'']" small_held_world 900000000]
    by auto
  have "holds (database w') = map (swept_hold (sweep_tokens ttl_api 900000000 small_held_world)) (holds (database small_held_world))"
    by (rule sweep_ok [OF small_held_inv, of ttl_api 900000000]) (use w'(1) in simp)
  then have "hold_status h \<noteq> Active" if "h \<in> set (holds (database w'))" for h
    using w'(2) [OF that] that
    by (auto simp: small_held_db small_db_def swept_hold_def new_hold_def minutes_def hold_duration_minutes_def
        split: if_splits)
  then show ?thesis using w'(1) by (auto simp: rows_count_def filter_empty_conv)
qed

text \<open>
  C6: A sweep that fails after its pipeline strands the holds it had left: whatever runs
  afterwards, an expired hold it left active stays active, with its seats set aside, and no
  later sweep pops its token; only its own release can end it.
\<close>

theorem interrupted_sweep_strands:
  assumes "redis_server C" and "checkout_inv (database w)" and "tracked C w"
    and "sweep_faulty C now (w, rs) = (Inl e, (v, rs'))" and "v \<noteq> w"
    and "h \<in> set (holds (database v))" and "hold_status h = Active"
    and "0 \<le> hold_expires_at h" and "hold_expires_at h \<le> now"
    and "faulty_run C v as w'" and "Releases (hold_token h) \<notin> set as"
  shows "h \<in> set (holds (database w')) \<and> hold_token h \<notin> set (sweep_tokens C now' w')"
proof -
  have inv: "checkout_inv (database v)" by (rule sweep_faulty_inv [OF assms(4,2)])
  have st: "stranded C h v" by (rule redis_server.interrupted_sweep [OF assms(1,4,3,5-9)])
  have "list_all (\<lambda>a. a \<noteq> Releases (hold_token h)) as" using assms(11) by (induction as) auto
  then have "stranded C h w'"
    using faulty_run_keeps [where I = "stranded C h", OF assms(10) inv st] redis_server.stranded_step [OF assms(1)] by blast
  then show ?thesis by (simp add: stranded_def sweep_tokens_def redis_server.mem_popped [OF assms(1)])
qed

text \<open>The sweep of the same world, killed right after its pipeline.\<close>

definition popped_world :: "ttl_store world" where
  "popped_world = fst (snd (sweep_faulty ttl_api 900000000 (small_held_world, [Answered, Refused])))"

lemma popped:
  "sweep_faulty ttl_api 900000000 (small_held_world, [Answered, Refused]) = (Inl OperationalError, (popped_world, []))"
  "database popped_world = database small_held_world"
  "redis popped_world = snd (pop_expired_holds ttl_api 900000000 (redis small_held_world))"
  by (simp_all add: popped_world_def sweep_faulty_def pop_pipeline_def case_prod_beta small_held_pop)

theorem interrupted_sweep_strands_witness:
  "new_hold 0 ''h'' ''k'' ''u'' ''t'' 3 \<in> set (holds (database popped_world))
     \<and> ''k'' \<notin> set (sweep_tokens ttl_api 2000000000 popped_world)"
proof -
  let ?h = "new_hold 0 ''h'' ''k'' ''u'' ''t'' 3"
  have tr: "tracked ttl_api small_held_world"
    using ttl.tracked_create [OF _ small_create] by (simp add: tracked_def small_defs)
  have "''k'' \<in> set (fst (pop_expired_holds ttl_api 900000000 (redis small_held_world)))" by (simp add: small_held_pop)
  then have "queued_until ttl_api (redis popped_world) ''k'' \<noteq> queued_until ttl_api (redis small_held_world) ''k''"
    by (auto simp: popped(3) ttl.queued_pop ttl.mem_popped)
  then have "popped_world \<noteq> small_held_world" by auto
  then show ?thesis
    using interrupted_sweep_strands [OF ttl.redis_server_axioms small_held_inv tr popped(1), of ?h "[]" popped_world 2000000000]
    by (simp add: popped(2) small_held_db small_db_def minutes_def hold_duration_minutes_def run_start)
qed

text \<open>
  C8: The rollback of a creation does not reach Redis: when the invalidation of the availability
  cache, its last command, fails, the registry goes on answering for a hold that does not
  exist, with the data of the rolled back row, until the hold would have expired, and its
  token stays in the sorted set.
\<close>

theorem failed_create_stays_registered:
  assumes "redis_server C" and "create_hold C t0 t1 hid tok uid tid q w = (Inr h, w1)"
    and "instant_ok (hold_expires_at h)" and "t1 \<le> t" and "t \<le> hold_expires_at h"
  shows "\<exists>w'. create_hold_faulty C t0 t1 hid tok uid tid q (w, replicate 6 Answered @ [Refused])
        = (Inl ConnectionError, (w', []))
      \<and> database w' = database w \<and> tok \<notin> hold_token ` set (holds (database w'))
      \<and> get_hold C (redis w') t tok = Inr (Some (hold_entry_of h))
      \<and> queued_until C (redis w') tok = Some (hold_expires_at h)"
proof -
  let ?c = "push_hold_expiry C tok (hold_expires_at h) (register_hold C t1 tok (hold_entry_of h) (redis w))"
  have run: "create_hold_faulty C t0 t1 hid tok uid tid q (w, replicate 6 Answered @ [Refused])
      = (Inl ConnectionError, (\<lparr>database = database w, redis = ?c\<rparr>, []))"
    using create_hold_reaches_redis [OF assms(2), of "[Answered, Answered, Refused]"]
    by (simp add: numeral_eq_Suc transaction_def modify_def with_redis_def rolled_back_def)
  have "tok \<notin> hold_token ` set (holds (database w))"
    using assms(2) by (auto elim!: create_hold_success simp: insertable_def)
  moreover have "get_hold C ?c t tok = get_hold C (register_hold C t1 tok (hold_entry_of h) (redis w)) t tok"
    by (simp add: get_hold_def push_hold_expiry_def redis_server.get_z_add [OF assms(1)])
  moreover have "get_hold C (register_hold C t1 tok (hold_entry_of h) (redis w)) t tok = Inr (Some (hold_entry_of h))"
    using django_cache.get_registered_hold [of C "hold_entry_of h" t1 t] assms hold_ttl_outlives [of "hold_entry_of h" t1]
    by (simp add: redis_server.axioms(1) hold_entry_of_def)
  ultimately show ?thesis
    using run by (simp add: redis_server.queued_push [OF assms(1)])
qed

theorem failed_create_stays_registered_witness:
  "\<exists>w'. create_hold_faulty ttl_api 0 0 ''h'' ''k'' ''u'' ''t'' 3 (small_world, replicate 6 Answered @ [Refused])
        = (Inl ConnectionError, (w', []))
      \<and> holds (database w') = [] \<and> get_hold ttl_api (redis w') 60000000 ''k''
          = Inr (Some \<lparr>he_tier_id = ''t'', he_quantity = 3, he_expires_at = 900000000, he_user_id = ''u''\<rparr>)"
  using failed_create_stays_registered [OF ttl.redis_server_axioms small_create, of 60000000]
  by (auto simp: instant_ok_def minutes_def hold_duration_minutes_def small_world_def small_db_def hold_entry_of_def)

end
