(* ===== verification/System.thy ===== *)
theory System
  imports Webhooks Refunds EventApi SlugIndex CheckoutFaults
begin

text \<open>
  The components together: one step relation over the requests, tasks and webhooks of the
  modelled code, and what holds after any sequence of them. Each step runs from start to end
  before the next, except that holds, releases and sweeps can also be cut short by a fault.
  Two kinds of writes are no steps: those of requests that run at the same time
  (\<open>HoldRaces\<close> has what they do to a tier), and those of the admin site, whose form
  of a tier writes both counters as it is told (\<open>AdminSite\<close>).
\<close>

section \<open>Steps\<close>

text \<open>
  Work on Redis alone (rate limits, scans, cached availability and slugs) is one step: it
  leaves the database, whatever it makes of the keys. An edit of a tier is taken up to the
  fields \<open>event\<close> and \<open>quantity_total\<close>; \<open>TierApi\<close> has what giving these does. Services and
  sweeps also run under faults, where they can stop at any statement.
\<close>

inductive system_step :: "'c cache_api \<Rightarrow> 'c world \<Rightarrow> 'c world \<Rightarrow> bool" for C where
  sys_checkout: "checkout_step C w w' \<Longrightarrow> system_step C w w'"
| sys_fault: "faulty_step C w a w' \<Longrightarrow> system_step C w w'"
| sys_timeout: "release_hold_on_payment_timeout C now tok w = (r, w') \<Longrightarrow> system_step C w w'"
| sys_lemon_squeezy: "handle_lemon_squeezy_order_created C fmt now u fresh ev w = (r, w') \<Longrightarrow> system_step C w w'"
| sys_mpesa: "handle_mpesa_payment_succeeded C fmt now u fresh cid amount receipt w = (r, w') \<Longrightarrow> system_step C w w'"
| sys_refund: "request_refund dec u fresh pid reason actor w = (r, w') \<Longrightarrow> system_step C w w'"
| sys_register: "register E uid data (database w) = (r, d) \<Longrightarrow> system_step C w (w\<lparr>database := d\<rparr>)"
| sys_superuser: "create_superuser E uid email password kw (database w) = (r, d) \<Longrightarrow> system_step C w (w\<lparr>database := d\<rparr>)"
| sys_profile: "update_profile E uid data (database w) = (r, d) \<Longrightarrow> system_step C w (w\<lparr>database := d\<rparr>)"
| sys_company_create: "company_create slugify v cid name f (database w) = (resp, d) \<Longrightarrow> system_step C w (w\<lparr>database := d\<rparr>)"
| sys_company_patch: "company_patch v pk f (database w) = (resp, d) \<Longrightarrow> system_step C w (w\<lparr>database := d\<rparr>)"
| sys_event_create: "event_create v company e (database w) = (resp, d) \<Longrightarrow> system_step C w (w\<lparr>database := d\<rparr>)"
| sys_event_update: "event_update url_ok partial v pk ef (database w) = (resp, d) \<Longrightarrow> system_step C w (w\<lparr>database := d\<rparr>)"
| sys_event_destroy: "event_destroy v pk (database w) = (resp, d) \<Longrightarrow> system_step C w (w\<lparr>database := d\<rparr>)"
| sys_tier_create: "tier_create v tid form (database w) = (resp, d) \<Longrightarrow> system_step C w (w\<lparr>database := d\<rparr>)"
| sys_tier_update: "tier_update partial v event_id pk form (database w) = (resp, d) \<Longrightarrow> tf_event form = None \<Longrightarrow>
    tf_quantity_total form = None \<Longrightarrow> system_step C w (w\<lparr>database := d\<rparr>)"
| sys_tier_destroy: "tier_destroy v event_id pk (database w) = (resp, d) \<Longrightarrow> system_step C w (w\<lparr>database := d\<rparr>)"
| sys_slug: "get_company_id_by_slug C t0 t1 slug w = (res, w') \<Longrightarrow> system_step C w w'"
| sys_redis: "system_step C w (w\<lparr>redis := c\<rparr>)"

inductive system_reachable :: "'c cache_api \<Rightarrow> 'c world \<Rightarrow> 'c world \<Rightarrow> bool" for C where
  sys_refl: "system_reachable C w w"
| sys_trans: "system_reachable C w v \<Longrightarrow> system_step C v u \<Longrightarrow> system_reachable C w u"

section \<open>What no step touches\<close>

definition sales_same :: "db \<Rightarrow> db \<Rightarrow> bool" where
  "sales_same d d' \<longleftrightarrow> payments d' = payments d \<and> tickets d' = tickets d \<and> audit_logs d' = audit_logs d
     \<and> ev_id ` set (events d') \<subseteq> ev_id ` set (events d)
     \<and> (\<forall>t\<in>set (tiers d'). quantity_sold t = 0 \<or>
          (tier_id t, quantity_sold t) \<in> (\<lambda>t. (tier_id t, quantity_sold t)) ` set (tiers d))"

lemma sales_same_refl [simp]: "sales_same d d"
  by (simp add: sales_same_def rev_image_eqI)

lemma sales_same_trans: "sales_same d d' \<Longrightarrow> sales_same d' d'' \<Longrightarrow> sales_same d d''"
  unfolding sales_same_def image_iff prod.inject by (metis (no_types, lifting) order_trans)

lemma sales_same_tiers:
  "payments d' = payments d \<Longrightarrow> tickets d' = tickets d \<Longrightarrow> audit_logs d' = audit_logs d \<Longrightarrow> events d' = events d \<Longrightarrow>
   map (\<lambda>t. (tier_id t, quantity_sold t)) (tiers d') = map (\<lambda>t. (tier_id t, quantity_sold t)) (tiers d) \<Longrightarrow>
   sales_same d0 d' = sales_same d0 d"
  for d d' d0 :: db
proof -
  assume eq: "payments d' = payments d" "tickets d' = tickets d" "audit_logs d' = audit_logs d" "events d' = events d"
    "map (\<lambda>t. (tier_id t, quantity_sold t)) (tiers d') = map (\<lambda>t. (tier_id t, quantity_sold t)) (tiers d)"
  have "(\<forall>t\<in>set (tiers e). quantity_sold t = 0 \<or> (tier_id t, quantity_sold t) \<in> S) \<longleftrightarrow>
      (\<forall>k\<in>set (map (\<lambda>t. (tier_id t, quantity_sold t)) (tiers e)). snd k = 0 \<or> k \<in> S)" for S and e :: db
    by simp
  then show ?thesis unfolding sales_same_def eq(1-4) by (simp only: eq(5))
qed

lemma sales_same_set_held [simp]: "sales_same d (set_held tid n d') = sales_same d d'"
  by (rule sales_same_tiers) (simp_all add: set_held_def map_rows_update)

lemma sales_same_hold_rows [simp]:
  "sales_same d (add_hold h d') = sales_same d d'"
  "sales_same d (set_hold_status hid s d') = sales_same d d'"
  by (simp_all add: sales_same_def add_hold_def set_hold_status_def)

lemma create_same: "create_hold C t0 t1 hid tok uid tid q w = (r, w') \<Longrightarrow> sales_same (database w) (database w')"
  by (auto simp: create_hold_eq Let_def split: sum.splits if_splits)

lemma release_same: "release_hold_by_token C tok w = (r, w') \<Longrightarrow> sales_same (database w) (database w')"
  by (auto simp: release_hold_by_token_eq Let_def split: sum.splits if_splits exn.splits)

lemma sweep_loop_same: "sweep_loop C ps n w = (r, w') \<Longrightarrow> sales_same (database w) (database w')"
proof (induction ps arbitrary: n w)
  case Nil
  then show ?case by (simp add: ret_def)
next
  case (Cons p ps)
  obtain h s where p: "p = (h, s)" by (cases p)
  let ?w = "\<lparr>database = sweep_db_step (database w) (h, s), redis = drop_hold_caches C h (redis w)\<rparr>"
  have "sales_same (database w) (sweep_db_step (database w) (h, s))" by (simp add: sweep_db_step_def)
  moreover have "sales_same (database w) (set_hold_status (hold_id h) Expired (database w))" by simp
  ultimately show ?case
    using Cons.prems Cons.IH [of "n + 1" ?w] unfolding p sweep_loop_Cons
    by (auto simp del: sweep_loop.simps split: if_splits intro: sales_same_trans)
qed

lemma sweep_same: "sweep_expired_holds C now w = (r, w') \<Longrightarrow> sales_same (database w) (database w')"
  by (auto simp: sweep_expired_holds_def ret_def Let_def split: prod.splits if_splits dest: sweep_loop_same)

lemma sweep_faulty_same:
  assumes "sweep_faulty C now (w, rs) = (r, (w', rs'))"
  shows "sales_same (database w) (database w')"
proof -
  let ?I = "\<lambda>v. sales_same (database w) (database v)"
  have loop: "preserves ?I (sweep_loop_faulty C ps n)" for ps n
    by (rule sweep_loop_faulty_preserves) simp_all
  have "preserves ?I (if toks = [] then ret 0 else bindE (sql (select_due toks)) (\<lambda>ps. sweep_loop_faulty C ps 0))" for toks
    by (intro preserve_rules loop) (simp add: select_due_def lift_result_def)
  then have "preserves ?I (sweep_faulty C now)"
    unfolding sweep_faulty_def
    by (intro preserves_bindE [OF preserves_statement]) (simp_all add: pop_pipeline_def split: prod.split)
  from preservesD [OF this _ assms] show ?thesis by simp
qed

lemma faulty_step_same:
  assumes "faulty_step C w a w'"
  shows "sales_same (database w) (database w')"
  using assms
proof cases
  case (faulty_create t0 t1 hid tok uid tid q rs r rs')
  show ?thesis
    using faulty_create(2) by (cases rule: create_hold_faulty_cases) (auto dest: create_same)
next
  case (faulty_release tok rs r rs')
  show ?thesis
    using faulty_release(2) by (cases rule: release_hold_faulty_cases) (auto dest: release_same)
next
  case (faulty_sweep now rs r rs')
  then show ?thesis by (blast intro: sweep_faulty_same)
qed

section \<open>What the other operations touch\<close>

text \<open>The checkout tables of two databases agree.\<close>

definition checkout_same :: "db \<Rightarrow> db \<Rightarrow> bool" where
  "checkout_same d d' \<longleftrightarrow> tiers d' = tiers d \<and> holds d' = holds d"

lemma checkout_same_inv: "checkout_same d d' \<Longrightarrow> checkout_inv d \<Longrightarrow> checkout_inv d'"
  by (simp add: checkout_same_def inv_defs held_sum_def active_holds_count_def)

lemma timeout_cases:
  "release_hold_on_payment_timeout C now tok w = (r, w') \<Longrightarrow>
   w' = w \<or> (\<exists>r'. release_hold_by_token C tok w = (r', w'))"
  by (auto simp: release_hold_on_payment_timeout_def prog_simps Let_def split: sum.splits exn.splits if_splits prod.splits)

lemma account_steps:
  "register E uid data d = (r, d') \<Longrightarrow> sales_same d d' \<and> checkout_same d d'"
  "create_superuser E uid email password kw d = (r', d') \<Longrightarrow> sales_same d d' \<and> checkout_same d d'"
  "update_profile E uid form d = (r'', d') \<Longrightarrow> sales_same d d' \<and> checkout_same d d'"
proof -
  show "register E uid data d = (r, d') \<Longrightarrow> sales_same d d' \<and> checkout_same d d'"
    by (erule register_cases) (simp_all add: sales_same_def checkout_same_def)
  show "create_superuser E uid email password kw d = (r', d') \<Longrightarrow> sales_same d d' \<and> checkout_same d d'"
    by (auto simp: create_superuser_def create_user_eq Let_def sales_same_def checkout_same_def split: if_splits)
  show "update_profile E uid form d = (r'', d') \<Longrightarrow> sales_same d d' \<and> checkout_same d d'"
    by (auto simp: update_profile_def prog_simps Let_def sales_same_def checkout_same_def split: if_splits)
qed

lemma company_steps:
  "company_create slugify v cid name f d = (resp, d') \<Longrightarrow> sales_same d d' \<and> checkout_same d d'"
  "company_patch v pk f d = (resp, d') \<Longrightarrow> sales_same d d' \<and> checkout_same d d'"
  "event_create v company e d = (resp, d') \<Longrightarrow> d' = d"
  by (auto simp: company_create_def company_save_def company_patch_def event_create_def event_perform_create_def
      event_insert_def Let_def sales_same_def checkout_same_def
      split: option.splits prod.splits sum.splits if_splits list.splits)

lemma tier_steps:
  assumes inv: "checkout_inv d"
  shows "tier_create v tid form d = (resp, d') \<Longrightarrow> checkout_inv d' \<and> sales_same d d'"
    and "tier_update partial v event_id pk form d = (resp, d') \<Longrightarrow> tf_event form = None \<Longrightarrow>
      tf_quantity_total form = None \<Longrightarrow> checkout_inv d' \<and> sales_same d d'"
    and "tier_destroy v event_id pk d = (resp, d') \<Longrightarrow> checkout_inv d' \<and> sales_same d d'"
proof -
  show "tier_create v tid form d = (resp, d') \<Longrightarrow> checkout_inv d' \<and> sales_same d d'"
    using tier_create_inv [OF inv, of v tid form]
    by (auto simp: tier_create_def sales_same_def apply_tier_form_same blank_tier_def split: option.splits if_splits)
  show "tier_destroy v event_id pk d = (resp, d') \<Longrightarrow> checkout_inv d' \<and> sales_same d d'"
    using tier_destroy_inv [OF inv, of v event_id pk]
    by (auto simp: tier_destroy_def sales_same_def split: option.splits if_splits)
  assume upd: "tier_update partial v event_id pk form d = (resp, d')"
    and keep: "tf_event form = None" "tf_quantity_total form = None"
  show "checkout_inv d' \<and> sales_same d d'"
  proof (cases "resp = Ok")
    case False
    with upd have "d' = d" by (auto simp: tier_update_def split: option.splits if_splits)
    with inv show ?thesis by simp
  next
    case True
    from upd [unfolded True] show ?thesis
    proof (rule tier_update_OkD)
      fix t
      assume t: "t \<in> set (tiers d)" "tier_id t = pk" and d': "d' = save_tier (apply_tier_form form t) d"
      have "quantity_held t + quantity_sold t \<le> quantity_total t" using inv t(1) by (simp add: checkout_inv_def stock_ok_def)
      then have "checkout_inv d'"
        using save_tier_inv [OF inv t(1), of "apply_tier_form form t"] keep by (simp add: d' given_def)
      moreover have "sales_same d d' = sales_same d d"
        unfolding d' using inv t(1)
        by (intro sales_same_tiers map_save_tier) (simp_all add: save_tier_def checkout_inv_def db_keys_def)
      ultimately show ?thesis by simp
    qed
  qed
qed

lemma event_steps:
  assumes "checkout_inv d"
  shows "event_update url_ok partial v pk ef d = (resp, d') \<Longrightarrow> checkout_inv d' \<and> sales_same d d'"
    and "event_destroy v pk d = (resp', d') \<Longrightarrow> checkout_inv d' \<and> sales_same d d'"
proof -
  assume upd: "event_update url_ok partial v pk ef d = (resp, d')"
  have "sales_same d d'"
  proof (cases rule: event_update_cases [of url_ok partial v pk ef d])
    case (Saved e)
    have "map ev_id (events d') = map ev_id (events d)"
      using Saved(3) by (simp add: upd [unfolded prod_eq_iff] Saved(5) [unfolded upd snd_conv] rows_update_def)
    then have "ev_id ` set (events d') = ev_id ` set (events d)" by (metis set_map)
    then show ?thesis by (simp add: sales_same_def Saved(5) [unfolded upd snd_conv] rev_image_eqI)
  qed (simp add: upd)
  with event_writes_inv(1) [OF assms, of url_ok partial v pk ef] upd show "checkout_inv d' \<and> sales_same d d'" by simp
next
  assume del: "event_destroy v pk d = (resp', d')"
  have "sales_same d d'"
  proof (cases rule: event_destroy_cases [of v pk d])
    case (Removed tids e)
    then show ?thesis unfolding del snd_conv by (auto simp: sales_same_def)
  qed (simp add: del)
  with event_writes_inv(2) [OF assms, of v pk] del show "checkout_inv d' \<and> sales_same d d'" by simp
qed

lemma webhook_steps:
  "handle_lemon_squeezy_order_created C fmt now u fresh ev w = (r, w') \<Longrightarrow> database w' = database w"
  "handle_mpesa_payment_succeeded C fmt now u fresh cid amount receipt w = (r, w') \<Longrightarrow> database w' = database w"
  "request_refund dec u fresh pid reason actor w = (r', w') \<Longrightarrow> database w' = database w"
  by (auto simp: handle_ls_eq handle_mpesa_eq request_refund_eq split: sum.splits if_splits)

lemma system_step_keeps:
  assumes "system_step C w w'" and "checkout_inv (database w)"
  shows "checkout_inv (database w') \<and> sales_same (database w) (database w')"
  using assms
proof cases
  case sys_checkout
  then show ?thesis
    using assms(2) by (auto elim!: checkout_stepE dest: create_step_inv release_step_inv sweep_step_inv
        create_same release_same sweep_same)
next
  case (sys_fault a)
  then show ?thesis using assms(2) faulty_step_inv faulty_step_same by blast
next
  case (sys_timeout now tok r)
  then show ?thesis
    using timeout_cases [OF sys_timeout] assms(2) by (auto dest: release_step_inv release_same)
next
  case (sys_tier_create v tid form resp d)
  with tier_steps(1) [OF assms(2)] show ?thesis by simp
next
  case (sys_tier_update partial v event_id pk form resp d)
  with tier_steps(2) [OF assms(2)] show ?thesis by simp
next
  case (sys_tier_destroy v event_id pk resp d)
  with tier_steps(3) [OF assms(2)] show ?thesis by simp
next
  case (sys_event_update url_ok partial v pk ef resp d)
  with event_steps(1) [OF assms(2)] show ?thesis by simp
next
  case (sys_event_destroy v pk resp d)
  with event_steps(2) [OF assms(2)] show ?thesis by simp
next
  case (sys_slug t0 t1 slug res)
  then show ?thesis using lookup_database [of C t0 t1 slug w] assms(2) by simp
qed (use assms(2) in \<open>auto dest!: webhook_steps account_steps company_steps dest: checkout_same_inv\<close>)

lemma system_reachable_keeps:
  assumes "system_reachable C w w'" and "checkout_inv (database w)"
  shows "checkout_inv (database w') \<and> sales_same (database w) (database w')"
  using assms
  by (induction rule: system_reachable.induct) (auto dest: system_step_keeps intro: sales_same_trans)

section \<open>Property\<close>

text \<open>
  C9: The components together, one step after another. From a consistent database, whatever
  sequence of holds, releases and sweeps, each of them perhaps cut short by a fault, of
  payment timeouts, webhooks, refunds, registrations, profile updates, company and event
  requests, tiers added, removed or edited short of their event and total, and work on the
  caches runs, no step starting before the last has ended and nobody writing through the
  admin site: no tier promises more tickets than it has and no user has more than two active
  holds on one event. And it sells nothing: no payment, ticket or audit entry is ever added,
  changed or removed, no event is added, and a tier counts as sold what it did before, or
  nothing.
\<close>

theorem system_holds_but_never_sells:
  assumes "checkout_inv (database w)" and "system_reachable C w w'"
  shows "(\<forall>t\<in>set (tiers (database w')). held_sum (tier_id t) (database w') \<le> quantity_held t
        \<and> quantity_held t + quantity_sold t \<le> quantity_total t)
    \<and> active_holds_count uid ev (database w') \<le> 2
    \<and> payments (database w') = payments (database w) \<and> tickets (database w') = tickets (database w)
    \<and> audit_logs (database w') = audit_logs (database w)
    \<and> ev_id ` set (events (database w')) \<subseteq> ev_id ` set (events (database w))
    \<and> (\<forall>t\<in>set (tiers (database w')). quantity_sold t = 0
          \<or> (\<exists>s\<in>set (tiers (database w)). tier_id s = tier_id t \<and> quantity_sold s = quantity_sold t))"
proof -
  have "checkout_inv (database w')" "sales_same (database w) (database w')"
    using system_reachable_keeps [OF assms(2,1)] by simp_all
  moreover have "active_holds_count uid ev d \<le> 2" if "checkout_inv d" for d
    using that by (simp add: checkout_inv_def abuse_ok_def)
  ultimately show ?thesis
    unfolding sales_same_def image_iff prod.inject by (simp add: inv_row) metis
qed

theorem system_holds_but_never_sells_witness:
  "tickets (database small_held_world) = [] \<and> active_holds_count ''u'' ''e'' (database small_held_world) \<le> 2"
proof -
  have "system_reachable ttl_api small_world small_held_world"
    using sys_trans [OF sys_refl sys_checkout [OF step_create [OF small_create]]] .
  from system_holds_but_never_sells [OF _ this, of "''u''" "''e''"] show ?thesis
    using small_inv by (simp add: small_world_def) (simp add: small_db_def)
qed

end
