(* ===== verification/CheckoutLedger.thy ===== *)
theory CheckoutLedger
  imports CheckoutProps
begin

text \<open>
  What the checkout promises, without tables, columns and caches: a ledger of free tickets
  per tier and of the open holds. A hold takes its tickets out of the ledger, ending it
  gives them back. The services implement this ledger step by step, the sweep as long as
  it finds no two expired holds of one tier.
\<close>

section \<open>The specification\<close>

text \<open>An open hold is a token with its user, tier and quantity.\<close>

type_synonym open_hold = "uuid \<times> uuid \<times> uuid \<times> int"

record ledger =
  free_tickets :: "uuid \<Rightarrow> int option"
  event_at :: "uuid \<Rightarrow> uuid option"
  open_holds :: "open_hold list"

definition open_count :: "ledger \<Rightarrow> uuid \<Rightarrow> uuid option \<Rightarrow> nat" where
  "open_count L uid ev = length (filter (\<lambda>(k, u, t, q). u = uid \<and> event_at L t = ev) (open_holds L))"

text \<open>A tier that exists, fewer than two open holds of the user on its event, and enough free tickets.\<close>

definition ledger_take :: "uuid \<Rightarrow> uuid \<Rightarrow> uuid \<Rightarrow> int \<Rightarrow> ledger \<Rightarrow> ledger option" where
  "ledger_take uid tid tok q L =
     (case free_tickets L tid of
        None \<Rightarrow> None
      | Some n \<Rightarrow>
          if 2 \<le> open_count L uid (event_at L tid) \<or> n < q then None
          else Some (L\<lparr>free_tickets := (free_tickets L)(tid \<mapsto> n - q), open_holds := open_holds L @ [(tok, uid, tid, q)]\<rparr>))"

definition tickets_of :: "uuid \<Rightarrow> open_hold list \<Rightarrow> int" where
  "tickets_of tid os = sum_list (map (\<lambda>(k, u, t, q). if t = tid then q else 0) os)"

definition ledger_end :: "uuid list \<Rightarrow> ledger \<Rightarrow> ledger" where
  "ledger_end toks L =
     L\<lparr>free_tickets := (\<lambda>tid. map_option (\<lambda>n. n + tickets_of tid (filter (\<lambda>x. fst x \<in> set toks) (open_holds L))) (free_tickets L tid)),
       open_holds := filter (\<lambda>x. fst x \<notin> set toks) (open_holds L)\<rparr>"

section \<open>The abstraction\<close>

definition free_of :: "ticket_tier \<Rightarrow> int" where
  "free_of t = quantity_total t - quantity_held t - quantity_sold t"

definition open_of :: "checkout_hold \<Rightarrow> open_hold" where
  "open_of h = (hold_token h, hold_user h, hold_tier h, hold_quantity h)"

definition ledger_of :: "db \<Rightarrow> ledger" where
  "ledger_of d =
     \<lparr>free_tickets = map_of (map (\<lambda>t. (tier_id t, free_of t)) (tiers d)),
      event_at = map_of (map (\<lambda>t. (tier_id t, tier_event t)) (tiers d)),
      open_holds = map open_of (filter (\<lambda>h. hold_status h = Active) (holds d))\<rparr>"

lemma map_of_key:
  "distinct (map key rs) \<Longrightarrow> r \<in> set rs \<Longrightarrow> map_of (map (\<lambda>r. (key r, f r)) rs) (key r) = Some (f r)"
  by (rule map_of_is_SomeI) (auto simp: comp_def)

lemma map_of_key_none: "k \<notin> key ` set rs \<Longrightarrow> map_of (map (\<lambda>r. (key r, f r)) rs) k = None"
  by (induction rs) auto

lemma map_of_key_map:
  assumes "distinct (map key rs)" and "\<And>r. r \<in> set rs \<Longrightarrow> key (g r) = key r" and "\<And>r. r \<in> set rs \<Longrightarrow> Some (f (g r)) = F (key r) (f r)"
  shows "map_of (map (\<lambda>r. (key r, f r)) (map g rs)) k = (case map_of (map (\<lambda>r. (key r, f r)) rs) k of None \<Rightarrow> None | Some x \<Rightarrow> F k x)"
  using assms by (induction rs) auto

lemma tier_lookups:
  assumes "db_keys d" and "t \<in> set (tiers d)" and "tier_id t = tid"
  shows "free_tickets (ledger_of d) tid = Some (free_of t)" and "event_at (ledger_of d) tid = Some (tier_event t)"
  using assms map_of_key [OF db_keys_ids(1) [OF assms(1)] assms(2)] by (auto simp: ledger_of_def)

lemma hold_in_event_lookup:
  assumes "db_keys d"
  shows "hold_in_event (tiers d) ev h \<longleftrightarrow> event_at (ledger_of d) (hold_tier h) = Some ev"
proof (cases "\<exists>t\<in>set (tiers d). tier_id t = hold_tier h")
  case True
  then obtain t where t: "t \<in> set (tiers d)" "tier_id t = hold_tier h" by blast
  have "s = t" if "s \<in> set (tiers d)" "tier_id s = hold_tier h" for s
    using db_keys_ids(1) [OF assms] that t by (intro key_inj [of tier_id "tiers d"]) simp_all
  with t have "hold_in_event (tiers d) ev h \<longleftrightarrow> tier_event t = ev" unfolding hold_in_event_def by metis
  with tier_lookups(2) [OF assms t] show ?thesis by simp
next
  case False
  then have "event_at (ledger_of d) (hold_tier h) = None" unfolding ledger_of_def ledger.simps by (intro map_of_key_none) auto
  with False show ?thesis by (auto simp: hold_in_event_def)
qed

lemma open_count_active:
  assumes "db_keys d"
  shows "open_count (ledger_of d) uid (Some ev) = active_holds_count uid ev d"
proof -
  have "filter (\<lambda>(k, u, t, q). u = uid \<and> E t = Some ev) (map open_of hs)
      = map open_of (filter (\<lambda>h. hold_user h = uid \<and> E (hold_tier h) = Some ev) hs)" for E hs
    by (induction hs) (simp_all add: open_of_def)
  moreover have "open_holds (ledger_of d) = map open_of (filter (\<lambda>h. hold_status h = Active) (holds d))"
    by (simp add: ledger_of_def)
  ultimately show ?thesis
    by (simp add: open_count_def active_holds_count_def rows_count_def hold_in_event_lookup [OF assms] conj_ac)
qed

lemma ledger_of_free_map:
  assumes "db_keys d" and "tiers d' = map g (tiers d)" and "\<And>t. t \<in> set (tiers d) \<Longrightarrow> tier_id (g t) = tier_id t \<and> tier_event (g t) = tier_event t"
    and "\<And>t. t \<in> set (tiers d) \<Longrightarrow> Some (free_of (g t)) = F (tier_id t) (free_of t)"
  shows "free_tickets (ledger_of d') = (\<lambda>tid. case free_tickets (ledger_of d) tid of None \<Rightarrow> None | Some n \<Rightarrow> F tid n)"
    and "event_at (ledger_of d') = event_at (ledger_of d)"
proof -
  show "free_tickets (ledger_of d') = (\<lambda>tid. case free_tickets (ledger_of d) tid of None \<Rightarrow> None | Some n \<Rightarrow> F tid n)"
    using map_of_key_map [OF db_keys_ids(1) [OF assms(1)], of g free_of F] assms(2-4)
    by (simp add: ledger_of_def fun_eq_iff del: map_map)
  have "map (\<lambda>t. (tier_id t, tier_event t)) (map g (tiers d)) = map (\<lambda>t. (tier_id t, tier_event t)) (tiers d)"
    using assms(3) by simp
  then show "event_at (ledger_of d') = event_at (ledger_of d)" by (simp add: ledger_of_def assms(2) del: map_map)
qed

lemma tiers_set_held_map: "tiers (set_held tid n d) = map (\<lambda>t. if tier_id t = tid then t\<lparr>quantity_held := n\<rparr> else t) (tiers d)"
  by (simp add: set_held_def rows_update_def)

section \<open>The operations\<close>

lemma ledger_take_create:
  assumes inv: "checkout_inv d" and row: "t \<in> set (tiers d)" "tier_id t = tid"
    and h: "h = new_hold t0 hid tok uid tid q"
    and guards: "active_holds_count uid (tier_event t) d < 2" "q \<le> quantity_available t" "0 \<le> q"
  shows "ledger_take uid tid tok q (ledger_of d) = Some (ledger_of (set_held tid (quantity_held t + q) (add_hold h d)))"
proof -
  let ?d' = "set_held tid (quantity_held t + q) (add_hold h d)"
  have keys: "db_keys d" using inv by (simp add: checkout_inv_def)
  have same: "u = t" if "u \<in> set (tiers d)" "tier_id u = tid" for u
    using db_keys_ids(1) [OF keys] that row by (intro key_inj [of tier_id "tiers d"]) simp_all
  have "free_tickets (ledger_of ?d') = (\<lambda>k. case free_tickets (ledger_of d) k of None \<Rightarrow> None
      | Some n \<Rightarrow> Some (if k = tid then n - q else n))"
    and ev: "event_at (ledger_of ?d') = event_at (ledger_of d)"
    using ledger_of_free_map [OF keys, of ?d' "\<lambda>t'. if tier_id t' = tid then t'\<lparr>quantity_held := quantity_held t + q\<rparr> else t'"
        "\<lambda>k n. Some (if k = tid then n - q else n)"] same
    by (auto simp: tiers_set_held_map free_of_def)
  then have free: "free_tickets (ledger_of ?d') = (free_tickets (ledger_of d))(tid \<mapsto> free_of t - q)"
    using tier_lookups(1) [OF keys row] by (auto simp: fun_eq_iff split: option.split)
  have opn: "open_holds (ledger_of ?d') = open_holds (ledger_of d) @ [(tok, uid, tid, q)]"
    by (simp add: ledger_of_def h open_of_def)
  have "\<not> free_of t < q"
    using guards(2,3) inv_row(3) [OF inv row(1)] by (simp add: quantity_available_def free_of_def)
  moreover have "open_count (ledger_of d) uid (event_at (ledger_of d) tid) < 2"
    using guards(1) open_count_active [OF keys] tier_lookups(2) [OF keys row] by simp
  ultimately show ?thesis
    using free opn ev tier_lookups(1) [OF keys row] by (simp add: ledger_take_def)
qed

lemma ledger_refuses:
  assumes "checkout_inv (database w)" and "create_hold C t0 t1 hid tok uid tid q w = (Inl e, w')"
  shows "e = IntegrityError \<or> ledger_take uid tid tok q (ledger_of (database w)) = None"
proof (cases "rows_get (\<lambda>t. tier_id t = tid) (tiers (database w))")
  case (Inl e')
  have keys: "db_keys (database w)" using assms(1) by (simp add: checkout_inv_def)
  have "tid \<notin> tier_id ` set (tiers (database w))"
  proof
    assume "tid \<in> tier_id ` set (tiers (database w))"
    then obtain t where "t \<in> set (tiers (database w))" "tier_id t = tid" by blast
    then show False using rows_get_key [OF db_keys_ids(1) [OF keys], of t tid] Inl by simp
  qed
  then have "free_tickets (ledger_of (database w)) tid = None"
    unfolding ledger_of_def ledger.simps by (intro map_of_key_none) auto
  then show ?thesis by (simp add: ledger_take_def)
next
  case (Inr t)
  have keys: "db_keys (database w)" using assms(1) by (simp add: checkout_inv_def)
  note row = rows_get_Inr_D [OF Inr]
  have "e = IntegrityError \<or> 2 \<le> active_holds_count uid (tier_event t) (database w) \<or> quantity_available t < q"
    using assms(2) Inr by (auto simp: create_hold_eq Let_def split: if_splits)
  then show ?thesis
    using tier_lookups [OF keys row] open_count_active [OF keys, of uid "tier_event t"]
    by (auto simp: ledger_take_def quantity_available_def free_of_def)
qed

lemma distinct_key_once: "distinct (map key xs) \<Longrightarrow> length (filter (\<lambda>x. key x = k) xs) \<le> 1"
proof (induction xs)
  case (Cons a xs)
  then show ?case by (cases "key a = k") (auto simp: filter_empty_conv image_iff)
qed simp

text \<open>Ending the open holds of \<open>toks\<close>, at most one of each tier.\<close>

lemma ledger_end_due:
  assumes keys: "db_keys d" and one: "distinct (map hold_tier (due_holds toks d))"
    and d': "tiers d' = map (tier_after_sweep (due_holds toks d)) (tiers d)"
      "filter (\<lambda>h. hold_status h = Active) (holds d') = filter (\<lambda>h. hold_token h \<notin> set toks \<and> hold_status h = Active) (holds d)"
  shows "ledger_of d' = ledger_end toks (ledger_of d)"
proof -
  let ?due = "due_holds toks d"
  have ended: "filter (\<lambda>x. fst x \<in> set toks) (open_holds (ledger_of d)) = map open_of ?due"
    "filter (\<lambda>x. fst x \<notin> set toks) (open_holds (ledger_of d)) = open_holds (ledger_of d')"
    by (simp_all add: ledger_of_def filter_map comp_def open_of_def due_holds_def d'(2) conj_commute)
  have tickets: "tickets_of tid (map open_of hs) = sum_list (map hold_quantity (filter (\<lambda>h. hold_tier h = tid) hs))" for tid hs
    by (induction hs) (simp_all add: tickets_of_def open_of_def)
  have "free_of (tier_after_sweep ?due t) = free_of t + tickets_of (tier_id t) (map open_of ?due)" for t
  proof -
    have "length (filter (\<lambda>h. hold_tier h = tier_id t) ?due) \<le> 1"
      using one by (intro distinct_key_once)
    then consider "filter (\<lambda>h. hold_tier h = tier_id t) ?due = []" | h where "filter (\<lambda>h. hold_tier h = tier_id t) ?due = [h]"
      by (cases "filter (\<lambda>h. hold_tier h = tier_id t) ?due") auto
    then show ?thesis by cases (simp_all add: tickets tier_after_sweep_def last_option_def free_of_def)
  qed
  then have "free_tickets (ledger_of d') = (\<lambda>tid. case free_tickets (ledger_of d) tid of None \<Rightarrow> None
      | Some n \<Rightarrow> Some (n + tickets_of tid (map open_of ?due)))"
    and "event_at (ledger_of d') = event_at (ledger_of d)"
    using ledger_of_free_map [OF keys d'(1), of "\<lambda>tid n. Some (n + tickets_of tid (map open_of ?due))"]
    by (simp_all add: tier_after_sweep_def split: option.split)
  then show ?thesis
    by (simp add: ledger_end_def ended(1) [symmetric] ended(2) fun_eq_iff split: option.split)
qed

section \<open>Refinement\<close>

lemma ledger_end_release:
  assumes inv: "checkout_inv d" and h: "h \<in> set (holds d)" "hold_token h = tok" "hold_status h = Active"
    and row: "t \<in> set (tiers d)" "tier_id t = hold_tier h"
  shows "ledger_of (set_held (hold_tier h) (quantity_held t - hold_quantity h) (set_hold_status (hold_id h) Released d))
    = ledger_end [tok] (ledger_of d)"
proof -
  have keys: "db_keys d" using inv by (simp add: checkout_inv_def)
  have due: "due_holds [tok] d = [h]" by (rule due_holds_token [OF keys h])
  have same: "u = t" if "u \<in> set (tiers d)" "tier_id u = hold_tier h" for u
    using db_keys_ids(1) [OF keys] that row by (intro key_inj [of tier_id "tiers d"]) simp_all
  have ids: "hold_id g = hold_id h \<longleftrightarrow> hold_token g = tok" if "g \<in> set (holds d)" for g
    using key_inj [OF db_keys_ids(2) [OF keys] that h(1)] key_inj [OF db_keys_ids(3) [OF keys] that h(1)] h(2) by auto
  have "filter (\<lambda>g. hold_status g = Active) (rows_update (\<lambda>g. hold_id g = hold_id h) (\<lambda>g. g\<lparr>hold_status := Released\<rparr>) gs)
      = filter (\<lambda>g. hold_token g \<notin> set [tok] \<and> hold_status g = Active) gs"
    if "\<And>g. g \<in> set gs \<Longrightarrow> hold_id g = hold_id h \<longleftrightarrow> hold_token g = tok" for gs
    using that by (induction gs) auto
  from this [OF ids] have "filter (\<lambda>g. hold_status g = Active) (holds (set_hold_status (hold_id h) Released d))
      = filter (\<lambda>g. hold_token g \<notin> set [tok] \<and> hold_status g = Active) (holds d)"
    by (simp add: set_hold_status_def)
  moreover have "tiers (set_held (hold_tier h) (quantity_held t - hold_quantity h) (set_hold_status (hold_id h) Released d))
      = map (tier_after_sweep (due_holds [tok] d)) (tiers d)"
    using same by (auto simp: due tiers_set_held_map tier_after_sweep_def last_option_def)
  ultimately show ?thesis using keys by (intro ledger_end_due) (simp_all add: due)
qed

lemma create_refines:
  assumes inv: "checkout_inv (database w)"
  shows "case create_hold C t0 t1 hid tok uid tid q w of
        (Inr h, w') \<Rightarrow> ledger_take uid tid tok q (ledger_of (database w)) = Some (ledger_of (database w'))
      | (Inl e, w') \<Rightarrow> database w' = database w
          \<and> (e = IntegrityError \<or> ledger_take uid tid tok q (ledger_of (database w)) = None)"
proof -
  obtain r w' where create: "create_hold C t0 t1 hid tok uid tid q w = (r, w')" by fastforce
  show ?thesis
  proof (cases r)
    case (Inl e)
    with create create_hold_failure ledger_refuses [OF inv] show ?thesis by fastforce
  next
    case (Inr h)
    from create [unfolded Inr] obtain t where t: "rows_get (\<lambda>t. tier_id t = tid) (tiers (database w)) = Inr t"
      "active_holds_count uid (tier_event t) (database w) < 2" "q \<le> quantity_available t" "insertable h (database w)"
      "h = new_hold t0 hid tok uid tid q" "database w' = set_held tid (quantity_held t + q) (add_hold h (database w))"
      by (rule create_hold_success)
    have "0 \<le> q" using t(4,5) by (simp add: insertable_def pos_int_ok_def)
    with ledger_take_create [OF inv rows_get_Inr_D [OF t(1)] t(5,2,3)] show ?thesis
      by (simp add: create Inr t(6))
  qed
qed

lemma release_refines:
  assumes inv: "checkout_inv (database w)"
  shows "case release_hold_by_token C tok w of
        (r, w') \<Rightarrow> r = Inr () \<and> ledger_of (database w') = ledger_end [tok] (ledger_of (database w))"
proof -
  have keys: "db_keys (database w)" using inv by (simp add: checkout_inv_def)
  show ?thesis
  proof (rule release_hold_inv [OF inv, of C tok])
    assume same: "release_hold_by_token C tok w = (Inr (), w)"
      and none: "\<And>h. h \<in> set (holds (database w)) \<Longrightarrow> hold_token h = tok \<Longrightarrow> hold_status h \<noteq> Active"
    then have "due_holds [tok] (database w) = []" by (auto simp: due_holds_def filter_empty_conv)
    then have "ledger_of (database w) = ledger_end [tok] (ledger_of (database w))"
      using none by (intro ledger_end_due [OF keys]) (auto intro!: filter_cong)
    with same show ?thesis by simp
  next
    fix h t
    assume h: "h \<in> set (holds (database w))" "hold_token h = tok" "hold_status h = Active"
      and t: "t \<in> set (tiers (database w))" "tier_id t = hold_tier h"
      and run: "release_hold_by_token C tok w = (Inr (),
        \<lparr>database = set_held (hold_tier h) (quantity_held t - hold_quantity h) (set_hold_status (hold_id h) Released (database w)),
         redis = drop_hold_caches C h (redis w)\<rparr>)"
    show ?thesis using ledger_end_release [OF inv h t] by (simp add: run)
  qed
qed

text \<open>
  C3: The services implement the ledger. Seen as free tickets per tier and open holds, from
  any consistent database, a successful \<open>create_hold\<close> is exactly taking the hold, and it fails
  only where the ledger refuses or the database rejects the new row, changing nothing;
  \<open>release_hold_by_token\<close> always succeeds and is ending the hold; and so is a sweep for all
  tokens it popped, provided that no two of the expired holds are of one tier.
\<close>

theorem checkout_refines_ledger:
  assumes inv: "checkout_inv (database w)"
  shows "(case create_hold C t0 t1 hid tok uid tid q w of
        (Inr h, w') \<Rightarrow> ledger_take uid tid tok q (ledger_of (database w)) = Some (ledger_of (database w'))
      | (Inl e, w') \<Rightarrow> database w' = database w
          \<and> (e = IntegrityError \<or> ledger_take uid tid tok q (ledger_of (database w)) = None))
    \<and> (case release_hold_by_token C tok w of
        (r, w') \<Rightarrow> r = Inr () \<and> ledger_of (database w') = ledger_end [tok] (ledger_of (database w)))
    \<and> (distinct (map hold_tier (due_now C now w)) \<longrightarrow>
        (case sweep_expired_holds C now w of
           (r, w') \<Rightarrow> r = Inr (int (length (due_now C now w)))
             \<and> ledger_of (database w') = ledger_end (sweep_tokens C now w) (ledger_of (database w))))"
proof (intro conjI impI)
  have keys: "db_keys (database w)" using inv by (simp add: checkout_inv_def)
  show "case create_hold C t0 t1 hid tok uid tid q w of
        (Inr h, w') \<Rightarrow> ledger_take uid tid tok q (ledger_of (database w)) = Some (ledger_of (database w'))
      | (Inl e, w') \<Rightarrow> database w' = database w
          \<and> (e = IntegrityError \<or> ledger_take uid tid tok q (ledger_of (database w)) = None)"
    by (rule create_refines [OF inv])
  show "case release_hold_by_token C tok w of
        (r, w') \<Rightarrow> r = Inr () \<and> ledger_of (database w') = ledger_end [tok] (ledger_of (database w))"
    by (rule release_refines [OF inv])
  assume one: "distinct (map hold_tier (due_now C now w))"
  obtain v where v: "sweep_expired_holds C now w = (Inr (int (length (due_now C now w))), v)"
    "holds (database v) = map (swept_hold (sweep_tokens C now w)) (holds (database w))"
    "tiers (database v) = map (tier_after_sweep (due_now C now w)) (tiers (database w))"
    by (rule sweep_ok [OF inv, of C now])
  have "filter (\<lambda>h. hold_status h = Active) (map (swept_hold toks) hs) = filter (\<lambda>h. hold_token h \<notin> set toks \<and> hold_status h = Active) hs"
    for toks hs
    by (induction hs) (auto simp: swept_hold_def)
  then have "ledger_of (database v) = ledger_end (sweep_tokens C now w) (ledger_of (database w))"
    using one v(2,3) by (intro ledger_end_due [OF keys]) (simp_all add: due_now_def)
  with v(1) show "case sweep_expired_holds C now w of
           (r, w') \<Rightarrow> r = Inr (int (length (due_now C now w)))
             \<and> ledger_of (database w') = ledger_end (sweep_tokens C now w) (ledger_of (database w))"
    by simp
qed

theorem checkout_refines_ledger_witness:
  "ledger_take ''u'' ''t'' ''k'' 3 (ledger_of small_db) = Some (ledger_of (database small_held_world))"
proof -
  have inv: "checkout_inv (database small_world)" using small_inv by (simp add: small_world_def)
  from checkout_refines_ledger [OF inv] have "case create_hold ttl_api 0 0 ''h'' ''k'' ''u'' ''t'' 3 small_world of
        (Inr h, w') \<Rightarrow> ledger_take ''u'' ''t'' ''k'' 3 (ledger_of (database small_world)) = Some (ledger_of (database w'))
      | (Inl e, w') \<Rightarrow> database w' = database small_world
          \<and> (e = IntegrityError \<or> ledger_take ''u'' ''t'' ''k'' 3 (ledger_of (database small_world)) = None)"
    by (rule conjunct1)
  then show ?thesis by (simp add: small_create) (simp add: small_world_def)
qed

end
