(* ===== verification/HoldRaces.thy ===== *)
theory HoldRaces
  imports TierApi
begin

text \<open>
  The services of \<open>checkout/services.py\<close>, the sweep and the edits of a tier interleaved. Requests run as transactions at the
  level READ COMMITTED: a statement sees what is committed, \<open>SELECT ... FOR UPDATE\<close> and
  \<open>UPDATE\<close> wait for the lock of a row, and the writes of a transaction become visible when
  it commits. A request is cut where another can come between: for \<open>create_hold\<close> at the
  locking read of the tier, the count of active holds, and the commit; for
  \<open>release_hold_by_token\<close> at its reads (the hold with a lock, the tier without) and the
  commit; an edit of a tier at its read, which takes no lock, and the save of the whole row;
  the sweep, which runs in no transaction, at its query and at each of its updates.
\<close>

section \<open>Requests in progress\<close>

datatype request_state =
    NotStarted
  | TierLocked uuid uuid int ticket_tier
  | HoldsCounted uuid uuid int ticket_tier nat
  | ReleaseRead checkout_hold ticket_tier
  | EditRead ticket_tier
  | Sweeping "(checkout_hold \<times> ticket_tier) list"
  | HoldExpired checkout_hold ticket_tier "(checkout_hold \<times> ticket_tier) list"
  | Finished

record race_state =
  rs_db :: db
  rs_tier_locks :: "uuid set"
  rs_hold_locks :: "uuid set"
  rs_request :: "nat \<Rightarrow> request_state"

datatype race_op =
    LockTier nat uuid uuid int
  | CountHolds nat
  | CommitCreate nat instant uuid uuid
  | ReadHold nat uuid
  | CommitRelease nat
  | ReadTier nat bool "user option" "string option" uuid tier_form
  | SaveTier nat
  | ReadSweep nat "uuid list"
  | SweepHold nat
  | SweepTier nat

definition set_request :: "nat \<Rightarrow> request_state \<Rightarrow> race_state \<Rightarrow> race_state" where
  "set_request p r s = s\<lparr>rs_request := (rs_request s)(p := r)\<rparr>"

text \<open>
  One step of one request, \<open>None\<close> when it cannot run now. A refused hold ends the request
  without a write.
\<close>

fun race_do :: "race_op \<Rightarrow> race_state \<Rightarrow> race_state option" where
  "race_do (LockTier p uid tid q) s =
     (if rs_request s p = NotStarted \<and> tid \<notin> rs_tier_locks s
      then (case rows_get (\<lambda>t. tier_id t = tid) (tiers (rs_db s)) of
              Inl e \<Rightarrow> Some (set_request p Finished s)
            | Inr tier \<Rightarrow>
                Some (set_request p (TierLocked uid tid q tier)
                  (s\<lparr>rs_tier_locks := insert tid (rs_tier_locks s)\<rparr>)))
      else None)"
| "race_do (CountHolds p) s =
     (case rs_request s p of
        TierLocked uid tid q tier \<Rightarrow>
          Some (set_request p
            (HoldsCounted uid tid q tier (active_holds_count uid (tier_event tier) (rs_db s))) s)
      | _ \<Rightarrow> None)"
| "race_do (CommitCreate p t0 hid tok) s =
     (case rs_request s p of
        HoldsCounted uid tid q tier n \<Rightarrow>
          (let h = new_hold t0 hid tok uid tid q;
               s' = set_request p Finished (s\<lparr>rs_tier_locks := rs_tier_locks s - {tid}\<rparr>)
           in if max_holds_per_user_per_event \<le> n \<or> quantity_available tier < q
                 \<or> \<not> insertable h (rs_db s) \<or> \<not> pos_int_ok (quantity_held tier + q)
              then Some s'
              else Some (s'\<lparr>rs_db := set_held tid (quantity_held tier + q) (add_hold h (rs_db s))\<rparr>))
      | _ \<Rightarrow> None)"
| "race_do (ReadHold p tok) s =
     (if rs_request s p = NotStarted
      then (case rows_get (\<lambda>h. hold_token h = tok \<and> hold_status h = Active) (holds (rs_db s)) of
              Inl e \<Rightarrow> Some (set_request p Finished s)
            | Inr h \<Rightarrow>
                if hold_id h \<in> rs_hold_locks s then None
                else (case rows_get (\<lambda>t. tier_id t = hold_tier h) (tiers (rs_db s)) of
                        Inl e \<Rightarrow> Some (set_request p Finished s)
                      | Inr tier \<Rightarrow>
                          Some (set_request p (ReleaseRead h tier)
                            (s\<lparr>rs_hold_locks := insert (hold_id h) (rs_hold_locks s)\<rparr>))))
      else None)"
| "race_do (CommitRelease p) s =
     (case rs_request s p of
        ReleaseRead h tier \<Rightarrow>
          if hold_tier h \<in> rs_tier_locks s then None
          else (let s' = set_request p Finished (s\<lparr>rs_hold_locks := rs_hold_locks s - {hold_id h}\<rparr>)
                in if \<not> pos_int_ok (quantity_held tier - hold_quantity h) then Some s'
                   else Some (s'\<lparr>rs_db := set_held (hold_tier h) (quantity_held tier - hold_quantity h)
                          (set_hold_status (hold_id h) Released (rs_db s))\<rparr>))
      | _ \<Rightarrow> None)"
| "race_do (ReadTier p partial u event_id pk form) s =
     (if rs_request s p = NotStarted
      then (case (fst (tier_update partial u event_id pk form (rs_db s)), tier_lookup event_id pk (rs_db s)) of
              (Ok, Some t) \<Rightarrow> Some (set_request p (EditRead (apply_tier_form form t)) s)
            | _ \<Rightarrow> Some (set_request p Finished s))
      else None)"
| "race_do (SaveTier p) s =
     (case rs_request s p of
        EditRead t \<Rightarrow>
          if tier_id t \<in> rs_tier_locks s then None
          else Some (set_request p Finished (s\<lparr>rs_db := save_tier t (rs_db s)\<rparr>))
      | _ \<Rightarrow> None)"
| "race_do (ReadSweep p toks) s =
     (if rs_request s p = NotStarted
      then Some (set_request p (Sweeping (join_tiers (tiers (rs_db s)) (due_holds toks (rs_db s)))) s)
      else None)"
| "race_do (SweepHold p) s =
     (case rs_request s p of
        Sweeping ((h, t) # rest) \<Rightarrow>
          if hold_id h \<in> rs_hold_locks s then None
          else Some (set_request p (HoldExpired h t rest) (s\<lparr>rs_db := set_hold_status (hold_id h) Expired (rs_db s)\<rparr>))
      | _ \<Rightarrow> None)"
| "race_do (SweepTier p) s =
     (case rs_request s p of
        HoldExpired h t rest \<Rightarrow>
          if hold_tier h \<in> rs_tier_locks s then None
          else if (\<exists>r\<in>set (tiers (rs_db s)). tier_id r = hold_tier h) \<and> \<not> pos_int_ok (quantity_held t - hold_quantity h)
          then Some (set_request p Finished s)
          else Some (set_request p (Sweeping rest)
                 (s\<lparr>rs_db := set_held (hold_tier h) (quantity_held t - hold_quantity h) (rs_db s)\<rparr>))
      | _ \<Rightarrow> None)"

inductive race_reaches :: "race_state \<Rightarrow> race_op list \<Rightarrow> race_state \<Rightarrow> bool" where
  race_nil: "race_reaches s [] s"
| race_cons: "race_do op s = Some s' \<Longrightarrow> race_reaches s' ops s'' \<Longrightarrow> race_reaches s (op # ops) s''"

code_pred race_reaches .

inductive_simps race_reaches_simps: "race_reaches s [] s''" "race_reaches s (op # ops) s''"

definition race_start :: "db \<Rightarrow> race_state" where
  "race_start d = \<lparr>rs_db = d, rs_tier_locks = {}, rs_hold_locks = {}, rs_request = (\<lambda>_. NotStarted)\<rparr>"

section \<open>Creations only\<close>

fun creates :: "race_op \<Rightarrow> bool" where
  "creates (LockTier p uid tid q) = True"
| "creates (CountHolds p) = True"
| "creates (CommitCreate p t0 hid tok) = True"
| "creates op = False"

fun locked_tier :: "request_state \<Rightarrow> (uuid \<times> ticket_tier) option" where
  "locked_tier (TierLocked uid tid q tier) = Some (tid, tier)"
| "locked_tier (HoldsCounted uid tid q tier n) = Some (tid, tier)"
| "locked_tier r = None"

text \<open>
  The lock of a tier has one owner, and the row its owner has read is the row as it is.
\<close>

definition race_inv :: "race_state \<Rightarrow> bool" where
  "race_inv s \<longleftrightarrow> db_keys (rs_db s) \<and> stock_ok (rs_db s) \<and> covered (rs_db s)
     \<and> (\<forall>p tid tier. locked_tier (rs_request s p) = Some (tid, tier) \<longrightarrow>
          tid \<in> rs_tier_locks s \<and> tier \<in> set (tiers (rs_db s)) \<and> tier_id tier = tid)
     \<and> (\<forall>p p' tid tier tier'. locked_tier (rs_request s p) = Some (tid, tier) \<longrightarrow>
          locked_tier (rs_request s p') = Some (tid, tier') \<longrightarrow> p = p')"

lemma race_inv_owner:
  assumes "race_inv s" and "locked_tier (rs_request s p) = Some (tid, tier)"
  shows "tid \<in> rs_tier_locks s" and "tier \<in> set (tiers (rs_db s))" and "tier_id tier = tid"
  using assms unfolding race_inv_def by blast+

lemma race_inv_start: "checkout_inv d \<Longrightarrow> race_inv (race_start d)"
  by (simp add: race_inv_def race_start_def checkout_inv_def)

lemma race_inv_lock:
  assumes "race_inv s" and "race_do (LockTier p uid tid q) s = Some s'"
  shows "race_inv s'"
proof (cases "rows_get (\<lambda>t. tier_id t = tid) (tiers (rs_db s))")
  case (Inl e)
  with assms show ?thesis by (auto simp: race_inv_def set_request_def split: if_splits)
next
  case (Inr tier)
  note row = rows_get_Inr_D [OF Inr]
  have free: "tid \<notin> rs_tier_locks s" and s': "s' = set_request p (TierLocked uid tid q tier)
      (s\<lparr>rs_tier_locks := insert tid (rs_tier_locks s)\<rparr>)"
    using assms(2) Inr by (auto split: if_splits)
  have "locked_tier (rs_request s p') \<noteq> Some (tid, tier')" for p' tier'
    using assms(1) free by (auto simp: race_inv_def)
  with assms(1) row show ?thesis unfolding race_inv_def s' by (auto simp: set_request_def)
qed

lemma race_inv_count:
  assumes "race_inv s" and "race_do (CountHolds p) s = Some s'"
  shows "race_inv s'"
proof -
  obtain uid tid q tier where req: "rs_request s p = TierLocked uid tid q tier"
    and s': "s' = set_request p (HoldsCounted uid tid q tier (active_holds_count uid (tier_event tier) (rs_db s))) s"
    using assms(2) by (auto split: request_state.splits)
  have "locked_tier (rs_request s' p') = locked_tier (rs_request s p')" for p'
    by (simp add: s' set_request_def req)
  moreover have "rs_db s' = rs_db s" "rs_tier_locks s' = rs_tier_locks s"
    by (simp_all add: s' set_request_def)
  ultimately show ?thesis using assms(1) by (simp add: race_inv_def)
qed

lemma race_inv_finish:
  assumes "race_inv s" and "locked_tier (rs_request s p) = Some (tid, tier)"
  shows "race_inv (set_request p Finished (s\<lparr>rs_tier_locks := rs_tier_locks s - {tid}\<rparr>))"
proof -
  let ?s = "set_request p Finished (s\<lparr>rs_tier_locks := rs_tier_locks s - {tid}\<rparr>)"
  have other: "p' \<noteq> p \<and> locked_tier (rs_request s p') = Some (tid', tier')"
    if "locked_tier (rs_request ?s p') = Some (tid', tier')" for p' tid' tier'
    using that by (simp add: set_request_def split: if_splits)
  note owner = race_inv_owner [OF assms(1)]
  have sole: "p' = p''"
    if "locked_tier (rs_request s p') = Some (tid', t')" "locked_tier (rs_request s p'') = Some (tid', t'')"
    for p' p'' tid' t' t''
    using assms(1) that unfolding race_inv_def by blast
  have kept: "rs_db ?s = rs_db s" "rs_tier_locks ?s = rs_tier_locks s - {tid}"
    by (simp_all add: set_request_def)
  have "tid' \<noteq> tid" if "locked_tier (rs_request ?s p') = Some (tid', tier')" for p' tid' tier'
    using other [OF that] sole [OF _ assms(2)] by blast
  then show ?thesis
    using assms(1) other owner sole unfolding race_inv_def kept by blast
qed

lemma race_inv_commit:
  assumes inv: "race_inv s" and step: "race_do (CommitCreate p t0 hid tok) s = Some s'"
  shows "race_inv s'"
proof -
  obtain uid tid q tier n where req: "rs_request s p = HoldsCounted uid tid q tier n"
    using step by (auto split: request_state.splits)
  let ?h = "new_hold t0 hid tok uid tid q" and ?d = "rs_db s"
  let ?s = "set_request p Finished (s\<lparr>rs_tier_locks := rs_tier_locks s - {tid}\<rparr>)"
  let ?d' = "set_held tid (quantity_held tier + q) (add_hold ?h ?d)"
  have own: "locked_tier (rs_request s p) = Some (tid, tier)" by (simp add: req)
  note fin = race_inv_finish [OF inv own]
  note row = race_inv_owner(2,3) [OF inv own]
  from inv have base: "db_keys ?d" "stock_ok ?d" "covered ?d" unfolding race_inv_def by blast+
  consider "s' = ?s" | "s' = ?s\<lparr>rs_db := ?d'\<rparr>" "q \<le> quantity_available tier" "insertable ?h ?d"
      "pos_int_ok (quantity_held tier + q)"
    using step req by (auto simp: Let_def split: if_splits)
  then show ?thesis
  proof cases
    case 1
    with fin show ?thesis by simp
  next
    case 2
    have new: "db_keys ?d'" "stock_ok ?d'" "covered ?d'"
      using create_keeps_base [OF base row, of ?h] 2 by simp_all
    have others: "u \<in> set (tiers ?d')" if "locked_tier (rs_request ?s p') = Some (tid', u)" for p' tid' u
    proof -
      have "tid' \<in> rs_tier_locks ?s" "u \<in> set (tiers ?d)" "tier_id u = tid'"
        using race_inv_owner [OF fin that] by (simp_all add: set_request_def)
      then show ?thesis by (auto simp: mem_set_held set_request_def)
    qed
    show ?thesis
      using fin new others unfolding race_inv_def 2(1) by simp
  qed
qed

lemma race_inv_step:
  assumes "creates op" and "race_do op s = Some s'" and "race_inv s"
  shows "race_inv s'"
  using assms
proof (cases op)
  case (LockTier p uid tid q)
  with assms show ?thesis by (metis race_inv_lock)
next
  case (CountHolds p)
  with assms show ?thesis by (metis race_inv_count)
next
  case (CommitCreate p t0 hid tok)
  with assms show ?thesis by (metis race_inv_commit)
qed simp_all

lemma race_inv_run:
  "race_reaches s ops s' \<Longrightarrow> list_all creates ops \<Longrightarrow> race_inv s \<Longrightarrow> race_inv s'"
proof (induction rule: race_reaches.induct)
  case (race_nil s)
  then show ?case by simp
next
  case (race_cons op s s1 ops s2)
  then show ?case by (simp add: race_inv_step [OF _ race_cons.hyps(1)])
qed

lemma set_hold_status_set_held: "set_hold_status hid s (set_held tid n d) = set_held tid n (set_hold_status hid s d)"
  by (simp add: set_hold_status_def set_held_def)

lemma create_hold_success_D:
  assumes "create_hold C t0 t1 hid tok uid tid q w = (Inr h, w')"
    and "rows_get (\<lambda>t. tier_id t = tid) (tiers (database w)) = Inr tier"
  shows "active_holds_count uid (tier_event tier) (database w) < 2" and "q \<le> quantity_available tier"
    and "insertable h (database w)" and "pos_int_ok (quantity_held tier + q)"
    and "h = new_hold t0 hid tok uid tid q"
  using assms by (auto simp: create_hold_eq Let_def split: if_splits)

lemma race_lock:
  assumes "rs_request s p = NotStarted" and "tid \<notin> rs_tier_locks s"
    and "rows_get (\<lambda>t. tier_id t = tid) (tiers (rs_db s)) = Inr tier"
  shows "race_do (LockTier p uid tid q) s = Some (set_request p (TierLocked uid tid q tier)
    (s\<lparr>rs_tier_locks := insert tid (rs_tier_locks s)\<rparr>))"
  using assms by simp

lemma race_count:
  assumes "rs_request s p = TierLocked uid tid q tier"
  shows "race_do (CountHolds p) s = Some (set_request p
    (HoldsCounted uid tid q tier (active_holds_count uid (tier_event tier) (rs_db s))) s)"
  using assms by simp

lemma race_commit:
  assumes "rs_request s p = HoldsCounted uid tid q tier n" and "n < 2" and "q \<le> quantity_available tier"
    and "insertable (new_hold t0 hid tok uid tid q) (rs_db s)" and "pos_int_ok (quantity_held tier + q)"
  shows "race_do (CommitCreate p t0 hid tok) s = Some (set_request p Finished
    (s\<lparr>rs_tier_locks := rs_tier_locks s - {tid},
       rs_db := set_held tid (quantity_held tier + q) (add_hold (new_hold t0 hid tok uid tid q) (rs_db s))\<rparr>))"
  using assms by (simp add: Let_def max_holds_per_user_per_event_def set_request_def)

section \<open>One request by itself\<close>

definition create_ops :: "nat \<Rightarrow> instant \<Rightarrow> uuid \<Rightarrow> uuid \<Rightarrow> uuid \<Rightarrow> uuid \<Rightarrow> int \<Rightarrow> race_op list" where
  "create_ops p t0 hid tok uid tid q = [LockTier p uid tid q, CountHolds p, CommitCreate p t0 hid tok]"

definition release_ops :: "nat \<Rightarrow> uuid \<Rightarrow> race_op list" where
  "release_ops p tok = [ReadHold p tok, CommitRelease p]"

definition edit_ops :: "nat \<Rightarrow> bool \<Rightarrow> user option \<Rightarrow> string option \<Rightarrow> uuid \<Rightarrow> tier_form \<Rightarrow> race_op list" where
  "edit_ops p partial u event_id pk form = [ReadTier p partial u event_id pk form, SaveTier p]"

text \<open>The sweep of tokens that name \<open>n\<close> holds.\<close>

definition sweep_ops :: "nat \<Rightarrow> uuid list \<Rightarrow> nat \<Rightarrow> race_op list" where
  "sweep_ops p toks n = ReadSweep p toks # concat (replicate n [SweepHold p, SweepTier p])"

text \<open>A request goes on until it has ended.\<close>

fun race_run :: "race_op list \<Rightarrow> race_state \<Rightarrow> race_state" where
  "race_run [] s = s"
| "race_run (op # ops) s = (case race_do op s of None \<Rightarrow> s | Some s' \<Rightarrow> race_run ops s')"

lemma set_request_simps [simp]:
  "rs_db (set_request p r s) = rs_db s" "rs_tier_locks (set_request p r s) = rs_tier_locks s"
  "rs_hold_locks (set_request p r s) = rs_hold_locks s"
  "rs_request (set_request p r s) = (rs_request s)(p := r)"
  by (simp_all add: set_request_def)

lemma race_start_simps [simp]:
  "rs_db (race_start d) = d" "rs_tier_locks (race_start d) = {}" "rs_hold_locks (race_start d) = {}"
  "rs_request (race_start d) p = NotStarted"
  by (simp_all add: race_start_def)

section \<open>Properties\<close>

lemma race_run_finished:
  "rs_request s p = Finished \<Longrightarrow> race_run (concat (replicate n [SweepHold p, SweepTier p])) s = s"
  by (cases n) simp_all

lemma race_run_sweep:
  assumes "rs_request s p = Sweeping ps" and "rs_tier_locks s = {}" and "rs_hold_locks s = {}"
  shows "rs_db (race_run (concat (replicate (length ps) [SweepHold p, SweepTier p])) s)
    = database (snd (sweep_loop C ps n \<lparr>database = rs_db s, redis = c\<rparr>))"
  using assms
proof (induction ps arbitrary: s n c)
  case Nil
  then show ?case by (simp add: ret_def)
next
  case (Cons p' ps)
  obtain h t where [simp]: "p' = (h, t)" by (cases p')
  let ?s = "set_request p (HoldExpired h t ps) (s\<lparr>rs_db := set_hold_status (hold_id h) Expired (rs_db s)\<rparr>)"
  show ?case
    using Cons.prems Cons.IH [of "set_request p (Sweeping ps) (?s\<lparr>rs_db := sweep_db_step (rs_db s) (h, t)\<rparr>)" "n + 1"]
    by (simp add: sweep_loop_Cons sweep_db_step_def with_db_def race_run_finished del: sweep_loop.simps)
qed

text \<open>
  The interleaved requests are the services: a request that runs from its first step to
  its last with no other around leaves the database exactly as \<open>create_hold\<close>,
  \<open>release_hold_by_token\<close>, an edit of a tier or the loop of the sweep leaves it, on every branch.
\<close>

theorem race_alone_is_service:
  "rs_db (race_run (create_ops p t0 hid tok uid tid q) (race_start d))
     = database (snd (create_hold C t0 t1 hid tok uid tid q \<lparr>database = d, redis = c\<rparr>))
   \<and> rs_db (race_run (release_ops p tok) (race_start d))
     = database (snd (release_hold_by_token C tok \<lparr>database = d, redis = c\<rparr>))
   \<and> rs_db (race_run (edit_ops p partial u event_id pk form) (race_start d)) = snd (tier_update partial u event_id pk form d)
   \<and> rs_db (race_run (sweep_ops p toks (length (join_tiers (tiers d) (due_holds toks d)))) (race_start d))
     = database (snd (sweep_loop C (join_tiers (tiers d) (due_holds toks d)) 0 \<lparr>database = d, redis = c\<rparr>))"
proof (intro conjI)
  show "rs_db (race_run (create_ops p t0 hid tok uid tid q) (race_start d))
     = database (snd (create_hold C t0 t1 hid tok uid tid q \<lparr>database = d, redis = c\<rparr>))"
    by (cases "rows_get (\<lambda>t. tier_id t = tid) (tiers d)")
      (auto simp: create_ops_def create_hold_eq Let_def max_holds_per_user_per_event_def not_le not_less)
  show "rs_db (race_run (release_ops p tok) (race_start d))
     = database (snd (release_hold_by_token C tok \<lparr>database = d, redis = c\<rparr>))"
    by (auto simp: release_ops_def release_hold_by_token_eq Let_def split: sum.splits exn.splits)
  show "rs_db (race_run (edit_ops p partial u event_id pk form) (race_start d)) = snd (tier_update partial u event_id pk form d)"
    using tier_update_cases [of partial u event_id pk form d]
    by (cases "fst (tier_update partial u event_id pk form d)") (auto simp: edit_ops_def)
  show "rs_db (race_run (sweep_ops p toks (length (join_tiers (tiers d) (due_holds toks d)))) (race_start d))
     = database (snd (sweep_loop C (join_tiers (tiers d) (due_holds toks d)) 0 \<lparr>database = d, redis = c\<rparr>))"
    using race_run_sweep [of "set_request p (Sweeping (join_tiers (tiers d) (due_holds toks d))) (race_start d)" p
        "join_tiers (tiers d) (due_holds toks d)" C 0 c]
    by (simp add: sweep_ops_def)
qed

text \<open>
  C12: The row lock does its work among creations. However any number of \<open>create_hold\<close>
  requests interleave, from a consistent database no tier promises more tickets than it
  has, and every ticket an active hold asks for is set aside.
\<close>

theorem concurrent_creates_never_oversell:
  assumes "checkout_inv d" and "race_reaches (race_start d) ops s" and "list_all creates ops"
  shows "\<forall>t\<in>set (tiers (rs_db s)). held_sum (tier_id t) (rs_db s) \<le> quantity_held t
      \<and> quantity_held t + quantity_sold t \<le> quantity_total t"
  using race_inv_run [OF assms(2,3) race_inv_start [OF assms(1)]]
  by (simp add: race_inv_def covered_def stock_ok_def)

theorem concurrent_creates_never_oversell_witness:
  "\<exists>s. race_reaches (race_start small_db) (create_ops 1 0 ''h'' ''k'' ''u'' ''t'' 3) s
     \<and> held_sum ''t'' (rs_db s) \<le> 3"
proof -
  let ?ops = "create_ops 1 0 ''h'' ''k'' ''u'' ''t'' 3"
  have "\<exists>s. race_reaches (race_start small_db) ?ops s \<and> rs_db s =
      set_held ''t'' 3 (add_hold (new_hold 0 ''h'' ''k'' ''u'' ''t'' 3) small_db)"
    by (simp add: create_ops_def race_reaches_simps small_defs rows_get_def Let_def active_holds_count_def
        rows_count_def max_holds_per_user_per_event_def quantity_available_def insertable_def pos_int_ok_def)
  then obtain s where s: "race_reaches (race_start small_db) ?ops s" and d: "rs_db s =
      set_held ''t'' 3 (add_hold (new_hold 0 ''h'' ''k'' ''u'' ''t'' 3) small_db)" by blast
  have "list_all creates ?ops" by (simp add: create_ops_def)
  from concurrent_creates_never_oversell [OF small_inv s this] have "held_sum ''t'' (rs_db s) \<le> 3"
    by (simp add: d set_held_def small_defs)
  with s show ?thesis by blast
qed


text \<open>A hold that comes in between is not given back, but what it took is written over.\<close>

lemma late_give_back:
  assumes inv: "checkout_inv d" "accounted d" and h: "h \<in> set (holds d)" "hold_status h = Active"
    and row: "tier \<in> set (tiers d)" "tier_id tier = hold_tier h"
    and fresh: "insertable h' d" and h': "h' = new_hold t0 hid tok uid (hold_tier h) q" and "s \<noteq> Active"
    and d': "d' = set_held (hold_tier h) (quantity_held tier - hold_quantity h)
      (set_hold_status (hold_id h) s (set_held (hold_tier h) n (add_hold h' d)))"
  shows "h' \<in> set (holds d')"
    and "\<exists>t\<in>set (tiers d'). tier_id t = hold_tier h \<and> held_sum (tier_id t) d' = quantity_held t + q"
proof -
  from inv have keys: "db_keys d" by (simp add: checkout_inv_def)
  have "hold_id h' \<noteq> hold_id h" using fresh h by (auto simp: insertable_def)
  then show "h' \<in> set (holds d')" by (auto simp: d' mem_set_hold_status)
  have "db_keys (add_hold h' d)"
    using db_keys_add_hold [OF keys, of h'] fresh imageI [OF row(1), of tier_id] row(2) h' by simp
  then have "held_sum (hold_tier h) d' = held_sum (hold_tier h) (add_hold h' d) - active_qty (hold_tier h) h"
    using held_sum_set_hold_status [OF db_keys_ids(2), of "add_hold h' d" h s] h \<open>s \<noteq> Active\<close>
    by (simp add: d' set_hold_status_set_held)
  also have "\<dots> = quantity_held tier - hold_quantity h + q"
    using inv(2) row h h' by (auto simp: held_sum_add_hold active_qty_def accounted_def)
  finally have sum: "held_sum (hold_tier h) d' = quantity_held tier - hold_quantity h + q" .
  let ?t = "tier\<lparr>quantity_held := quantity_held tier - hold_quantity h\<rparr>"
  have "?t \<in> set (tiers d')"
    using row by (auto simp: d' set_hold_status_set_held set_held_twice mem_set_held intro!: bexI [of _ tier])
  then show "\<exists>t\<in>set (tiers d'). tier_id t = hold_tier h \<and> held_sum (tier_id t) d' = quantity_held t + q"
    using row sum by (intro bexI [of _ ?t]) simp_all
qed

text \<open>
  C13: A release next to a creation loses the creation's update: it writes the held column
  from the tier as it was before the creation committed. Where every ticket set aside
  belonged to an active hold, the active holds now ask for more tickets than are set aside,
  by the quantity just sold, and the tier offers these tickets again.
\<close>

theorem release_race_loses_update:
  assumes inv: "checkout_inv d" "accounted d" and h: "h \<in> set (holds d)" "hold_status h = Active"
    and create: "create_hold C t0 t1 hid tok uid (hold_tier h) q \<lparr>database = d, redis = c\<rparr> = (Inr h', w)"
    and "p \<noteq> p'"
  shows "\<exists>s. race_reaches (race_start d)
        [ReadHold p (hold_token h), LockTier p' uid (hold_tier h) q, CountHolds p',
         CommitCreate p' t0 hid tok, CommitRelease p] s
      \<and> h' \<in> set (holds (rs_db s)) \<and> hold_status h' = Active \<and> hold_quantity h' = q
      \<and> (\<exists>t\<in>set (tiers (rs_db s)). tier_id t = hold_tier h
            \<and> held_sum (tier_id t) (rs_db s) = quantity_held t + q)"
  using create
proof (rule create_hold_success)
  fix tier :: ticket_tier
  let ?d1 = "set_held (hold_tier h) (quantity_held tier + q) (add_hold h' d)"
  let ?d2 = "set_held (hold_tier h) (quantity_held tier - hold_quantity h) (set_hold_status (hold_id h) Released ?d1)"
  assume tier: "rows_get (\<lambda>t. tier_id t = hold_tier h) (tiers (database \<lparr>database = d, redis = c\<rparr>)) = Inr tier"
    and guard: "active_holds_count uid (tier_event tier) (database \<lparr>database = d, redis = c\<rparr>) < 2"
    and avail: "q \<le> quantity_available tier" "insertable h' (database \<lparr>database = d, redis = c\<rparr>)"
      "pos_int_ok (quantity_held tier + q)"
    and h': "h' = new_hold t0 hid tok uid (hold_tier h) q"
  from inv have keys: "db_keys d" by (simp add: checkout_inv_def)
  note get = active_hold_get [OF keys h]
  from tier have row: "tier \<in> set (tiers d)" "tier_id tier = hold_tier h" using rows_get_Inr_D by fastforce+
  have ok: "pos_int_ok (quantity_held tier - hold_quantity h)"
    using release_keeps_inv(1) [OF inv(1) h row, of Released] by simp
  have "\<exists>s. race_reaches (race_start d)
        [ReadHold p (hold_token h), LockTier p' uid (hold_tier h) q, CountHolds p',
         CommitCreate p' t0 hid tok, CommitRelease p] s \<and> rs_db s = ?d2"
    using tier guard avail get ok \<open>p \<noteq> p'\<close>
    by (simp add: race_reaches_simps Let_def max_holds_per_user_per_event_def h' not_le not_less)
  then obtain s where s: "race_reaches (race_start d)
        [ReadHold p (hold_token h), LockTier p' uid (hold_tier h) q, CountHolds p',
         CommitCreate p' t0 hid tok, CommitRelease p] s" "rs_db s = ?d2" by blast
  with late_give_back [OF inv h row _ h' _ s(2)] avail(2) show ?thesis
    by (intro exI [of _ s]) (simp add: h')
qed

text \<open>The creation succeeds on the row that the other request has read, too.\<close>

lemma edit_loses_update:
  assumes inv: "checkout_inv d" "accounted d" and tier: "rows_get (\<lambda>t. tier_id t = tid) (tiers d) = Inr tier"
    and guard: "active_holds_count uid (tier_event tier) d < 2"
    and avail: "q \<le> quantity_available tier" "insertable (new_hold t0 hid tok uid tid q) d" "pos_int_ok (quantity_held tier + q)"
    and edit: "fst (tier_update partial u event_id tid form d) = Ok" and "p \<noteq> p'"
  shows "\<exists>s. race_reaches (race_start d)
        [ReadTier p partial u event_id tid form, LockTier p' uid tid q, CountHolds p', CommitCreate p' t0 hid tok, SaveTier p] s
      \<and> (\<exists>t\<in>set (tiers (rs_db s)). tier_id t = tid \<and> held_sum (tier_id t) (rs_db s) = quantity_held t + q)"
proof -
  let ?e = "save_tier (apply_tier_form form tier) (set_held tid (quantity_held tier + q) (add_hold (new_hold t0 hid tok uid tid q) d))"
  from inv have keys: "db_keys d" by (simp add: checkout_inv_def)
  from tier have row: "tier \<in> set (tiers d)" "tier_id tier = tid" using rows_get_Inr_D by fastforce+
  obtain t where t: "tier_lookup event_id tid d = Some t"
    using edit tier_update_cases [of partial u event_id tid form d] by auto
  with tier_lookup_SomeD [OF t] keys row have "tier_lookup event_id tid d = Some tier"
    by (auto simp: db_keys_def dest: key_inj)
  then have "\<exists>s. race_reaches (race_start d)
        [ReadTier p partial u event_id tid form, LockTier p' uid tid q, CountHolds p', CommitCreate p' t0 hid tok, SaveTier p] s
      \<and> rs_db s = ?e"
    using tier guard avail edit row \<open>p \<noteq> p'\<close>
    by (simp add: race_reaches_simps Let_def max_holds_per_user_per_event_def not_le not_less)
  moreover have "apply_tier_form form tier \<in> set (tiers ?e)"
    using row by (auto simp: mem_save_tier set_held_def bex_rows_update)
  moreover have "held_sum tid ?e = quantity_held tier + q"
    using inv(2) row by (auto simp: held_sum_add_hold active_qty_def accounted_def)
  ultimately show ?thesis using row by (metis apply_tier_form_same(1,2))
qed

lemma sweep_loses_update:
  assumes inv: "checkout_inv d" "accounted d" and h: "h \<in> set (holds d)" "hold_status h = Active"
    and tier: "rows_get (\<lambda>t. tier_id t = hold_tier h) (tiers d) = Inr tier"
    and guard: "active_holds_count uid (tier_event tier) d < 2"
    and avail: "q \<le> quantity_available tier" "insertable (new_hold t0 hid tok uid (hold_tier h) q) d"
      "pos_int_ok (quantity_held tier + q)" and "p \<noteq> p'"
  shows "\<exists>s. race_reaches (race_start d)
        [ReadSweep p [hold_token h], LockTier p' uid (hold_tier h) q, CountHolds p',
         CommitCreate p' t0 hid tok, SweepHold p, SweepTier p] s
      \<and> (\<exists>t\<in>set (tiers (rs_db s)). tier_id t = hold_tier h \<and> held_sum (tier_id t) (rs_db s) = quantity_held t + q)"
proof -
  let ?s = "set_held (hold_tier h) (quantity_held tier - hold_quantity h) (set_hold_status (hold_id h) Expired
    (set_held (hold_tier h) (quantity_held tier + q) (add_hold (new_hold t0 hid tok uid (hold_tier h) q) d)))"
  from inv have keys: "db_keys d" by (simp add: checkout_inv_def)
  from tier have row: "tier \<in> set (tiers d)" "tier_id tier = hold_tier h" using rows_get_Inr_D by fastforce+
  have "join_tiers (tiers d) (due_holds [hold_token h] d) = [(h, tier)]"
    using find_tier [of "tiers d" tier "hold_tier h"] keys row due_holds_token [OF keys h(1) refl h(2)]
    by (simp add: join_tiers_Cons db_keys_def)
  then obtain s where s: "race_reaches (race_start d)
        [ReadSweep p [hold_token h], LockTier p' uid (hold_tier h) q, CountHolds p',
         CommitCreate p' t0 hid tok, SweepHold p, SweepTier p] s" "rs_db s = ?s"
    using tier guard avail release_keeps_inv(1) [OF inv(1) h row, of Expired] \<open>p \<noteq> p'\<close>
    by (auto simp: race_reaches_simps Let_def max_holds_per_user_per_event_def not_le not_less)
  with late_give_back(2) [OF inv h row avail(2) refl _ s(2)] show ?thesis by (intro exI [of _ s]) simp
qed

text \<open>
  C14: An edit of a tier and the sweep lose a creation's update as well: the edit saves the
  whole row, the sweep a number, from the tier as it was before the creation committed.
  Where every ticket set aside belonged to an active hold, the active holds then ask for
  more tickets than are set aside, by the quantity just sold.
\<close>

theorem stale_rows_lose_update:
  assumes inv: "checkout_inv d" "accounted d" and h: "h \<in> set (holds d)" "hold_status h = Active"
    and create: "create_hold C t0 t1 hid tok uid (hold_tier h) q \<lparr>database = d, redis = c\<rparr> = (Inr h', w)"
    and edit: "fst (tier_update partial u event_id (hold_tier h) form d) = Ok"
    and "p \<noteq> p'"
  shows "(\<exists>s. race_reaches (race_start d)
        [ReadTier p partial u event_id (hold_tier h) form, LockTier p' uid (hold_tier h) q, CountHolds p',
         CommitCreate p' t0 hid tok, SaveTier p] s
      \<and> (\<exists>t\<in>set (tiers (rs_db s)). tier_id t = hold_tier h \<and> held_sum (tier_id t) (rs_db s) = quantity_held t + q))
    \<and> (\<exists>s. race_reaches (race_start d)
        [ReadSweep p [hold_token h], LockTier p' uid (hold_tier h) q, CountHolds p',
         CommitCreate p' t0 hid tok, SweepHold p, SweepTier p] s
      \<and> (\<exists>t\<in>set (tiers (rs_db s)). tier_id t = hold_tier h \<and> held_sum (tier_id t) (rs_db s) = quantity_held t + q))"
  using create
proof (rule create_hold_success)
  fix tier :: ticket_tier
  assume "rows_get (\<lambda>t. tier_id t = hold_tier h) (tiers (database \<lparr>database = d, redis = c\<rparr>)) = Inr tier"
    and "active_holds_count uid (tier_event tier) (database \<lparr>database = d, redis = c\<rparr>) < 2"
    and "q \<le> quantity_available tier" "insertable h' (database \<lparr>database = d, redis = c\<rparr>)"
      "pos_int_ok (quantity_held tier + q)" and "h' = new_hold t0 hid tok uid (hold_tier h) q"
  then have "rows_get (\<lambda>t. tier_id t = hold_tier h) (tiers d) = Inr tier" "active_holds_count uid (tier_event tier) d < 2"
    "q \<le> quantity_available tier" "insertable (new_hold t0 hid tok uid (hold_tier h) q) d" "pos_int_ok (quantity_held tier + q)"
    by simp_all
  note ok = this
  show ?thesis
    using edit_loses_update [OF inv ok edit \<open>p \<noteq> p'\<close>] sweep_loses_update [OF inv h ok \<open>p \<noteq> p'\<close>] by (rule conjI)
qed

text \<open>
  C17: The abuse guard counts holds of the whole event under the lock of one tier. A user
  who asks for two tiers of an event at the same time passes it in both requests, so with
  one active hold already there are three.
\<close>

theorem abuse_guard_race:
  assumes "create_hold C t0 t1 hid tok uid tid q \<lparr>database = d, redis = c\<rparr> = (Inr h, w)"
    and "create_hold C t0' t1' hid' tok' uid tid' q' \<lparr>database = d, redis = c\<rparr> = (Inr h', w')"
    and "rows_get (\<lambda>t. tier_id t = tid) (tiers d) = Inr tier"
    and "rows_get (\<lambda>t. tier_id t = tid') (tiers d) = Inr tier'" and "tier_event tier' = tier_event tier"
    and "tid \<noteq> tid'" and "hid \<noteq> hid'" and "tok \<noteq> tok'" and "p \<noteq> p'"
  shows "\<exists>s. race_reaches (race_start d)
        [LockTier p uid tid q, LockTier p' uid tid' q', CountHolds p, CountHolds p',
         CommitCreate p t0 hid tok, CommitCreate p' t0' hid' tok'] s
      \<and> active_holds_count uid (tier_event tier) (rs_db s)
          = active_holds_count uid (tier_event tier) d + 2"
proof -
  let ?w = "\<lparr>database = d, redis = c\<rparr>"
  let ?d1 = "set_held tid (quantity_held tier + q) (add_hold h d)"
  let ?d2 = "set_held tid' (quantity_held tier' + q') (add_hold h' ?d1)"
  note get = assms(3,4)
  note one = create_hold_success_D [OF assms(1), simplified, OF get(1)]
  note two = create_hold_success_D [OF assms(2), simplified, OF get(2)]
  note h = one(5) and h' = two(5)
  have "insertable (new_hold t0' hid' tok' uid tid' q') ?d1"
    using two(3) [unfolded h'] assms(7,8) by (auto simp: insertable_def h)
  note fresh = this
  let ?n = "active_holds_count uid (tier_event tier) d"
  let ?counted = "\<lparr>rs_db = d, rs_tier_locks = {tid', tid}, rs_hold_locks = {},
    rs_request = (\<lambda>_. NotStarted)(p := HoldsCounted uid tid q tier ?n, p' := HoldsCounted uid tid' q' tier' ?n)\<rparr>"
  have "race_reaches (race_start d) ([LockTier p uid tid q, LockTier p' uid tid' q', CountHolds p, CountHolds p'] @ ops) s
      \<longleftrightarrow> race_reaches ?counted ops s" for ops s
    using get assms(5,6,9)
    by (simp add: race_reaches_simps set_request_def race_start_def fun_upd_twist)
  moreover let ?one = "set_request p Finished (?counted\<lparr>rs_tier_locks := {tid', tid} - {tid}, rs_db := ?d1\<rparr>)"
  have "race_do (CommitCreate p t0 hid tok) ?counted = Some ?one"
    using race_commit [of ?counted p uid tid q tier ?n] one(1,2,4) one(3) [unfolded h] \<open>p \<noteq> p'\<close> by (simp add: h)
  moreover have "race_do (CommitCreate p' t0' hid' tok') ?one = Some (set_request p' Finished
      (?one\<lparr>rs_tier_locks := rs_tier_locks ?one - {tid'}, rs_db := ?d2\<rparr>))"
    using race_commit [of ?one p' uid tid' q' tier' ?n] one(1) two(2,4) fresh \<open>p \<noteq> p'\<close> by (simp add: h')
  ultimately have "race_reaches (race_start d) ([LockTier p uid tid q, LockTier p' uid tid' q', CountHolds p, CountHolds p']
       @ [CommitCreate p t0 hid tok, CommitCreate p' t0' hid' tok'])
      (set_request p' Finished (?one\<lparr>rs_tier_locks := rs_tier_locks ?one - {tid'}, rs_db := ?d2\<rparr>))"
    by (blast intro: race_cons race_nil)
  then have run: "\<exists>s. race_reaches (race_start d)
        [LockTier p uid tid q, LockTier p' uid tid' q', CountHolds p, CountHolds p',
         CommitCreate p t0 hid tok, CommitCreate p' t0' hid' tok'] s \<and> rs_db s = ?d2"
    by (intro exI conjI) (simp only: append.simps, simp)
  have "hold_in_event (tiers d) (tier_event tier) h" "hold_in_event (tiers d) (tier_event tier) h'"
    using rows_get_Inr_D [OF assms(3)] rows_get_Inr_D [OF assms(4)] assms(5)
    by (auto simp: hold_in_event_def h h')
  moreover have "hold_user h = uid" "hold_user h' = uid" "hold_status h = Active" "hold_status h' = Active"
    by (simp_all add: h h')
  ultimately have "active_holds_count uid (tier_event tier) ?d2 = active_holds_count uid (tier_event tier) d + 2"
    by (simp only: active_holds_count_set_held active_holds_count_add_hold hold_in_event_set_held
        tiers_add_hold simp_thms if_True)
  with run show ?thesis by (elim exE conjE) (intro exI conjI, assumption, simp only:)
qed

lemma small_race:
  "accounted (database small_held_world)"
  "new_hold 0 ''h'' ''k'' ''u'' ''t'' 3 \<in> set (holds (database small_held_world))"
  "\<exists>h' w. create_hold ttl_api 0 0 ''h2'' ''k2'' ''v'' (hold_tier (new_hold 0 ''h'' ''k'' ''u'' ''t'' 3)) 5
      \<lparr>database = database small_held_world, redis = ttl_empty\<rparr> = (Inr h', w)"
proof -
  show "accounted (database small_held_world)"
    by (simp add: accounted_def small_held_db set_held_def small_defs held_sum_def active_qty_def)
  show "new_hold 0 ''h'' ''k'' ''u'' ''t'' 3 \<in> set (holds (database small_held_world))"
    by (simp add: small_held_db small_db_def)
  show "\<exists>h' w. create_hold ttl_api 0 0 ''h2'' ''k2'' ''v'' (hold_tier (new_hold 0 ''h'' ''k'' ''u'' ''t'' 3)) 5
      \<lparr>database = database small_held_world, redis = ttl_empty\<rparr> = (Inr h', w)"
    by (simp add: create_hold_eq small_held_db set_held_def small_defs rows_get_def Let_def active_holds_count_def
        rows_count_def hold_in_event_def quantity_available_def insertable_def pos_int_ok_def)
qed

text \<open>Concrete runs: three of ten tickets held, and an event with two tiers.\<close>

theorem release_race_loses_update_witness:
  "\<exists>s. race_reaches (race_start (database small_held_world))
        [ReadHold 1 ''k'', LockTier 2 ''v'' ''t'' 5, CountHolds 2, CommitCreate 2 0 ''h2'' ''k2'',
         CommitRelease 1] s
      \<and> (\<exists>t\<in>set (tiers (rs_db s)). held_sum (tier_id t) (rs_db s) = quantity_held t + 5)"
proof -
  obtain h' w where "create_hold ttl_api 0 0 ''h2'' ''k2'' ''v'' (hold_tier (new_hold 0 ''h'' ''k'' ''u'' ''t'' 3)) 5
      \<lparr>database = database small_held_world, redis = ttl_empty\<rparr> = (Inr h', w)"
    using small_race by blast
  from release_race_loses_update [OF small_held_inv small_race(1,2) _ this, of 1 2] show ?thesis
    by auto
qed

text \<open>An organizer renames the tier while five of its tickets are taken.\<close>

theorem stale_rows_lose_update_witness:
  "\<exists>s. race_reaches (race_start (database small_held_world))
        [ReadTier 1 True (Some organizer_ann) None ''t'' (no_tier_form\<lparr>tf_name := Some ''Gold''\<rparr>),
         LockTier 2 ''v'' ''t'' 5, CountHolds 2, CommitCreate 2 0 ''h2'' ''k2'', SaveTier 1] s
      \<and> (\<exists>t\<in>set (tiers (rs_db s)). held_sum (tier_id t) (rs_db s) = quantity_held t + 5)"
proof -
  let ?d = "database small_held_world" and ?h = "new_hold 0 ''h'' ''k'' ''u'' ''t'' 3"
  let ?form = "no_tier_form\<lparr>tf_name := Some ''Gold''\<rparr>"
  have ts: "tiers ?d = [small_tier\<lparr>quantity_held := 3\<rparr>]"
    by (simp add: small_held_db set_held_def small_db_def small_tier_def)
  have "fst (tier_update True (Some organizer_ann) None (hold_tier ?h) ?form ?d) = Ok"
    by (simp add: tier_update_def request_denied_def tier_permissions_def organizer_ann_def tier_lookup_def
        tier_queryset_def ts small_tier_def tier_form_valid_def if_given_def no_tier_form_def
        order_trans [OF char_length_le])
  moreover note small_race
  ultimately obtain h' w where *: "accounted ?d" "?h \<in> set (holds ?d)"
    "create_hold ttl_api 0 0 ''h2'' ''k2'' ''v'' (hold_tier ?h) 5 \<lparr>database = ?d, redis = ttl_empty\<rparr> = (Inr h', w)"
    "fst (tier_update True (Some organizer_ann) None (hold_tier ?h) ?form ?d) = Ok" by blast
  from stale_rows_lose_update [OF small_held_inv *(1,2) _ *(3,4), of 1 2] show ?thesis by auto
qed

definition two_tier_db :: db where
  "two_tier_db = small_db\<lparr>tiers := [small_tier, small_tier\<lparr>tier_id := ''t2''\<rparr>],
     holds := [new_hold 0 ''h'' ''k'' ''u'' ''t'' 0]\<rparr>"

theorem abuse_guard_race_witness:
  "\<exists>s. race_reaches (race_start two_tier_db)
        [LockTier 1 ''u'' ''t'' 1, LockTier 2 ''u'' ''t2'' 1, CountHolds 1, CountHolds 2,
         CommitCreate 1 0 ''h1'' ''k1'', CommitCreate 2 0 ''h2'' ''k2''] s
      \<and> active_holds_count ''u'' ''e'' (rs_db s) = 3"
proof -
  note facts = two_tier_db_def small_defs rows_get_def active_holds_count_def rows_count_def hold_in_event_def
  let ?w = "\<lparr>database = two_tier_db, redis = ttl_empty\<rparr>"
  obtain h w where one: "create_hold ttl_api 0 0 ''h1'' ''k1'' ''u'' ''t'' 1 ?w = (Inr h, w)"
    by (simp add: create_hold_eq Let_def facts quantity_available_def insertable_def pos_int_ok_def)
  obtain h' w' where two: "create_hold ttl_api 0 0 ''h2'' ''k2'' ''u'' ''t2'' 1 ?w = (Inr h', w')"
    by (simp add: create_hold_eq Let_def facts quantity_available_def insertable_def pos_int_ok_def)
  have "rows_get (\<lambda>t. tier_id t = ''t'') (tiers two_tier_db) = Inr small_tier"
    and "rows_get (\<lambda>t. tier_id t = ''t2'') (tiers two_tier_db) = Inr (small_tier\<lparr>tier_id := ''t2''\<rparr>)"
    by (simp_all add: facts)
  from abuse_guard_race [OF one two this, of 1 2] obtain s where
    "race_reaches (race_start two_tier_db)
        [LockTier 1 ''u'' ''t'' 1, LockTier 2 ''u'' ''t2'' 1, CountHolds 1, CountHolds 2,
         CommitCreate 1 0 ''h1'' ''k1'', CommitCreate 2 0 ''h2'' ''k2''] s"
    "active_holds_count ''u'' ''e'' (rs_db s) = active_holds_count ''u'' ''e'' two_tier_db + 2"
    by (auto simp: small_tier_def)
  moreover have "active_holds_count ''u'' ''e'' two_tier_db = 1" by (simp add: facts)
  ultimately show ?thesis by auto
qed

end
