(* ===== verification/TierSelector.thy ===== *)
theory TierSelector
  imports Inventory
begin

text \<open>
  \<open>inventory/tier_selector.py\<close>: the selector bisects the list of prices, converted to
  floats, and walks left to a tier that can be sold. \<open>bisect_left\<close> and \<open>bisect_right\<close> are
  Python's loops over \<open>lo\<close> and \<open>hi\<close>. The lemmas say what bisection finds in a sorted
  list, and that converting two-decimal prices to doubles loses nothing.
\<close>

section \<open>bisect\<close>

function bisect_right_loop :: "'a::linorder list \<Rightarrow> 'a \<Rightarrow> nat \<Rightarrow> nat \<Rightarrow> nat" where
  "bisect_right_loop xs x lo hi =
     (if lo < hi then
        let mid = (lo + hi) div 2
        in if x < xs ! mid then bisect_right_loop xs x lo mid else bisect_right_loop xs x (mid + 1) hi
      else lo)"
  by pat_completeness auto
termination
  by (relation "measure (\<lambda>(xs, x, lo, hi). hi - lo)") auto

function bisect_left_loop :: "'a::linorder list \<Rightarrow> 'a \<Rightarrow> nat \<Rightarrow> nat \<Rightarrow> nat" where
  "bisect_left_loop xs x lo hi =
     (if lo < hi then
        let mid = (lo + hi) div 2
        in if xs ! mid < x then bisect_left_loop xs x (mid + 1) hi else bisect_left_loop xs x lo mid
      else lo)"
  by pat_completeness auto
termination
  by (relation "measure (\<lambda>(xs, x, lo, hi). hi - lo)") auto

declare bisect_right_loop.simps [simp del] bisect_left_loop.simps [simp del]

definition bisect_right :: "'a::linorder list \<Rightarrow> 'a \<Rightarrow> nat" where
  "bisect_right xs x = bisect_right_loop xs x 0 (length xs)"

definition bisect_left :: "'a::linorder list \<Rightarrow> 'a \<Rightarrow> nat" where
  "bisect_left xs x = bisect_left_loop xs x 0 (length xs)"

lemma bisect_right_loop_bounds:
  "lo \<le> hi \<Longrightarrow> lo \<le> bisect_right_loop xs x lo hi \<and> bisect_right_loop xs x lo hi \<le> hi"
proof (induction xs x lo hi rule: bisect_right_loop.induct)
  case (1 xs x lo hi)
  show ?case
    using 1 by (subst (1 2) bisect_right_loop.simps) (fastforce simp: Let_def)
qed

lemma bisect_left_loop_bounds:
  "lo \<le> hi \<Longrightarrow> lo \<le> bisect_left_loop xs x lo hi \<and> bisect_left_loop xs x lo hi \<le> hi"
proof (induction xs x lo hi rule: bisect_left_loop.induct)
  case (1 xs x lo hi)
  show ?case
    using 1 by (subst (1 2) bisect_left_loop.simps) (fastforce simp: Let_def)
qed

text \<open>Loop invariant: everything left of \<open>lo\<close> is at most \<open>x\<close>, everything from \<open>hi\<close> on above it.\<close>

lemma bisect_right_loop_spec:
  assumes "sorted xs" and "hi \<le> length xs" and "lo \<le> hi"
    and "\<forall>i < lo. xs ! i \<le> x" and "\<forall>i. hi \<le> i \<longrightarrow> i < length xs \<longrightarrow> x < xs ! i"
  shows "(\<forall>i < bisect_right_loop xs x lo hi. xs ! i \<le> x) \<and>
    (\<forall>i. bisect_right_loop xs x lo hi \<le> i \<longrightarrow> i < length xs \<longrightarrow> x < xs ! i)"
  using assms
proof (induction xs x lo hi rule: bisect_right_loop.induct)
  case (1 xs x lo hi)
  define mid where "mid = (lo + hi) div 2"
  show ?case
  proof (cases "lo < hi")
    case False
    with 1(3-) show ?thesis by (subst (1 2) bisect_right_loop.simps) auto
  next
    case True
    then have mid: "lo \<le> mid" "mid < hi" by (auto simp: mid_def)
    show ?thesis
    proof (cases "x < xs ! mid")
      case less: True
      have "\<forall>i. mid \<le> i \<longrightarrow> i < length xs \<longrightarrow> x < xs ! i"
        using less sorted_nth_mono [OF \<open>sorted xs\<close>] by (meson order.strict_trans2)
      with 1(1) [OF True mid_def less] 1(3-) mid True less show ?thesis
        by (subst (1 2) bisect_right_loop.simps) (auto simp: Let_def mid_def [symmetric])
    next
      case ge: False
      have "\<forall>i < mid + 1. xs ! i \<le> x"
      proof (intro allI impI)
        fix i assume "i < mid + 1"
        then have "xs ! i \<le> xs ! mid" using mid 1(4) by (intro sorted_nth_mono [OF \<open>sorted xs\<close>]) auto
        with ge show "xs ! i \<le> x" by simp
      qed
      with 1(2) [OF True mid_def ge] 1(3-) mid True ge show ?thesis
        by (subst (1 2) bisect_right_loop.simps) (auto simp: Let_def mid_def [symmetric])
    qed
  qed
qed

lemma bisect_left_loop_spec:
  assumes "sorted xs" and "hi \<le> length xs" and "lo \<le> hi"
    and "\<forall>i < lo. xs ! i < x" and "\<forall>i. hi \<le> i \<longrightarrow> i < length xs \<longrightarrow> x \<le> xs ! i"
  shows "(\<forall>i < bisect_left_loop xs x lo hi. xs ! i < x) \<and>
    (\<forall>i. bisect_left_loop xs x lo hi \<le> i \<longrightarrow> i < length xs \<longrightarrow> x \<le> xs ! i)"
  using assms
proof (induction xs x lo hi rule: bisect_left_loop.induct)
  case (1 xs x lo hi)
  define mid where "mid = (lo + hi) div 2"
  show ?case
  proof (cases "lo < hi")
    case False
    with 1(3-) show ?thesis by (subst (1 2) bisect_left_loop.simps) auto
  next
    case True
    then have mid: "lo \<le> mid" "mid < hi" by (auto simp: mid_def)
    show ?thesis
    proof (cases "xs ! mid < x")
      case less: True
      have "\<forall>i < mid + 1. xs ! i < x"
      proof (intro allI impI)
        fix i assume "i < mid + 1"
        then have "xs ! i \<le> xs ! mid" using mid 1(3,4) by (intro sorted_nth_mono) auto
        with less show "xs ! i < x" by simp
      qed
      with 1(1) [OF True mid_def less] 1(3-) mid True less show ?thesis
        by (subst (1 2) bisect_left_loop.simps) (auto simp: Let_def mid_def [symmetric])
    next
      case ge: False
      have "\<forall>i. mid \<le> i \<longrightarrow> i < length xs \<longrightarrow> x \<le> xs ! i"
        using ge 1(3) sorted_nth_mono by (metis linorder_not_less order.trans)
      with 1(2) [OF True mid_def ge] 1(3-) mid True ge show ?thesis
        by (subst (1 2) bisect_left_loop.simps) (auto simp: Let_def mid_def [symmetric])
    qed
  qed
qed

lemma bisect_right_le_length: "bisect_right xs x \<le> length xs"
  using bisect_right_loop_bounds [of 0 "length xs" xs x] by (simp add: bisect_right_def)

lemma bisect_left_le_length: "bisect_left xs x \<le> length xs"
  using bisect_left_loop_bounds [of 0 "length xs" xs x] by (simp add: bisect_left_def)

text \<open>In a sorted list, the insertion points split it at \<open>x\<close>.\<close>

lemma take_drop_filter_eq:
  assumes "\<forall>i < n. P (xs ! i)" and "\<forall>i. n \<le> i \<longrightarrow> i < length xs \<longrightarrow> \<not> P (xs ! i)" and "n \<le> length xs"
  shows "filter P xs = take n xs"
proof -
  have "filter P (take n xs) = take n xs"
    using assms(1,3) by (auto simp: filter_id_conv in_set_conv_nth)
  moreover have "filter P (drop n xs) = []"
    using assms(2) by (auto simp: filter_empty_conv in_set_conv_nth)
  ultimately show ?thesis by (metis append_Nil2 append_take_drop_id filter_append)
qed

lemma bisect_right_split:
  assumes "sorted xs"
  shows "\<forall>i < bisect_right xs x. xs ! i \<le> x"
    and "\<forall>i. bisect_right xs x \<le> i \<longrightarrow> i < length xs \<longrightarrow> x < xs ! i"
  using bisect_right_loop_spec [of xs "length xs" 0 x] assms by (auto simp: bisect_right_def)

lemma bisect_left_split:
  assumes "sorted xs"
  shows "\<forall>i < bisect_left xs x. xs ! i < x"
    and "\<forall>i. bisect_left xs x \<le> i \<longrightarrow> i < length xs \<longrightarrow> x \<le> xs ! i"
  using bisect_left_loop_spec [of xs "length xs" 0 x] assms by (auto simp: bisect_left_def)

section \<open>The selector\<close>

record tier_selector =
  sel_tiers :: "ticket_tier list"
  sel_prices :: "double list"

definition make_selector :: "ticket_tier list \<Rightarrow> tier_selector" where
  "make_selector ts = \<lparr>sel_tiers = ts, sel_prices = map (\<lambda>t. to_double (tier_price t)) ts\<rparr>"

text \<open>The walk to the left; the argument is the code's \<open>idx + 1\<close>, so that the loop ends at 0.\<close>

fun walk_left :: "instant \<Rightarrow> ticket_tier list \<Rightarrow> nat \<Rightarrow> ticket_tier option" where
  "walk_left now ts 0 = None"
| "walk_left now ts (Suc idx) =
     (let tier = ts ! idx
      in if 0 < quantity_available tier \<and> is_on_sale now tier then Some tier
         else walk_left now ts idx)"

lemma walk_left_numeral [simp]:
  "walk_left now ts (numeral k) =
     (let tier = ts ! pred_numeral k
      in if 0 < quantity_available tier \<and> is_on_sale now tier then Some tier
         else walk_left now ts (pred_numeral k))"
  by (simp add: numeral_eq_Suc)

definition select_for_budget :: "instant \<Rightarrow> tier_selector \<Rightarrow> rat \<Rightarrow> ticket_tier option" where
  "select_for_budget now sel budget =
     walk_left now (sel_tiers sel) (bisect_right (sel_prices sel) (to_double budget))"

definition select_exact :: "tier_selector \<Rightarrow> rat \<Rightarrow> ticket_tier option" where
  "select_exact sel price =
     (let price_float = to_double price; idx = bisect_left (sel_prices sel) price_float
      in if idx < length (sel_prices sel) \<and> sel_prices sel ! idx = price_float
         then Some (sel_tiers sel ! idx) else None)"

text \<open>The linear scan the selector replaces.\<close>

definition best_in_budget :: "instant \<Rightarrow> ticket_tier list \<Rightarrow> rat \<Rightarrow> ticket_tier option" where
  "best_in_budget now ts budget =
     last_option (filter (\<lambda>t. is_on_sale now t \<and> tier_price t \<le> budget) ts)"

lemma walk_left_last:
  "n \<le> length ts \<Longrightarrow>
   walk_left now ts n = last_option (filter (is_on_sale now) (take n ts))"
proof (induction n)
  case 0
  then show ?case by simp
next
  case (Suc n)
  then have take: "take (Suc n) ts = take n ts @ [ts ! n]" by (simp add: take_Suc_conv_app_nth)
  have avail: "is_on_sale now (ts ! n) \<Longrightarrow> 0 < quantity_available (ts ! n)"
    by (auto simp: is_on_sale_def split: if_splits)
  show ?case
  proof (cases "is_on_sale now (ts ! n)")
    case True
    with avail show ?thesis by (simp add: take)
  next
    case False
    with Suc show ?thesis by (simp add: take)
  qed
qed

lemma sorted_prices:
  assumes "sorted (map tier_price ts)"
  shows "sorted (sel_prices (make_selector ts))"
  using assms by (auto simp: make_selector_def sorted_iff_nth_mono intro: to_double_mono)

lemma select_for_budget_eq:
  assumes "sorted (map tier_price ts)" and "\<forall>t \<in> set ts. decimal_10_2 (tier_price t)"
    and "decimal_10_2 budget"
  shows "select_for_budget now (make_selector ts) budget = best_in_budget now ts budget"
proof -
  define n where "n = bisect_right (sel_prices (make_selector ts)) (to_double budget)"
  have len: "length (sel_prices (make_selector ts)) = length ts" by (simp add: make_selector_def)
  then have n: "n \<le> length ts" using bisect_right_le_length by (metis n_def)
  have le: "sel_prices (make_selector ts) ! i \<le> to_double budget \<longleftrightarrow> tier_price (ts ! i) \<le> budget"
    if "i < length ts" for i
    using that assms by (simp add: make_selector_def to_double_le_iff_decimal)
  note split = bisect_right_split [OF sorted_prices [OF assms(1)], of "to_double budget",
      folded n_def, unfolded len]
  have "filter (\<lambda>t. tier_price t \<le> budget) ts = take n ts"
  proof (rule take_drop_filter_eq [OF _ _ n])
    show "\<forall>i<n. tier_price (ts ! i) \<le> budget" using split(1) le n by auto
    show "\<forall>i. n \<le> i \<longrightarrow> i < length ts \<longrightarrow> \<not> tier_price (ts ! i) \<le> budget"
      using split(2) le by (auto simp flip: linorder_not_le)
  qed
  then have "filter (\<lambda>t. is_on_sale now t \<and> tier_price t \<le> budget) ts = filter (is_on_sale now) (take n ts)"
    by (simp only: filter_filter [symmetric] conj_commute [of "is_on_sale now _"])
  moreover have "select_for_budget now (make_selector ts) budget = walk_left now ts n"
    by (simp add: select_for_budget_def n_def) (simp add: make_selector_def)
  ultimately show ?thesis by (simp add: best_in_budget_def walk_left_last [OF n])
qed

text \<open>The scan's answer is the dearest tier on sale within the budget.\<close>

lemma best_in_budget_Some:
  assumes "best_in_budget now ts budget = Some t" and "sorted (map tier_price ts)"
  shows "t \<in> set ts" "is_on_sale now t" "tier_price t \<le> budget"
    and "u \<in> set ts \<Longrightarrow> is_on_sale now u \<Longrightarrow> tier_price u \<le> budget \<Longrightarrow> tier_price u \<le> tier_price t"
proof -
  define us where "us = filter (\<lambda>t. is_on_sale now t \<and> tier_price t \<le> budget) ts"
  from assms(1) have us: "us \<noteq> []" "t = last us"
    by (auto simp: best_in_budget_def us_def [symmetric] dest: last_option_SomeD)
  then have "t \<in> set us" by simp
  then show "t \<in> set ts" "is_on_sale now t" "tier_price t \<le> budget" by (auto simp: us_def)
  have sorted: "sorted (map tier_price us)"
    using assms(2) by (simp add: us_def sorted_map sorted_wrt_filter)
  show "tier_price u \<le> tier_price t"
    if "u \<in> set ts" "is_on_sale now u" "tier_price u \<le> budget"
  proof -
    from that have "u \<in> set us" by (simp add: us_def)
    then obtain i where "i < length us" "u = us ! i" by (auto simp: in_set_conv_nth)
    then show ?thesis
      using us sorted_nth_mono [OF sorted, of i "length us - 1"] by (simp add: last_conv_nth)
  qed
qed

lemma best_in_budget_None:
  "best_in_budget now ts budget = None \<longleftrightarrow>
     (\<forall>t \<in> set ts. is_on_sale now t \<longrightarrow> \<not> tier_price t \<le> budget)"
  by (auto simp: best_in_budget_def filter_empty_conv)

text \<open>Whatever the order of the tiers, the selector returns a tier of the list that is on sale.\<close>

lemma walk_left_Some:
  "walk_left now ts n = Some t \<Longrightarrow> n \<le> length ts \<Longrightarrow>
     t \<in> set ts \<and> is_on_sale now t \<and> 0 < quantity_available t"
  by (induction n) (auto simp: Let_def split: if_splits)

lemma select_exact_eq:
  assumes "sorted (map tier_price ts)" and "\<forall>t \<in> set ts. decimal_10_2 (tier_price t)"
    and "decimal_10_2 price"
  shows "select_exact (make_selector ts) price = find (\<lambda>t. tier_price t = price) ts"
proof -
  define ps where "ps = sel_prices (make_selector ts)"
  define n where "n = bisect_left ps (to_double price)"
  have len: "length ps = length ts" and nth: "\<And>i. i < length ts \<Longrightarrow> ps ! i = to_double (tier_price (ts ! i))"
    by (simp_all add: ps_def make_selector_def)
  have eq: "ps ! i = to_double price \<longleftrightarrow> tier_price (ts ! i) = price" if "i < length ts" for i
    using that assms nth by (simp add: to_double_eq_iff_decimal)
  note split = bisect_left_split [OF sorted_prices [OF assms(1)], of "to_double price",
      folded ps_def n_def, unfolded len]
  have before: "tier_price (ts ! i) \<noteq> price" if "i < n" "i < length ts" for i
    using split(1) that eq by force
  have result: "select_exact (make_selector ts) price =
      (if n < length ts \<and> ps ! n = to_double price then Some (ts ! n) else None)"
    unfolding select_exact_def Let_def ps_def [symmetric] n_def [symmetric] len
    by (simp add: make_selector_def)
  show ?thesis
  proof (cases "n < length ts \<and> ps ! n = to_double price")
    case True
    then have "find (\<lambda>t. tier_price t = price) ts = Some (ts ! n)"
      using eq before by (auto simp: find_Some_iff)
    with True show ?thesis by (simp add: result)
  next
    case False
    have "tier_price (ts ! i) \<noteq> price" if i: "i < length ts" for i
    proof
      assume hit: "tier_price (ts ! i) = price"
      with before [OF _ i] have "n \<le> i" by (meson not_le)
      then have "ps ! n \<le> ps ! i"
        using sorted_prices [OF assms(1)] i len by (intro sorted_nth_mono) (auto simp: ps_def)
      moreover have "to_double price \<le> ps ! n" using split(2) i \<open>n \<le> i\<close> by simp
      ultimately show False using False hit eq [OF i] i \<open>n \<le> i\<close> by simp
    qed
    then have "find (\<lambda>t. tier_price t = price) ts = None"
      by (auto simp: find_None_iff in_set_conv_nth)
    with False show ?thesis by (simp only: result if_False)
  qed
qed

section \<open>Properties\<close>

text \<open>A tier with nothing held or sold, on sale at any time; for concrete instances below.\<close>

definition sample_tier :: "uuid \<Rightarrow> int \<Rightarrow> rat \<Rightarrow> int \<Rightarrow> ticket_tier" where
  "sample_tier i order price n =
     \<lparr>tier_id = i, tier_event = ''ev'', tier_name = i, tier_description = [], tier_price = price, tier_currency = ''KES'',
      quantity_total = n, quantity_held = 0, quantity_sold = 0, max_per_order = 10,
      sale_starts_at = None, sale_ends_at = None, tier_is_active = True, sort_order = order\<rparr>"

lemma sample_tier_simps [simp]:
  "tier_id (sample_tier i order price n) = i"
  "tier_price (sample_tier i order price n) = price"
  "sort_order (sample_tier i order price n) = order"
  "tier_event (sample_tier i order price n) = ''ev''"
  "quantity_total (sample_tier i order price n) = n"
  "quantity_held (sample_tier i order price n) = 0"
  "quantity_sold (sample_tier i order price n) = 0"
  by (simp_all add: sample_tier_def)

lemma sample_tier_on_sale [simp]:
  "is_on_sale now (sample_tier i order price n) \<longleftrightarrow> 0 < n"
  by (auto simp: sample_tier_def is_on_sale_iff)

lemma to_double_less_iff_decimal:
  "decimal_10_2 x \<Longrightarrow> decimal_10_2 y \<Longrightarrow> to_double x < to_double y \<longleftrightarrow> x < y"
  using to_double_le_iff_decimal [of y x] by (simp flip: linorder_not_le)

text \<open>
  C22: For tiers in order of price, prices and budget being two-decimal amounts, the
  selector returns the dearest tier on sale that the budget covers, and nothing exactly
  when no tier on sale is covered: neither the bisection nor the detour over floats
  changes the answer of a linear scan.
\<close>

theorem selector_returns_dearest_affordable:
  assumes "sorted (map tier_price ts)"
    and "\<forall>t \<in> set ts. decimal_10_2 (tier_price t)" and "decimal_10_2 budget"
  shows "case select_for_budget now (make_selector ts) budget of
      None \<Rightarrow> \<forall>t \<in> set ts. is_on_sale now t \<longrightarrow> budget < tier_price t
    | Some t \<Rightarrow> t \<in> set ts \<and> is_on_sale now t \<and> tier_price t \<le> budget \<and>
        (\<forall>u \<in> set ts. is_on_sale now u \<longrightarrow> tier_price u \<le> budget \<longrightarrow> tier_price u \<le> tier_price t)"
proof (cases "select_for_budget now (make_selector ts) budget")
  case None
  then have "best_in_budget now ts budget = None" by (simp add: select_for_budget_eq [OF assms])
  with None show ?thesis by (simp add: best_in_budget_None not_le)
next
  case (Some t)
  with select_for_budget_eq [OF assms] best_in_budget_Some [OF _ assms(1)] show ?thesis by simp
qed

theorem selector_returns_dearest_affordable_witness:
  "case select_for_budget 0 (make_selector [sample_tier ''a'' 0 500 9, sample_tier ''b'' 1 1000 9]) 1200 of
      None \<Rightarrow> False
    | Some t \<Rightarrow> tier_price t \<le> 1200"
  using selector_returns_dearest_affordable
    [of "[sample_tier ''a'' 0 500 9, sample_tier ''b'' 1 1000 9]" 1200 0]
  by (simp add: decimal_10_2_def split: option.splits)

text \<open>
  With prices in order, \<open>select_exact\<close> returns the first tier whose price is exactly
  the one asked for, as a linear search would.
\<close>

theorem select_exact_finds_price:
  assumes "sorted (map tier_price ts)"
    and "\<forall>t \<in> set ts. decimal_10_2 (tier_price t)" and "decimal_10_2 price"
  shows "select_exact (make_selector ts) price = find (\<lambda>t. tier_price t = price) ts"
  using assms by (rule select_exact_eq)

theorem select_exact_finds_price_witness:
  "select_exact (make_selector [sample_tier ''a'' 0 500 9, sample_tier ''b'' 1 1000 9]) 1000
     = Some (sample_tier ''b'' 1 1000 9)"
  using select_exact_finds_price
    [of "[sample_tier ''a'' 0 500 9, sample_tier ''b'' 1 1000 9]" 1000]
  by (simp add: decimal_10_2_def)

text \<open>
  C24: The order the tables give tiers in (\<open>sort_order\<close>, then price) is not enough for the
  selector. Three tiers in that order, all on sale: it finds nothing for a budget of 1000
  although the third costs 500; and when the affordable tier is sold out it returns a tier
  that costs five times the budget.
\<close>

theorem selector_on_default_ordering:
  "(\<exists>ts. sorted_wrt tier_ordering ts \<and> (\<forall>t \<in> set ts. decimal_10_2 (tier_price t) \<and> is_on_sale now t)
     \<and> (\<exists>t \<in> set ts. tier_price t \<le> 1000) \<and> select_for_budget now (make_selector ts) 1000 = None)
   \<and> (\<exists>ts t. sorted_wrt tier_ordering ts \<and> (\<forall>t \<in> set ts. decimal_10_2 (tier_price t))
     \<and> select_for_budget now (make_selector ts) 1000 = Some t \<and> tier_price t = 5 * 1000)"
proof (rule conjI)
  let ?ts = "[sample_tier ''vip'' 0 5000 9, sample_tier ''vvip'' 1 6000 9, sample_tier ''regular'' 2 500 9]"
  have "select_for_budget now (make_selector ?ts) 1000 = None"
    by (simp add: select_for_budget_def make_selector_def bisect_right_def bisect_right_loop.simps
        to_double_less_iff_decimal decimal_10_2_def Let_def)
  then show "\<exists>ts. sorted_wrt tier_ordering ts
     \<and> (\<forall>t \<in> set ts. decimal_10_2 (tier_price t) \<and> is_on_sale now t)
     \<and> (\<exists>t \<in> set ts. tier_price t \<le> 1000) \<and> select_for_budget now (make_selector ts) 1000 = None"
    by (intro exI [of _ ?ts]) (simp add: tier_ordering_def decimal_10_2_def)
  let ?us = "[sample_tier ''vip'' 0 5000 9, sample_tier ''regular'' 1 500 0, sample_tier ''vvip'' 2 8000 9]"
  have "select_for_budget now (make_selector ?us) 1000 = Some (sample_tier ''vip'' 0 5000 9)"
    by (simp add: select_for_budget_def make_selector_def bisect_right_def bisect_right_loop.simps
        to_double_less_iff_decimal decimal_10_2_def Let_def quantity_available_def)
  then show "\<exists>ts t. sorted_wrt tier_ordering ts \<and> (\<forall>t \<in> set ts. decimal_10_2 (tier_price t))
     \<and> select_for_budget now (make_selector ts) 1000 = Some t \<and> tier_price t = 5 * 1000"
    by (intro exI [of _ ?us] exI [of _ "sample_tier ''vip'' 0 5000 9"])
      (simp add: tier_ordering_def decimal_10_2_def)
qed

theorem selector_on_default_ordering_witness:
  "\<exists>ts t. select_for_budget 0 (make_selector ts) 1000 = Some t \<and> tier_price t = 5 * 1000"
  using selector_on_default_ordering [of 0] by blast

text \<open>
  A budget with more than two decimals can be rounded up to a price above it: a tier
  of price 10 is returned for a budget that is short of 10 by 10 to the minus 20.
\<close>

theorem selector_budget_rounding:
  "select_for_budget now (make_selector [sample_tier ''a'' 0 10 9]) (10 - 1 / 10 ^ 20)
     = Some (sample_tier ''a'' 0 10 9)"
proof -
  define x :: rat where "x = 10 - 1 / 10 ^ 20"
  have x: "0 < x" "8 \<le> x" "x < 16" by (simp_all add: x_def)
  then have "flog2 x = 3" "flog2 10 = 3" by (intro flog2_unique; simp add: power_int_def)+
  then have exps: "ulp_exp x = -49" "ulp_exp 10 = -49" by (simp_all add: ulp_exp_def)
  have scale: "z / 2 powi - 49 = z * 2 ^ 49" for z :: rat
    by (simp add: power_int_def power_one_over)
  have "\<bar>x * 2 ^ 49 - of_int (10 * 2 ^ 49)\<bar> < 1 / 2" by (simp add: x_def)
  then have "round_half_even (x * 2 ^ 49) = 10 * 2 ^ 49" by (rule round_half_even_near)
  moreover have "round_half_even (10 * 2 ^ 49) = 10 * 2 ^ 49"
    by (rule round_half_even_near) simp
  ultimately have "round_pos x = round_pos 10"
    by (simp only: round_pos_def exps scale)
  then have "round_double x = round_double 10" using x by (simp add: round_double_def)
  then have "to_double x = to_double 10" unfolding to_double_def by (rule arg_cong)
  then have "select_for_budget now (make_selector [sample_tier ''a'' 0 10 9]) x
      = select_for_budget now (make_selector [sample_tier ''a'' 0 10 9]) 10"
    by (simp only: select_for_budget_def)
  also have "\<dots> = best_in_budget now [sample_tier ''a'' 0 10 9] 10"
    by (rule select_for_budget_eq) (simp_all add: decimal_10_2_def)
  also have "\<dots> = Some (sample_tier ''a'' 0 10 9)"
    by (simp add: best_in_budget_def last_option_def)
  finally show ?thesis by (simp only: x_def)
qed

end
