(* ===== verification/TierLoops.thy ===== *)
theory TierLoops
  imports TierSelector "HOL-Library.While_Combinator"
begin

text \<open>
  The loops of \<open>inventory/tier_selector.py\<close> as they are written, with a count of their rounds:
  bisection over \<open>lo\<close> and \<open>hi\<close>, and the walk to the left with its index that ends below zero
  or in a \<open>return\<close>. They end after as many rounds as the comments promise, with the answer
  of the recursive definitions of \<open>TierSelector\<close>.
\<close>

section \<open>The loops\<close>

definition bisect_right_while :: "'a::linorder list \<Rightarrow> 'a \<Rightarrow> nat \<times> nat \<times> nat \<Rightarrow> (nat \<times> nat \<times> nat) option" where
  "bisect_right_while xs x =
     while_option (\<lambda>(lo, hi, k). lo < hi)
       (\<lambda>(lo, hi, k).
          let mid = (lo + hi) div 2
          in if x < xs ! mid then (lo, mid, k + 1) else (mid + 1, hi, k + 1))"

text \<open>The state: the index, what is returned once it is, and the rounds.\<close>

definition walk_while ::
  "instant \<Rightarrow> ticket_tier list \<Rightarrow> int \<times> ticket_tier option \<times> nat \<Rightarrow> (int \<times> ticket_tier option \<times> nat) option" where
  "walk_while now ts =
     while_option (\<lambda>(idx, found, k). found = None \<and> 0 \<le> idx)
       (\<lambda>(idx, found, k).
          let tier = ts ! nat idx
          in if quantity_available tier > 0 \<and> is_on_sale now tier then (idx, Some tier, k + 1)
             else (idx - 1, None, k + 1))"

text \<open>\<open>select_for_budget\<close>, with the rounds of both loops.\<close>

definition select_for_budget_while ::
  "instant \<Rightarrow> tier_selector \<Rightarrow> rat \<Rightarrow> (ticket_tier option \<times> nat \<times> nat) option" where
  "select_for_budget_while now s budget =
     (case bisect_right_while (sel_prices s) (to_double budget) (0, length (sel_prices s), 0) of
        None \<Rightarrow> None
      | Some (lo, hi, k) \<Rightarrow>
          (case walk_while now (sel_tiers s) (int lo - 1, None, 0) of
             None \<Rightarrow> None
           | Some (idx, found, m) \<Rightarrow> Some (found, k, m)))"

section \<open>They end\<close>

lemma bisect_right_while_ends:
  "lo \<le> hi \<Longrightarrow> \<exists>k'. bisect_right_while xs x (lo, hi, k)
      = Some (bisect_right_loop xs x lo hi, bisect_right_loop xs x lo hi, k + k') \<and> (k' = 0 \<or> 2 ^ k' \<le> 2 * (hi - lo))"
proof (induction xs x lo hi arbitrary: k rule: bisect_right_loop.induct)
  case (1 xs x lo hi)
  show ?case
  proof (cases "lo < hi")
    case False
    with 1(3) show ?thesis
      by (simp add: bisect_right_while_def while_option_unfold bisect_right_loop.simps [of xs x hi hi])
  next
    case True
    define mid where "mid = (lo + hi) div 2"
    define lo' hi' where "lo' = (if x < xs ! mid then lo else mid + 1)" and "hi' = (if x < xs ! mid then mid else hi)"
    have half: "lo' \<le> hi'" "2 * (hi' - lo') \<le> hi - lo" using True by (auto simp: lo'_def hi'_def mid_def)
    have "bisect_right_while xs x (lo, hi, k) = bisect_right_while xs x (lo', hi', k + 1)"
      using True by (subst (1) bisect_right_while_def, subst while_option_unfold)
        (simp add: bisect_right_while_def lo'_def hi'_def mid_def Let_def)
    moreover have "bisect_right_loop xs x lo hi = bisect_right_loop xs x lo' hi'"
      using True by (subst bisect_right_loop.simps) (simp add: lo'_def hi'_def mid_def Let_def)
    moreover obtain k' where "bisect_right_while xs x (lo', hi', k + 1)
        = Some (bisect_right_loop xs x lo' hi', bisect_right_loop xs x lo' hi', k + 1 + k')" "k' = 0 \<or> 2 ^ k' \<le> 2 * (hi' - lo')"
      using 1(1) [OF True mid_def, of "k + 1"] 1(2) [OF True mid_def, of "k + 1"] half(1)
      by (cases "x < xs ! mid") (auto simp: lo'_def hi'_def)
    ultimately show ?thesis
      using half(2) True by (intro exI [of _ "Suc k'"]) auto
  qed
qed

definition sellable :: "instant \<Rightarrow> ticket_tier \<Rightarrow> bool" where
  "sellable now t \<longleftrightarrow> quantity_available t > 0 \<and> is_on_sale now t"

lemma walk_while_ends:
  "n \<le> length ts \<Longrightarrow> \<exists>idx k'. walk_while now ts (int n - 1, None, k) = Some (idx, walk_left now ts n, k + k')
     \<and> k' \<le> Suc (length (takeWhile (\<lambda>t. \<not> sellable now t) (rev (take n ts)))) \<and> k' \<le> n"
proof (induction n arbitrary: k)
  case 0
  then show ?case by (simp add: walk_while_def while_option_unfold)
next
  case (Suc n)
  have rev: "rev (take (Suc n) ts) = ts ! n # rev (take n ts)" using Suc.prems by (simp add: take_Suc_conv_app_nth)
  show ?case
  proof (cases "sellable now (ts ! n)")
    case True
    then have "walk_while now ts (int (Suc n) - 1, None, k) = Some (int n, Some (ts ! n), k + 1)"
      by (simp add: walk_while_def while_option_unfold sellable_def)
    with True show ?thesis by (auto simp: rev sellable_def)
  next
    case False
    have "walk_while now ts (int (Suc n) - 1, None, k) = walk_while now ts (int n - 1, None, k + 1)"
      using False by (subst (1) walk_while_def, subst while_option_unfold)
        (auto simp: walk_while_def sellable_def Let_def)
    with Suc.IH [of "k + 1"] Suc.prems False show ?thesis
      by (auto simp: rev sellable_def intro!: exI [of _ "Suc _"])
  qed
qed

section \<open>Property\<close>

text \<open>
  C23: Choosing a tier always ends. For any tiers, in any order, and any budget both loops
  terminate with the answer of \<open>select_for_budget\<close>; the bisection after at most one round
  more than the binary logarithm of the number of tiers, the walk after looking at no more
  than the tiers that cannot be sold and one.
\<close>

theorem selection_terminates:
  "\<exists>k m. select_for_budget_while now (make_selector ts) budget = Some (select_for_budget now (make_selector ts) budget, k, m)
     \<and> (k = 0 \<or> 2 ^ k \<le> 2 * length ts)
     \<and> m \<le> length (filter (\<lambda>t. \<not> sellable now t) ts) + 1 \<and> m \<le> length ts"
proof -
  let ?s = "make_selector ts"
  let ?n = "bisect_right (sel_prices ?s) (to_double budget)"
  have len: "length (sel_prices ?s) = length ts" "sel_tiers ?s = ts" by (simp_all add: make_selector_def)
  obtain k where k: "bisect_right_while (sel_prices ?s) (to_double budget) (0, length ts, 0) = Some (?n, ?n, k)"
    "k = 0 \<or> 2 ^ k \<le> 2 * length ts"
    using bisect_right_while_ends [of 0 "length ts" "sel_prices ?s" "to_double budget" 0] len(1) by (auto simp: bisect_right_def)
  have n: "?n \<le> length ts" using bisect_right_le_length [of "sel_prices ?s"] len(1) by simp
  obtain idx m where m: "walk_while now ts (int ?n - 1, None, 0) = Some (idx, walk_left now ts ?n, m)"
    "m \<le> Suc (length (takeWhile (\<lambda>t. \<not> sellable now t) (rev (take ?n ts))))" "m \<le> ?n"
    using walk_while_ends [OF n, of now 0] by auto
  have "length (takeWhile P (rev (take j ts))) \<le> length (filter P ts)" for P j
  proof -
    have "length (takeWhile P xs) \<le> length (filter P xs)" for xs :: "ticket_tier list" by (induction xs) auto
    then have "length (takeWhile P (rev (take j ts))) \<le> length (filter P (take j ts))"
      by (metis length_rev rev_filter)
    also have "\<dots> \<le> length (filter P (take j ts @ drop j ts))" unfolding filter_append by simp
    finally show ?thesis by simp
  qed
  then have "m \<le> length (filter (\<lambda>t. \<not> sellable now t) ts) + 1" using m(2) by (metis Suc_eq_plus1 Suc_le_mono le_trans)
  moreover have "m \<le> length ts" using m(3) n by simp
  ultimately show ?thesis
    using k m(1) by (auto simp: select_for_budget_while_def select_for_budget_def len)
qed

end
