(* ===== verification/Mpesa.thy ===== *)
theory Mpesa
  imports PyDatetime PyJson "HOL-Library.Word"
begin

text \<open>
  \<open>payments/mpesa.py\<close>: the allowlist of callback addresses, the callback parser and the
  requests to the Daraja API. IPv4 parsing and networks are those of Python's \<open>ipaddress\<close>;
  the HTTP client is a parameter (\<open>http_api\<close>), as are the settings.
\<close>

section \<open>Addresses\<close>

fun split_dots :: "string \<Rightarrow> string list" where
  "split_dots [] = [[]]"
| "split_dots (c # cs) =
     (if c = CHR ''.'' then [] # split_dots cs
      else (case split_dots cs of [] \<Rightarrow> [[c]] | w # ws \<Rightarrow> (c # w) # ws))"

text \<open>An octet has one to three digits, no leading zero, and is at most 255.\<close>

definition parse_octet :: "string \<Rightarrow> nat option" where
  "parse_octet s =
     (if s \<noteq> [] \<and> list_all is_digit s \<and> length s \<le> 3 \<and> (s = ''0'' \<or> hd s \<noteq> CHR ''0'')
         \<and> parse_nat s \<le> 255
      then Some (parse_nat s) else None)"

definition ip_of_octets :: "nat \<Rightarrow> nat \<Rightarrow> nat \<Rightarrow> nat \<Rightarrow> 32 word" where
  "ip_of_octets a b c d = of_nat (((a * 256 + b) * 256 + c) * 256 + d)"

text \<open>
  The IPv4 address a text denotes. Texts \<open>ip_address\<close> takes for an IPv6 address, or for
  none, are \<open>None\<close>: an IPv6 address is in no IPv4 network.
\<close>

definition parse_ipv4 :: "string \<Rightarrow> (32 word) option" where
  "parse_ipv4 s =
     (case split_dots s of
        [a, b, c, d] \<Rightarrow>
          (case (parse_octet a, parse_octet b, parse_octet c, parse_octet d) of
             (Some a, Some b, Some c, Some d) \<Rightarrow> Some (ip_of_octets a b c d)
           | _ \<Rightarrow> None)
      | _ \<Rightarrow> None)"

text \<open>A network is its address and prefix length.\<close>

definition in_network :: "32 word \<Rightarrow> 32 word \<times> nat \<Rightarrow> bool" where
  "in_network addr net = (and addr (not (mask (32 - snd net))) = fst net)"

definition safaricom_ip_ranges :: "(32 word \<times> nat) list" where
  "safaricom_ip_ranges =
     [(ip_of_octets 196 201 214 200, 29), (ip_of_octets 196 201 214 216, 29),
      (ip_of_octets 196 201 214 224, 29), (ip_of_octets 196 201 214 232, 29),
      (ip_of_octets 196 201 214 240, 29), (ip_of_octets 196 201 214 248, 29),
      (ip_of_octets 196 201 214 0, 24)]"

definition is_safaricom_ip :: "string \<Rightarrow> bool" where
  "is_safaricom_ip client_ip =
     (case parse_ipv4 client_ip of
        None \<Rightarrow> False
      | Some addr \<Rightarrow> list_ex (in_network addr) safaricom_ip_ranges)"

section \<open>The callback\<close>

text \<open>
  The comprehension \<open>{i['Name']: i.get('Value') for i in ...}\<close>, as the list of its
  insertions; a key that is a list or a dictionary cannot be inserted.
\<close>

fun stk_items :: "json list \<Rightarrow> (json \<times> json) list result" where
  "stk_items [] = Inr []"
| "stk_items (i # is) =
     (case py_item i ''Name'' of Inl e \<Rightarrow> Inl e | Inr name \<Rightarrow>
      case py_get i ''Value'' JNull of Inl e \<Rightarrow> Inl e | Inr val \<Rightarrow>
      if \<not> py_hashable name then Inl TypeError
      else (case stk_items is of Inl e \<Rightarrow> Inl e | Inr rest \<Rightarrow> Inr ((name, val) # rest)))"

text \<open>The last insertion under a key is the one that is read.\<close>

definition items_get :: "(json \<times> json) list \<Rightarrow> string \<Rightarrow> json" where
  "items_get items k = (case map_of (rev items) (JStr k) of None \<Rightarrow> JNull | Some v \<Rightarrow> v)"

definition parse_stk_callback :: "json \<Rightarrow> json result" where
  "parse_stk_callback callback_data =
     (case py_get callback_data ''Body'' (JObj []) of Inl e \<Rightarrow> Inl e | Inr outer \<Rightarrow>
      case py_get outer ''stkCallback'' (JObj []) of Inl e \<Rightarrow> Inl e | Inr body \<Rightarrow>
      case py_get body ''ResultCode'' JNull of Inl e \<Rightarrow> Inl e | Inr result_code \<Rightarrow>
      case py_get body ''CheckoutRequestID'' (JStr []) of Inl e \<Rightarrow> Inl e | Inr checkout_request_id \<Rightarrow>
      if \<not> py_is_zero result_code
      then (case py_get body ''ResultDesc'' (JStr []) of Inl e \<Rightarrow> Inl e | Inr desc \<Rightarrow>
        Inr (JObj [(''success'', JBool False), (''checkout_request_id'', checkout_request_id),
          (''result_code'', result_code), (''result_desc'', desc)]))
      else
        (case py_get body ''CallbackMetadata'' (JObj []) of Inl e \<Rightarrow> Inl e | Inr meta \<Rightarrow>
         case py_get meta ''Item'' (JList []) of Inl e \<Rightarrow> Inl e | Inr item \<Rightarrow>
         case py_iter item of Inl e \<Rightarrow> Inl e | Inr is \<Rightarrow>
         case stk_items is of Inl e \<Rightarrow> Inl e | Inr items \<Rightarrow>
         Inr (JObj [(''success'', JBool True), (''checkout_request_id'', checkout_request_id),
           (''amount'', items_get items ''Amount''),
           (''receipt_number'', items_get items ''MpesaReceiptNumber''),
           (''phone'', items_get items ''PhoneNumber''),
           (''transaction_date'', items_get items ''TransactionDate'')])))"

section \<open>Octets\<close>

lemma digit_char_value: "is_digit c \<Longrightarrow> digit_char (digit_value c) = c \<and> digit_value c < 10"
  by (auto simp: is_digit_def digit_value_def digit_char_def)

lemma digit_value_0 [simp]: "is_digit c \<Longrightarrow> digit_value c = 0 \<longleftrightarrow> c = CHR ''0''"
  by (auto simp: is_digit_def digit_value_def)

lemma digit_value_pos: "is_digit c \<Longrightarrow> c \<noteq> CHR ''0'' \<Longrightarrow> 0 < digit_value c"
  using digit_value_0 [of c] by linarith

lemma digit_value_zero [simp]: "digit_value CHR ''0'' = 0"
  by (simp add: digit_value_def)

lemma show_nat_small: "n < 10 \<Longrightarrow> show_nat n = [digit_char n]"
  by (subst show_nat.simps) simp

lemma show_nat_zero [simp]: "show_nat 0 = ''0''"
  by (simp add: show_nat_small digit_char_def)

lemma parse_nat_single [simp]: "parse_nat [c] = digit_value c"
  by (simp add: parse_nat_def)

lemma parse_nat_pos: "list_all is_digit s \<Longrightarrow> s \<noteq> [] \<Longrightarrow> hd s \<noteq> CHR ''0'' \<Longrightarrow> 0 < parse_nat s"
proof (induction s rule: rev_induct)
  case (snoc c s)
  then show ?case by (cases "s = []") (auto simp: parse_nat_append digit_value_pos)
qed simp

text \<open>Digits without a leading zero are exactly what printing gives.\<close>

lemma show_parse_nat:
  "list_all is_digit s \<Longrightarrow> s \<noteq> [] \<Longrightarrow> s = ''0'' \<or> hd s \<noteq> CHR ''0'' \<Longrightarrow> show_nat (parse_nat s) = s"
proof (induction s rule: rev_induct)
  case (snoc c s)
  then have c: "digit_char (digit_value c) = c" "digit_value c < 10"
    using digit_char_value by auto
  show ?case
  proof (cases "s = []")
    case True
    with c show ?thesis by (simp add: show_nat_small)
  next
    case False
    with snoc.prems have s: "list_all is_digit s" "hd s \<noteq> CHR ''0''" by (auto simp: Cons_eq_append_conv)
    with False have "0 < parse_nat s" by (intro parse_nat_pos)
    with c snoc.IH s False show ?thesis
      by (subst show_nat.simps) (simp add: parse_nat_append)
  qed
qed simp

lemma parse_show_nat: "parse_nat (show_nat n) = n"
proof (induction n rule: show_nat.induct)
  case (1 n)
  then show ?case
    by (subst show_nat.simps) (simp add: parse_nat_append digit_value_digit_char)
qed

lemma list_all_show_nat: "list_all is_digit (show_nat n)"
  unfolding list_all_iff is_digit_def using show_nat_digits by blast

lemma show_nat_head: "0 < n \<Longrightarrow> hd (show_nat n) \<noteq> CHR ''0''"
proof (induction n rule: show_nat.induct)
  case (1 n)
  show ?case
  proof (cases "n < 10")
    case True
    then have "n \<in> {1, 2, 3, 4, 5, 6, 7, 8, 9}" using 1(2) by auto
    then show ?thesis by (auto simp: show_nat_small digit_char_def)
  next
    case False
    then show ?thesis using 1(1) by (subst show_nat.simps) simp
  qed
qed

lemma length_show_nat: "n < 10 ^ Suc k \<Longrightarrow> length (show_nat n) \<le> Suc k"
proof (induction k arbitrary: n)
  case 0
  then show ?case by (simp add: show_nat_small)
next
  case (Suc k)
  then have "n div 10 < 10 ^ Suc k" by (simp add: less_mult_imp_div_less mult.commute)
  from Suc.IH [OF this] show ?case by (subst show_nat.simps) simp
qed

lemma parse_octet_iff: "parse_octet s = Some n \<longleftrightarrow> n \<le> 255 \<and> s = show_nat n"
proof
  assume "parse_octet s = Some n"
  then show "n \<le> 255 \<and> s = show_nat n"
    by (auto simp: parse_octet_def show_parse_nat split: if_splits)
next
  assume n: "n \<le> 255 \<and> s = show_nat n"
  then have "length s \<le> 3" using length_show_nat [of n 2] by simp
  moreover have "s = ''0'' \<or> hd s \<noteq> CHR ''0''"
    using n show_nat_head [of n] by (cases "n = 0") simp_all
  ultimately show "parse_octet s = Some n"
    using n by (simp add: parse_octet_def list_all_show_nat parse_show_nat)
qed

lemma parse_octet_show [simp]: "n \<le> 255 \<Longrightarrow> parse_octet (show_nat n) = Some n"
  by (simp add: parse_octet_iff)

lemma show_nat_inject [simp]: "show_nat m = show_nat n \<longleftrightarrow> m = n"
  using parse_show_nat by metis

section \<open>Dotted quads\<close>

fun join_dots :: "string list \<Rightarrow> string" where
  "join_dots [] = []"
| "join_dots [w] = w"
| "join_dots (w # ws) = w @ ''.'' @ join_dots ws"

lemma split_dots_nonempty [simp]: "split_dots s \<noteq> []"
  by (induction s) (auto split: list.split)

lemma join_split_dots: "join_dots (split_dots s) = s"
proof (induction s)
  case (Cons c s)
  then show ?case
    by (cases "split_dots s"; cases "tl (split_dots s)") auto
qed simp

lemma split_dots_plain: "CHR ''.'' \<notin> set s \<Longrightarrow> split_dots s = [s]"
  by (induction s) auto

lemma no_dot_show_nat: "CHR ''.'' \<notin> set (show_nat n)"
  using show_nat_digits [of "CHR ''.''" n] by auto

lemma parse_ipv4_iff:
  "parse_ipv4 s = Some addr \<longleftrightarrow>
     (\<exists>a b c d. a \<le> 255 \<and> b \<le> 255 \<and> c \<le> 255 \<and> d \<le> 255 \<and> addr = ip_of_octets a b c d
        \<and> split_dots s = [show_nat a, show_nat b, show_nat c, show_nat d])"
  by (auto simp: parse_ipv4_def split: list.splits option.splits) (auto simp: parse_octet_iff)

section \<open>The allowlist\<close>

lemma unat_ip_of_octets:
  assumes "a \<le> 255" "b \<le> 255" "c \<le> 255" "d \<le> 255"
  shows "unat (ip_of_octets a b c d) = ((a * 256 + b) * 256 + c) * 256 + d"
proof -
  have "((a * 256 + b) * 256 + c) * 256 + d < 2 ^ 32" using assms by simp
  then show ?thesis unfolding ip_of_octets_def by (subst unat_of_nat) simp
qed

lemma and_not_mask_eq: "and w (not (mask n)) = push_bit n (drop_bit n w)" for w :: "'a::len word"
  by (rule bit_word_eqI) (auto simp: bit_simps)

lemma digits_256: "y \<le> 255 \<Longrightarrow> y' \<le> 255 \<Longrightarrow> x * 256 + y = x' * 256 + y' \<longleftrightarrow> x = x' \<and> y = y'" for x y :: nat
proof
  assume y: "y \<le> 255" "y' \<le> 255" and eq: "x * 256 + y = x' * 256 + y'"
  have "(n * 256 + m) div 256 = n" if "m \<le> 255" for n m :: nat using that by (simp add: div_add1_eq)
  then have "x = x'" using y eq by metis
  with eq show "x = x' \<and> y = y'" by simp
qed simp

lemma in_slash_24:
  assumes "a \<le> 255" "b \<le> 255" "c \<le> 255" "d \<le> 255"
  shows "in_network (ip_of_octets a b c d) (ip_of_octets 196 201 214 0, 24) \<longleftrightarrow> a = 196 \<and> b = 201 \<and> c = 214"
proof -
  let ?w = "ip_of_octets a b c d"
  have N: "ip_of_octets 196 201 214 0 = push_bit 8 0xC4C9D6" by (simp add: ip_of_octets_def)
  have shift: "unat (drop_bit 8 ?w) = unat ?w div 256"
    by (subst unat_drop_bit_eq) (simp add: drop_bit_eq_div)
  have div_last: "(n * 256 + d) div 256 = n" for n
    using assms(4) by (simp add: div_add1_eq)
  have "drop_bit 8 (push_bit 8 (drop_bit 8 ?w)) = drop_bit 8 ?w"
    by (rule bit_word_eqI) (auto simp: bit_simps dest: bit_imp_le_length)
  moreover have "drop_bit 8 (push_bit 8 (0xC4C9D6 :: 32 word)) = 0xC4C9D6" by simp
  ultimately have "push_bit 8 (drop_bit 8 ?w) = push_bit 8 0xC4C9D6 \<longleftrightarrow> drop_bit 8 ?w = 0xC4C9D6"
    by metis
  also have "\<dots> \<longleftrightarrow> unat (drop_bit 8 ?w) = 0xC4C9D6"
    by (simp add: word_unat_eq_iff)
  also have "\<dots> \<longleftrightarrow> (a * 256 + b) * 256 + c = 0xC4C9D6"
    unfolding shift unat_ip_of_octets [OF assms] using assms(4) by (simp only: div_last)
  also have "\<dots> \<longleftrightarrow> (a * 256 + b) * 256 + c = (196 * 256 + 201) * 256 + 214" by simp
  also have "\<dots> \<longleftrightarrow> a = 196 \<and> b = 201 \<and> c = 214"
    using assms 
      digits_256 [of c 214 "a * 256 + b" "196 * 256 + 201"] digits_256 [of b 201 a 196] by fastforce
  finally show ?thesis by (simp add: in_network_def N and_not_mask_eq)
qed

text \<open>Each of the \<open>/29\<close> networks lies inside the \<open>/24\<close>.\<close>

lemma slash_29_in_24:
  assumes "in_network w (net, 29)" and "and net (not (mask 8)) = ip_of_octets 196 201 214 0"
  shows "in_network w (ip_of_octets 196 201 214 0, 24)"
proof -
  have "and (not (mask 3)) (not (mask 8)) = (not (mask 8) :: 32 word)"
    by (rule bit_word_eqI) (auto simp: bit_simps)
  then have "and w (not (mask 8)) = and (and w (not (mask 3))) (not (mask 8))"
    by (simp add: and.assoc)
  then show ?thesis using assms by (simp add: in_network_def)
qed

lemma in_ranges_iff:
  "list_ex (in_network w) safaricom_ip_ranges \<longleftrightarrow> in_network w (ip_of_octets 196 201 214 0, 24)"
proof -
  have sub: "and (ip_of_octets 196 201 214 x) (not (mask 8)) = ip_of_octets 196 201 214 0" if "x \<le> 255" for x
    using in_slash_24 [of 196 201 214 x] that by (simp add: in_network_def)
  show ?thesis
    by (auto simp: safaricom_ip_ranges_def intro: slash_29_in_24 [OF _ sub])
qed

section \<open>Properties\<close>

text \<open>
  C28: The allowlist admits exactly the 256 addresses 196.201.214.0 to 196.201.214.255, in
  their canonical text; the six narrower networks of the list add nothing to the last one.
\<close>

theorem safaricom_allowlist_exact:
  "is_safaricom_ip s = (\<exists>d<256. s = ''196.201.214.'' @ show_nat d)"
proof
  assume "is_safaricom_ip s"
  then obtain addr where addr: "parse_ipv4 s = Some addr" "in_network addr (ip_of_octets 196 201 214 0, 24)"
    by (auto simp: is_safaricom_ip_def in_ranges_iff split: option.splits)
  then obtain a b c d where q: "a \<le> 255" "b \<le> 255" "c \<le> 255" "d \<le> 255" "addr = ip_of_octets a b c d"
    "split_dots s = [show_nat a, show_nat b, show_nat c, show_nat d]"
    by (auto simp: parse_ipv4_iff)
  then have "a = 196" "b = 201" "c = 214" using addr(2) in_slash_24 by blast+
  then have "s = join_dots [show_nat 196, show_nat 201, show_nat 214, show_nat d]"
    using q(6) join_split_dots [of s] by simp
  then have "s = ''196.201.214.'' @ show_nat d"
    by (simp add: show_nat.simps digit_char_def)
  with q(4) show "\<exists>d<256. s = ''196.201.214.'' @ show_nat d" by auto
next
  assume "\<exists>d<256. s = ''196.201.214.'' @ show_nat d"
  then obtain d where d: "d \<le> 255" "s = ''196.201.214.'' @ show_nat d" by auto
  have "split_dots s = [''196'', ''201'', ''214'', show_nat d]"
    by (simp add: d(2) split_dots_plain no_dot_show_nat)
  moreover have "''196'' = show_nat 196" "''201'' = show_nat 201" "''214'' = show_nat 214"
    by (simp_all add: show_nat.simps digit_char_def)
  ultimately have "parse_ipv4 s = Some (ip_of_octets 196 201 214 d)"
    using d(1) by (simp add: parse_ipv4_iff)
  moreover have "in_network (ip_of_octets 196 201 214 d) (ip_of_octets 196 201 214 0, 24)"
    using d(1) in_slash_24 [of 196 201 214 d] by simp
  ultimately show "is_safaricom_ip s" by (simp add: is_safaricom_ip_def in_ranges_iff)
qed

text \<open>
  The parser of callbacks tells success exactly by a result code of zero. For a callback
  of the documented shape it returns the request id and, on success, for each of the four
  fields the value of the last item of that name, or null when there is none; on failure it
  returns the code and its description.
\<close>

theorem stk_callback_parsed:
  "parse_stk_callback (JObj [(''Body'', JObj [(''stkCallback'', JObj
      [(''CheckoutRequestID'', cid), (''ResultCode'', code), (''ResultDesc'', desc),
       (''CallbackMetadata'', JObj [(''Item'', JList
          (map (\<lambda>(name, val). JObj [(''Name'', JStr name), (''Value'', val)]) items))])])])])
   = Inr (JObj
      (if py_is_zero code
       then [(''success'', JBool True), (''checkout_request_id'', cid),
             (''amount'', items_get (map (map_prod JStr id) items) ''Amount''),
             (''receipt_number'', items_get (map (map_prod JStr id) items) ''MpesaReceiptNumber''),
             (''phone'', items_get (map (map_prod JStr id) items) ''PhoneNumber''),
             (''transaction_date'', items_get (map (map_prod JStr id) items) ''TransactionDate'')]
       else [(''success'', JBool False), (''checkout_request_id'', cid), (''result_code'', code),
             (''result_desc'', desc)]))"
proof -
  have "stk_items (map (\<lambda>(name, val). JObj [(''Name'', JStr name), (''Value'', val)]) items)
      = Inr (map (map_prod JStr id) items)"
    by (induction items) auto
  then show ?thesis by (simp add: parse_stk_callback_def)
qed

text \<open>
  Malformed callbacks. A part that should be a dictionary and is not makes the parser
  raise \<open>AttributeError\<close>; an item without a name raises \<open>KeyError\<close>; and when it returns a
  success, the callback had a result code that Python holds equal to 0.
\<close>

theorem stk_callback_malformed:
  "parse_stk_callback (JList js) = Inl AttributeError
   \<and> parse_stk_callback (JObj [(''Body'', JNull)]) = Inl AttributeError
   \<and> parse_stk_callback (JObj [(''Body'', JObj [(''stkCallback'', JObj [(''ResultCode'', JInt 0),
        (''CallbackMetadata'', JObj [(''Item'', JList [JObj [(''Value'', v)]])])])])]) = Inl KeyError
   \<and> (parse_stk_callback cb = Inr (JObj ((''success'', JBool True) # rest)) \<longrightarrow>
        (\<exists>body stk code. py_get cb ''Body'' (JObj []) = Inr body \<and> py_get body ''stkCallback'' (JObj []) = Inr stk
           \<and> py_get stk ''ResultCode'' JNull = Inr code \<and> py_is_zero code))"
  by (auto simp: parse_stk_callback_def split: sum.splits if_splits)

theorem stk_callback_malformed_witness:
  "\<exists>code. py_get (JObj [(''ResultCode'', JInt 0)]) ''ResultCode'' JNull = Inr code \<and> py_is_zero code"
proof -
  let ?cb = "JObj [(''Body'', JObj [(''stkCallback'', JObj [(''ResultCode'', JInt 0)])])]"
  have "parse_stk_callback ?cb = Inr (JObj ((''success'', JBool True) #
      [(''checkout_request_id'', JStr []), (''amount'', JNull), (''receipt_number'', JNull),
       (''phone'', JNull), (''transaction_date'', JNull)]))"
    by (simp add: parse_stk_callback_def items_get_def)
  with stk_callback_malformed [of "[]" JNull ?cb "[(''checkout_request_id'', JStr []), (''amount'', JNull),
      (''receipt_number'', JNull), (''phone'', JNull), (''transaction_date'', JNull)]"]
  show ?thesis by simp
qed

end
