(* ===== verification/PaymentApis.thy ===== *)
theory PaymentApis
  imports Mpesa Sha256
begin

text \<open>
  \<open>payments/lemon_squeezy.py\<close>, the requests of \<open>payments/mpesa.py\<close> and the QR fingerprint
  of \<open>tickets/models.py\<close>. The provider at the other end of an HTTP request is a parameter:
  \<open>http_get\<close> and \<open>http_post\<close> give the JSON body of the response, or the exception of the
  transport or of \<open>raise_for_status\<close>. Settings are a parameter too, with the defaults the
  code passes to \<open>getattr\<close>.
\<close>

section \<open>Parameters\<close>

record http_api =
  http_get :: "string \<Rightarrow> (string \<times> string) list \<Rightarrow> json result"
  http_post :: "string \<Rightarrow> json \<Rightarrow> (string \<times> string) list \<Rightarrow> json result"

record app_settings =
  str_setting :: "string \<Rightarrow> string option"
  mpesa_sandbox :: "bool option"

definition setting :: "app_settings \<Rightarrow> string \<Rightarrow> string \<Rightarrow> string" where
  "setting S name dflt = (case str_setting S name of None \<Rightarrow> dflt | Some v \<Rightarrow> v)"

section \<open>Signatures\<close>

definition ascii :: "string \<Rightarrow> bool" where
  "ascii s \<longleftrightarrow> list_all (\<lambda>c. (of_char c :: nat) < 128) s"

text \<open>\<open>hmac.compare_digest\<close> of two strings takes ASCII text only.\<close>

definition compare_digest :: "string \<Rightarrow> string \<Rightarrow> bool result" where
  "compare_digest a b = (if ascii a \<and> ascii b then Inr (a = b) else Inl TypeError)"

definition verify_webhook_signature :: "app_settings \<Rightarrow> byte list \<Rightarrow> string \<Rightarrow> unit result" where
  "verify_webhook_signature S payload signature_header =
     (let secret = setting S ''LEMON_SQUEEZY_WEBHOOK_SECRET'' []
      in if secret = [] then Inl LemonSqueezySignatureError
         else
           (let expected = hexdigest (hmac_sha256 (encode secret) payload)
            in case compare_digest expected signature_header of
                 Inl e \<Rightarrow> Inl e
               | Inr same \<Rightarrow> if \<not> same then Inl LemonSqueezySignatureError else Inr ()))"

text \<open>\<open>nonce\<close> is what \<open>secrets.token_hex(8)\<close> returns.\<close>

definition generate_qr_fingerprint :: "app_settings \<Rightarrow> string \<Rightarrow> string \<Rightarrow> string" where
  "generate_qr_fingerprint S nonce ticket_id =
     (let secret = setting S ''QR_SECRET'' ''insecure-dev-secret'';
          payload = ticket_id @ '':'' @ nonce
      in hexdigest (hmac_sha256 (encode secret) (encode payload)))"

section \<open>Base 64\<close>

definition b64_char :: "nat \<Rightarrow> char" where
  "b64_char n = ''ABCDEFGHIJKLMNOPQRSTUVWXYZabcdefghijklmnopqrstuvwxyz0123456789+/'' ! n"

text \<open>The four digits of a group of 24 bits.\<close>

definition b64_group :: "nat \<Rightarrow> string" where
  "b64_group n = [b64_char (n div 262144), b64_char (n div 4096 mod 64), b64_char (n div 64 mod 64), b64_char (n mod 64)]"

definition octets :: "byte \<Rightarrow> byte \<Rightarrow> byte \<Rightarrow> nat" where
  "octets a b c = (unat a * 256 + unat b) * 256 + unat c"

fun b64encode :: "byte list \<Rightarrow> string" where
  "b64encode (a # b # c # bs) = b64_group (octets a b c) @ b64encode bs"
| "b64encode [a, b] = take 3 (b64_group (octets a b 0)) @ ''=''"
| "b64encode [a] = take 2 (b64_group (octets a 0 0)) @ ''==''"
| "b64encode [] = []"

section \<open>LemonSqueezy checkout\<close>

definition ls_api_base :: string where
  "ls_api_base = ''https://api.lemonsqueezy.com/v1''"

definition create_checkout_url :: "app_settings \<Rightarrow> http_api \<Rightarrow> json \<Rightarrow> json \<Rightarrow> json \<Rightarrow> json result" where
  "create_checkout_url S H variant_id custom_data redirect_url =
     (let headers = [(''Authorization'', ''Bearer '' @ setting S ''LEMON_SQUEEZY_API_KEY'' []),
            (''Accept'', ''application/vnd.api+json''), (''Content-Type'', ''application/vnd.api+json'')];
          payload = JObj [(''data'', JObj [
            (''type'', JStr ''checkouts''),
            (''attributes'', JObj [
              (''custom_price'', JNull),
              (''product_options'', JObj [(''redirect_url'', redirect_url)]),
              (''checkout_data'', JObj [(''custom'', custom_data)])]),
            (''relationships'', JObj [
              (''store'', JObj [(''data'', JObj [(''type'', JStr ''stores''), (''id'', JStr (setting S ''LS_STORE_ID'' []))])]),
              (''variant'', JObj [(''data'', JObj [(''type'', JStr ''variants''), (''id'', variant_id)])])])])]
      in case http_post H (ls_api_base @ ''/checkouts'') payload headers of Inl e \<Rightarrow> Inl e | Inr response \<Rightarrow>
         case py_item response ''data'' of Inl e \<Rightarrow> Inl e | Inr data \<Rightarrow>
         case py_item data ''attributes'' of Inl e \<Rightarrow> Inl e | Inr attributes \<Rightarrow>
         py_item attributes ''url'')"

section \<open>Daraja requests\<close>

definition daraja_base :: string where
  "daraja_base = ''https://api.safaricom.co.ke''"

definition daraja_sandbox :: string where
  "daraja_sandbox = ''https://sandbox.safaricom.co.ke''"

definition daraja_url :: "app_settings \<Rightarrow> string" where
  "daraja_url S = (case mpesa_sandbox S of Some False \<Rightarrow> daraja_base | _ \<Rightarrow> daraja_sandbox)"

definition get_access_token :: "app_settings \<Rightarrow> http_api \<Rightarrow> json result" where
  "get_access_token S H =
     (let consumer_key = setting S ''MPESA_CONSUMER_KEY'' [];
          consumer_secret = setting S ''MPESA_CONSUMER_SECRET'' [];
          credentials = b64encode (encode (consumer_key @ '':'' @ consumer_secret))
      in case http_get H (daraja_url S @ ''/oauth/v1/generate?grant_type=client_credentials'')
                [(''Authorization'', ''Basic '' @ credentials)] of
           Inl e \<Rightarrow> Inl e
         | Inr response \<Rightarrow> py_item response ''access_token'')"

text \<open>\<open>datetime.now().strftime('%Y%m%d%H%M%S')\<close> of a local time.\<close>

definition stk_timestamp :: "instant \<Rightarrow> string" where
  "stk_timestamp t =
     (let (y, m, d) = civil_of_days (t div (86400 * usec_per_sec));
          s = t mod (86400 * usec_per_sec) div usec_per_sec
      in pad 4 (nat y) @ pad 2 (nat m) @ pad 2 (nat d)
           @ pad 2 (nat (s div 3600)) @ pad 2 (nat (s div 60 mod 60)) @ pad 2 (nat (s mod 60)))"

definition stk_password :: "app_settings \<Rightarrow> string \<Rightarrow> string" where
  "stk_password S timestamp =
     b64encode (encode (setting S ''MPESA_SHORTCODE'' [] @ setting S ''MPESA_PASSKEY'' [] @ timestamp))"

definition stk_payload :: "app_settings \<Rightarrow> string \<Rightarrow> string \<Rightarrow> int \<Rightarrow> string \<Rightarrow> string \<Rightarrow> string \<Rightarrow> json" where
  "stk_payload S timestamp phone_number amount account_reference transaction_desc callback_url =
     (let shortcode = setting S ''MPESA_SHORTCODE'' []
      in JObj [(''BusinessShortCode'', JStr shortcode), (''Password'', JStr (stk_password S timestamp)),
           (''Timestamp'', JStr timestamp), (''TransactionType'', JStr ''CustomerPayBillOnline''),
           (''Amount'', JInt amount), (''PartyA'', JStr phone_number), (''PartyB'', JStr shortcode),
           (''PhoneNumber'', JStr phone_number), (''CallBackURL'', JStr callback_url),
           (''AccountReference'', JStr account_reference), (''TransactionDesc'', JStr transaction_desc)])"

definition initiate_stk_push ::
  "app_settings \<Rightarrow> http_api \<Rightarrow> (json \<Rightarrow> string) \<Rightarrow> instant \<Rightarrow> string \<Rightarrow> int \<Rightarrow> string \<Rightarrow> string \<Rightarrow> string
     \<Rightarrow> json result" where
  "initiate_stk_push S H fmt now phone_number amount account_reference transaction_desc callback_url =
     (case get_access_token S H of Inl e \<Rightarrow> Inl e | Inr token \<Rightarrow>
      http_post H (daraja_url S @ ''/mpesa/stkpush/v1/processrequest'')
        (stk_payload S (stk_timestamp now) phone_number amount account_reference transaction_desc callback_url)
        [(''Authorization'', ''Bearer '' @ py_str fmt token)])"

section \<open>Decoding\<close>

text \<open>The reader a provider applies to such texts: four digits give three bytes.\<close>

definition b64_value :: "char \<Rightarrow> nat" where
  "b64_value c =
     (let n = of_char c in
      if 65 \<le> n \<and> n \<le> 90 then n - 65 else if 97 \<le> n \<and> n \<le> 122 then n - 71
      else if 48 \<le> n \<and> n \<le> 57 then n + 4 else if n = 43 then 62 else if n = 47 then 63 else 0)"

definition group_number :: "nat \<Rightarrow> nat \<Rightarrow> nat \<Rightarrow> nat \<Rightarrow> nat" where
  "group_number p q r s = ((p * 64 + q) * 64 + r) * 64 + s"

fun b64decode :: "string \<Rightarrow> byte list" where
  "b64decode (p # q # r # s # cs) =
     (let n = group_number (b64_value p) (b64_value q) (b64_value r) (b64_value s);
          bytes = [of_nat (n div 65536), of_nat (n div 256 mod 256), of_nat (n mod 256)]
      in (if r = CHR ''='' then take 1 bytes else if s = CHR ''='' then take 2 bytes else bytes)
           @ b64decode cs)"
| "b64decode _ = []"

lemma b64_value_char: "n < 64 \<Longrightarrow> b64_value (b64_char n) = n \<and> b64_char n \<noteq> CHR ''=''"
proof -
  have "list_all (\<lambda>n. b64_value (b64_char n) = n \<and> b64_char n \<noteq> CHR ''='') [0..<64]"
    by (simp add: upt_rec_numeral upt_rec [of 0 64] upt_rec [of "Suc 0" 64] b64_char_def b64_value_def
        flip: numeral_2_eq_2)
  then show "n < 64 \<Longrightarrow> b64_value (b64_char n) = n \<and> b64_char n \<noteq> CHR ''=''"
    by (simp add: list_all_iff)
qed

lemma group_digits: "group_number (n div 262144) (n div 4096 mod 64) (n div 64 mod 64) (n mod 64) = n"
proof -
  have "n div 262144 = n div 4096 div 64" "n div 4096 = n div 64 div 64"
    using div_mult2_eq [of n 4096 64] div_mult2_eq [of n 64 64] by simp_all
  then show ?thesis unfolding group_number_def by (simp only: div_mult_mod_eq)
qed

lemma last_byte: "m < 256 \<Longrightarrow> (k * 256 + m) div 256 = k \<and> (k * 256 + m) mod 256 = m" for k m :: nat
  by (simp add: div_add1_eq)

lemma unat_byte: "unat (b :: byte) < 256"
  using unsigned_less [of b] by simp

lemma octets_bound: "octets a b c < 2 ^ 24"
  using unat_byte [of a] unat_byte [of b] unat_byte [of c] by (simp add: octets_def)

lemma octets_parts:
  "of_nat (octets a b c div 65536) = a" "of_nat (octets a b c div 256 mod 256) = b" "of_nat (octets a b c mod 256) = c"
proof -
  have c: "octets a b c div 256 = unat a * 256 + unat b" "octets a b c mod 256 = unat c"
    unfolding octets_def using last_byte [OF unat_byte [of c]] by blast+
  have b: "octets a b c div 256 div 256 = unat a" "octets a b c div 256 mod 256 = unat b"
    unfolding c(1) using last_byte [OF unat_byte [of b]] by blast+
  have "octets a b c div 65536 = unat a" 
    using b(1) div_mult2_eq [of "octets a b c" 256 256] by simp
  then show "of_nat (octets a b c div 65536) = a" by simp
  show "of_nat (octets a b c div 256 mod 256) = b" by (simp add: b(2))
  show "of_nat (octets a b c mod 256) = c" by (simp add: c(2))
qed

lemma group_values:
  assumes "n < 2 ^ 24"
  shows "b64_value (b64_char (n div 262144)) = n div 262144"
    "b64_value (b64_char (n div 4096 mod 64)) = n div 4096 mod 64"
    "b64_value (b64_char (n div 64 mod 64)) = n div 64 mod 64"
    "b64_value (b64_char (n mod 64)) = n mod 64"
    "b64_char (n div 64 mod 64) \<noteq> CHR ''=''" "b64_char (n mod 64) \<noteq> CHR ''=''"
  using assms by (simp_all add: b64_value_char)

lemma decode_full: "b64decode (b64_group (octets a b c) @ cs) = [a, b, c] @ b64decode cs"
  by (simp add: b64_group_def group_values [OF octets_bound] group_digits octets_parts Let_def)

lemma b64_value_eq [simp]: "b64_value CHR ''='' = 0"
  by (simp add: b64_value_def)

lemma low_bits:
  "octets a b 0 mod 64 = 0" "octets a 0 0 div 64 mod 64 = 0" "octets a 0 0 mod 64 = 0"
  by (simp_all add: octets_def mult.assoc mod_mult_right_eq)

lemma b64decode_encode: "b64decode (b64encode bs) = bs"
proof (induction bs rule: b64encode.induct)
  case (1 a b c bs)
  then show ?case by (simp add: decode_full)
next
  case (2 a b)
  have "group_number (octets a b 0 div 262144) (octets a b 0 div 4096 mod 64) (octets a b 0 div 64 mod 64) 0 = octets a b 0"
    using group_digits [of "octets a b 0"] low_bits(1) by simp
  then show ?case
    by (simp add: b64_group_def group_values [OF octets_bound] octets_parts Let_def)
next
  case (3 a)
  have "group_number (octets a 0 0 div 262144) (octets a 0 0 div 4096 mod 64) 0 0 = octets a 0 0"
    using group_digits [of "octets a 0 0"] low_bits(2,3) by simp
  then show ?case
    by (simp add: b64_group_def group_values [OF octets_bound] octets_parts Let_def)
next
  case 4
  then show ?case by simp
qed

section \<open>Properties\<close>

lemma ascii_hex: "list_all hex_char s \<Longrightarrow> ascii s"
  by (induction s) (auto simp: ascii_def hex_char_def)

lemma ascii_hexdigest [simp]: "ascii (hexdigest bs)"
  by (rule ascii_hex [OF list_all_hexdigest])

text \<open>
  A webhook passes the check of its signature only if a secret is configured and the
  header is the hexadecimal HMAC-SHA256 of the very payload under it. Without a secret, and
  for any other ASCII header, the check raises its own error; a header with other
  characters meets the \<open>TypeError\<close> of the constant-time comparison.
\<close>

theorem webhook_signature_exact:
  "verify_webhook_signature S payload header =
     (if setting S ''LEMON_SQUEEZY_WEBHOOK_SECRET'' [] = [] then Inl LemonSqueezySignatureError
      else if ascii header
      then (if header = hexdigest (hmac_sha256 (encode (setting S ''LEMON_SQUEEZY_WEBHOOK_SECRET'' [])) payload)
            then Inr () else Inl LemonSqueezySignatureError)
      else Inl TypeError)"
  by (auto simp: verify_webhook_signature_def compare_digest_def Let_def)

text \<open>
  A QR fingerprint has exactly the 64 characters its column holds, all of them lower-case
  hexadecimal digits, whatever the ticket, the nonce and the secret.
\<close>

theorem qr_fingerprint_fits:
  "length (generate_qr_fingerprint S nonce ticket_id) = 64
   \<and> list_all (\<lambda>c. c \<in> set ''0123456789abcdef'') (generate_qr_fingerprint S nonce ticket_id)"
  using list_all_hexdigest
  by (simp add: generate_qr_fingerprint_def Let_def hmac_sha256_def hex_char_def [abs_def])

lemma length_stk_timestamp: "length (stk_timestamp t) = 14"
  by (simp add: stk_timestamp_def Let_def split: prod.split)

text \<open>
  An STK push first asks for a token, and sends nothing else when that fails. With a
  token it posts one request, whose answer it returns: the password in it decodes to the
  short code, the pass key and the 14-digit timestamp that is sent beside it, and the payer
  is the given phone number; the token was asked for with credentials that decode to the
  consumer key and secret.
\<close>

theorem stk_push_request:
  "\<exists>credentials password.
      b64decode credentials = encode (setting S ''MPESA_CONSUMER_KEY'' [] @ '':'' @ setting S ''MPESA_CONSUMER_SECRET'' [])
    \<and> b64decode password = encode (setting S ''MPESA_SHORTCODE'' [] @ setting S ''MPESA_PASSKEY'' [] @ stk_timestamp now)
    \<and> length (stk_timestamp now) = 14
    \<and> initiate_stk_push S H fmt now phone amount ref desc callback =
        (case http_get H (daraja_url S @ ''/oauth/v1/generate?grant_type=client_credentials'')
                [(''Authorization'', ''Basic '' @ credentials)] of
           Inl e \<Rightarrow> Inl e
         | Inr response \<Rightarrow>
             (case py_item response ''access_token'' of
                Inl e \<Rightarrow> Inl e
              | Inr token \<Rightarrow>
                  http_post H (daraja_url S @ ''/mpesa/stkpush/v1/processrequest'')
                    (JObj [(''BusinessShortCode'', JStr (setting S ''MPESA_SHORTCODE'' [])),
                       (''Password'', JStr password), (''Timestamp'', JStr (stk_timestamp now)),
                       (''TransactionType'', JStr ''CustomerPayBillOnline''), (''Amount'', JInt amount),
                       (''PartyA'', JStr phone), (''PartyB'', JStr (setting S ''MPESA_SHORTCODE'' [])),
                       (''PhoneNumber'', JStr phone), (''CallBackURL'', JStr callback),
                       (''AccountReference'', JStr ref), (''TransactionDesc'', JStr desc)])
                    [(''Authorization'', ''Bearer '' @ py_str fmt token)]))"
  by (intro exI [of _ "b64encode (encode (setting S ''MPESA_CONSUMER_KEY'' [] @ '':'' @ setting S ''MPESA_CONSUMER_SECRET'' []))"]
      exI [of _ "stk_password S (stk_timestamp now)"])
    (simp add: b64decode_encode stk_password_def length_stk_timestamp initiate_stk_push_def
      get_access_token_def stk_payload_def Let_def split: sum.split)

end
