(* ===== verification/Settings.thy ===== *)
theory Settings
  imports PaymentApis
begin

text \<open>
  The settings modules under \<open>config/\<close>: the namespace each one defines out of the
  environment, which module each entry point loads, and what the code of the application
  then reads. django-environ is a parameter (\<open>environ\<close>), and so is the directory of the
  project.
\<close>

section \<open>Values\<close>

datatype setting_value =
    SStr string
  | SBool bool
  | SInt int
  | SPath string
  | SDelta int
  | SList "setting_value list"
  | SDict "(string \<times> setting_value) list"

type_synonym namespace = "string \<rightharpoonup> setting_value"

text \<open>
  \<open>env_var\<close> is the text a variable of the environment has, if it is set. \<open>parse_bool\<close>,
  \<open>parse_list\<close> and \<open>parse_db\<close> are how django-environ reads a flag, a list and the URL of a
  database; a default of a database is such a URL as well.
\<close>

record environ =
  env_var :: "string \<Rightarrow> string option"
  parse_bool :: "string \<Rightarrow> bool"
  parse_list :: "string \<Rightarrow> string list"
  parse_db :: "string \<Rightarrow> setting_value"
  base_dir :: string

definition env_default :: "environ \<Rightarrow> string \<Rightarrow> string \<Rightarrow> string" where
  "env_default E name dflt = (case env_var E name of None \<Rightarrow> dflt | Some v \<Rightarrow> v)"

definition env_bool :: "environ \<Rightarrow> string \<Rightarrow> bool \<Rightarrow> bool" where
  "env_bool E name dflt = (case env_var E name of None \<Rightarrow> dflt | Some v \<Rightarrow> parse_bool E v)"

definition env_list :: "environ \<Rightarrow> string \<Rightarrow> string list \<Rightarrow> string list" where
  "env_list E name dflt = (case env_var E name of None \<Rightarrow> dflt | Some v \<Rightarrow> parse_list E v)"

definition env_db :: "environ \<Rightarrow> string \<Rightarrow> string \<Rightarrow> setting_value" where
  "env_db E name dflt = parse_db E (case env_var E name of None \<Rightarrow> dflt | Some v \<Rightarrow> v)"

section \<open>The modules\<close>

definition django_apps :: "string list" where
  "django_apps =
     [''django.contrib.admin'', ''django.contrib.auth'', ''django.contrib.contenttypes'',
      ''django.contrib.sessions'', ''django.contrib.messages'', ''django.contrib.staticfiles'']"

definition third_party_apps :: "string list" where
  "third_party_apps =
     [''rest_framework'', ''rest_framework_simplejwt'', ''corsheaders'', ''drf_spectacular'',
      ''django_filters'']"

definition local_apps :: "string list" where
  "local_apps =
     [''accounts'', ''companies'', ''events'', ''inventory'', ''checkout'', ''tickets'',
      ''checkin'', ''payments'', ''webhooks'', ''audit'']"

definition base_settings :: "environ \<Rightarrow> namespace" where
  "base_settings E = map_of
     [(''SECRET_KEY'', SStr (env_default E ''SECRET_KEY''
        ''django-insecure-dev-only-key-change-in-production'')),
      (''DEBUG'', SBool (env_bool E ''DEBUG'' True)),
      (''ALLOWED_HOSTS'', SList (map SStr (env_list E ''ALLOWED_HOSTS'' [''localhost'',
        ''127.0.0.1'']))),
      (''INSTALLED_APPS'', SList (map SStr (django_apps @ third_party_apps @ local_apps))),
      (''MIDDLEWARE'', SList (map SStr [''django.middleware.security.SecurityMiddleware'',
        ''whitenoise.middleware.WhiteNoiseMiddleware'',
        ''corsheaders.middleware.CorsMiddleware'',
        ''django.contrib.sessions.middleware.SessionMiddleware'',
        ''django.middleware.common.CommonMiddleware'',
        ''django.middleware.csrf.CsrfViewMiddleware'',
        ''django.contrib.auth.middleware.AuthenticationMiddleware'',
        ''django.contrib.messages.middleware.MessageMiddleware'',
        ''django.middleware.clickjacking.XFrameOptionsMiddleware''])),
      (''ROOT_URLCONF'', SStr ''config.urls''),
      (''WSGI_APPLICATION'', SStr ''config.wsgi.application''),
      (''DEFAULT_AUTO_FIELD'', SStr ''django.db.models.BigAutoField''),
      (''AUTH_USER_MODEL'', SStr ''accounts.User''),
      (''DATABASES'', SDict [(''default'', env_db E ''DATABASE_URL''
        ''sqlite:///db.sqlite3'')]),
      (''CACHES'', SDict [(''default'', SDict [(''BACKEND'',
        SStr ''django_redis.cache.RedisCache''), (''LOCATION'', SStr (env_default E
        ''REDIS_URL'' ''redis://localhost:6379/0'')), (''OPTIONS'', SDict [(''CLIENT_CLASS'',
        SStr ''django_redis.client.DefaultClient'')])])]),
      (''LANGUAGE_CODE'', SStr ''en-us''),
      (''TIME_ZONE'', SStr ''Africa/Nairobi''),
      (''USE_I18N'', SBool True),
      (''USE_TZ'', SBool True),
      (''STATIC_URL'', SStr ''static/''),
      (''STATIC_ROOT'', SPath (base_dir E @ ''/staticfiles'')),
      (''PASSWORD_HASHERS'', SList (map SStr
        [''django.contrib.auth.hashers.Argon2PasswordHasher'',
        ''django.contrib.auth.hashers.PBKDF2PasswordHasher''])),
      (''AUTH_PASSWORD_VALIDATORS'', SList [SDict [(''NAME'',
        SStr ''django.contrib.auth.password_validation.UserAttributeSimilarityValidator'')],
        SDict [(''NAME'',
        SStr ''django.contrib.auth.password_validation.MinimumLengthValidator'')], SDict
        [(''NAME'', SStr ''django.contrib.auth.password_validation.CommonPasswordValidator'')],
        SDict [(''NAME'',
        SStr ''django.contrib.auth.password_validation.NumericPasswordValidator'')]]),
      (''TEMPLATES'', SList [SDict [(''BACKEND'',
        SStr ''django.template.backends.django.DjangoTemplates''), (''DIRS'', SList []),
        (''APP_DIRS'', SBool True), (''OPTIONS'', SDict [(''context_processors'', SList (map
        SStr [''django.template.context_processors.request'',
        ''django.contrib.auth.context_processors.auth'',
        ''django.contrib.messages.context_processors.messages'']))])]]),
      (''SIMPLE_JWT'', SDict [(''ACCESS_TOKEN_LIFETIME'', SDelta (15 * 60 * usec_per_sec)),
        (''REFRESH_TOKEN_LIFETIME'', SDelta (7 * 86400 * usec_per_sec)),
        (''ROTATE_REFRESH_TOKENS'', SBool True), (''BLACKLIST_AFTER_ROTATION'', SBool True),
        (''ALGORITHM'', SStr ''HS256''), (''AUTH_HEADER_TYPES'', SList (map SStr
        [''Bearer'']))]),
      (''REST_FRAMEWORK'', SDict [(''DEFAULT_AUTHENTICATION_CLASSES'', SList (map SStr
        [''rest_framework_simplejwt.authentication.JWTAuthentication''])),
        (''DEFAULT_PERMISSION_CLASSES'', SList (map SStr
        [''rest_framework.permissions.IsAuthenticated''])), (''DEFAULT_FILTER_BACKENDS'', SList
        (map SStr [''django_filters.rest_framework.DjangoFilterBackend''])),
        (''DEFAULT_SCHEMA_CLASS'', SStr ''drf_spectacular.openapi.AutoSchema''),
        (''DEFAULT_PAGINATION_CLASS'', SStr ''rest_framework.pagination.PageNumberPagination''),
        (''PAGE_SIZE'', SInt 20)]),
      (''SPECTACULAR_SETTINGS'', SDict [(''TITLE'', SStr ''Ticketing System API''),
        (''DESCRIPTION'', SStr ''Multi-company event ticketing platform.''), (''VERSION'',
        SStr ''1.0.0'')]),
      (''CELERY_BROKER_URL'', SStr (env_default E ''REDIS_URL'' ''redis://localhost:6379/0'')),
      (''CELERY_RESULT_BACKEND'', SStr (env_default E ''REDIS_URL''
        ''redis://localhost:6379/0'')),
      (''CELERY_ACCEPT_CONTENT'', SList (map SStr [''json''])),
      (''CELERY_TASK_SERIALIZER'', SStr ''json''),
      (''QR_SECRET'', SStr (env_default E ''QR_SECRET'' ''insecure-dev-secret'')),
      (''LEMON_SQUEEZY_API_KEY'', SStr (env_default E ''LEMON_SQUEEZY_API_KEY'' [])),
      (''LEMON_SQUEEZY_WEBHOOK_SECRET'', SStr (env_default E ''LEMON_SQUEEZY_WEBHOOK_SECRET''
        [])),
      (''LS_STORE_ID'', SStr (env_default E ''LS_STORE_ID'' [])),
      (''MPESA_CONSUMER_KEY'', SStr (env_default E ''MPESA_CONSUMER_KEY'' [])),
      (''MPESA_CONSUMER_SECRET'', SStr (env_default E ''MPESA_CONSUMER_SECRET'' [])),
      (''MPESA_SHORTCODE'', SStr (env_default E ''MPESA_SHORTCODE'' [])),
      (''MPESA_PASSKEY'', SStr (env_default E ''MPESA_PASSKEY'' [])),
      (''MPESA_SANDBOX'', SBool (env_bool E ''MPESA_SANDBOX'' True)),
      (''SENTRY_DSN'', SStr (env_default E ''SENTRY_DSN'' []))]"

text \<open>\<open>from .base import *\<close>, then assignments.\<close>

definition development_settings :: "environ \<Rightarrow> namespace" where
  "development_settings E =
     (base_settings E)(''DEBUG'' \<mapsto> SBool True, ''ALLOWED_HOSTS'' \<mapsto> SList [SStr ''*''])"

definition production_settings :: "environ \<Rightarrow> namespace" where
  "production_settings E =
     (base_settings E)(''DEBUG'' \<mapsto> SBool False, ''SECURE_HSTS_SECONDS'' \<mapsto> SInt 31536000,
       ''SECURE_HSTS_INCLUDE_SUBDOMAINS'' \<mapsto> SBool True, ''SECURE_SSL_REDIRECT'' \<mapsto> SBool True)"

text \<open>The file \<open>config/settings.py\<close>, next to the package \<open>config/settings/\<close>.\<close>

definition shadowed_settings :: "environ \<Rightarrow> namespace" where
  "shadowed_settings E = map_of
     [(''SECRET_KEY'',
        SStr ''django-insecure-58z*4&xrtoh^s&v11r94*9^zll#sy*tc#k5!hs$5w8isy6xk8c''),
      (''DEBUG'', SBool True),
      (''ALLOWED_HOSTS'', SList []),
      (''INSTALLED_APPS'', SList (map SStr [''django.contrib.admin'', ''django.contrib.auth'',
        ''django.contrib.contenttypes'', ''django.contrib.sessions'',
        ''django.contrib.messages'', ''django.contrib.staticfiles''])),
      (''MIDDLEWARE'', SList (map SStr [''django.middleware.security.SecurityMiddleware'',
        ''django.contrib.sessions.middleware.SessionMiddleware'',
        ''django.middleware.common.CommonMiddleware'',
        ''django.middleware.csrf.CsrfViewMiddleware'',
        ''django.contrib.auth.middleware.AuthenticationMiddleware'',
        ''django.contrib.messages.middleware.MessageMiddleware'',
        ''django.middleware.clickjacking.XFrameOptionsMiddleware''])),
      (''ROOT_URLCONF'', SStr ''config.urls''),
      (''TEMPLATES'', SList [SDict [(''BACKEND'',
        SStr ''django.template.backends.django.DjangoTemplates''), (''DIRS'', SList []),
        (''APP_DIRS'', SBool True), (''OPTIONS'', SDict [(''context_processors'', SList (map
        SStr [''django.template.context_processors.request'',
        ''django.contrib.auth.context_processors.auth'',
        ''django.contrib.messages.context_processors.messages'']))])]]),
      (''WSGI_APPLICATION'', SStr ''config.wsgi.application''),
      (''DATABASES'', SDict [(''default'', SDict [(''ENGINE'',
        SStr ''django.db.backends.sqlite3''), (''NAME'', SPath (base_dir E @
        ''/db.sqlite3''))])]),
      (''AUTH_PASSWORD_VALIDATORS'', SList [SDict [(''NAME'',
        SStr ''django.contrib.auth.password_validation.UserAttributeSimilarityValidator'')],
        SDict [(''NAME'',
        SStr ''django.contrib.auth.password_validation.MinimumLengthValidator'')], SDict
        [(''NAME'', SStr ''django.contrib.auth.password_validation.CommonPasswordValidator'')],
        SDict [(''NAME'',
        SStr ''django.contrib.auth.password_validation.NumericPasswordValidator'')]]),
      (''LANGUAGE_CODE'', SStr ''en-us''),
      (''TIME_ZONE'', SStr ''UTC''),
      (''USE_I18N'', SBool True),
      (''USE_TZ'', SBool True),
      (''STATIC_URL'', SStr ''static/'')]"


section \<open>Entry points\<close>

text \<open>
  Python looks for a package before it looks for a module file of the same name, so
  \<open>config.settings\<close> is the package, whose \<open>__init__.py\<close> is empty.
\<close>

fun find_first :: "'a option list \<Rightarrow> 'a option" where
  "find_first [] = None"
| "find_first (None # xs) = find_first xs"
| "find_first (Some x # xs) = Some x"

definition settings_package_init :: namespace where
  "settings_package_init = Map.empty"

definition import_settings :: "environ \<Rightarrow> string \<Rightarrow> namespace option" where
  "import_settings E name =
     find_first
      [if name = ''config.settings'' then Some settings_package_init else None,
       if name = ''config.settings'' then Some (shadowed_settings E) else None,
       if name = ''config.settings.base'' then Some (base_settings E) else None,
       if name = ''config.settings.development'' then Some (development_settings E) else None,
       if name = ''config.settings.production'' then Some (production_settings E) else None]"

datatype entry_point = ManagePy | Wsgi | Asgi | CeleryApp

fun default_module :: "entry_point \<Rightarrow> string" where
  "default_module ManagePy = ''config.settings''"
| "default_module Wsgi = ''config.settings.development''"
| "default_module Asgi = ''config.settings.development''"
| "default_module CeleryApp = ''config.settings.development''"

text \<open>\<open>os.environ.setdefault('DJANGO_SETTINGS_MODULE', ...)\<close>\<close>

definition load_settings :: "environ \<Rightarrow> entry_point \<Rightarrow> namespace option" where
  "load_settings E e = import_settings E (env_default E ''DJANGO_SETTINGS_MODULE'' (default_module e))"

text \<open>The settings as the payment, ticket and refund code reads them.\<close>

definition app_settings_of :: "namespace \<Rightarrow> app_settings" where
  "app_settings_of ns =
     \<lparr>str_setting = (\<lambda>name. case ns name of Some (SStr s) \<Rightarrow> Some s | _ \<Rightarrow> None),
      mpesa_sandbox = (case ns ''MPESA_SANDBOX'' of Some (SBool b) \<Rightarrow> Some b | _ \<Rightarrow> None)\<rparr>"

section \<open>Lookups\<close>

lemma base_secrets:
  "base_settings E ''SECRET_KEY'' = Some (SStr (env_default E ''SECRET_KEY''
     ''django-insecure-dev-only-key-change-in-production''))"
  "base_settings E ''QR_SECRET'' = Some (SStr (env_default E ''QR_SECRET'' ''insecure-dev-secret''))"
  "base_settings E ''LEMON_SQUEEZY_WEBHOOK_SECRET'' = Some (SStr (env_default E ''LEMON_SQUEEZY_WEBHOOK_SECRET'' []))"
  "base_settings E ''MPESA_SANDBOX'' = Some (SBool (env_bool E ''MPESA_SANDBOX'' True))"
  by (simp_all add: base_settings_def)

text \<open>
  Refresh tokens are to be blacklisted once rotated, but the application that stores the
  blacklist is not installed.
\<close>

lemma blacklist_app_missing:
  "base_settings E ''INSTALLED_APPS'' = Some (SList (map SStr (django_apps @ third_party_apps @ local_apps)))
   \<and> ''rest_framework_simplejwt.token_blacklist'' \<notin> set (django_apps @ third_party_apps @ local_apps)"
  by (simp add: base_settings_def django_apps_def third_party_apps_def local_apps_def)

section \<open>Properties\<close>

lemma settings_of_entry:
  assumes "env_var E ''DJANGO_SETTINGS_MODULE'' = None"
  shows "load_settings E e =
      Some (if e = ManagePy then Map.empty
            else (base_settings E)(''DEBUG'' \<mapsto> SBool True, ''ALLOWED_HOSTS'' \<mapsto> SList [SStr ''*'']))"
  using assms
  by (cases e) (simp_all add: load_settings_def env_default_def import_settings_def settings_package_init_def
      development_settings_def)

text \<open>
  Which settings run. Without \<open>DJANGO_SETTINGS_MODULE\<close>, \<open>manage.py\<close> loads the empty
  package and finds no setting at all, although the file \<open>config/settings.py\<close> has a secret
  key; the servers and the workers run the development settings, with debugging on for any
  host, whatever the environment says about \<open>DEBUG\<close> and \<open>ALLOWED_HOSTS\<close>.
\<close>

theorem settings_by_entry_point:
  assumes "env_var E ''DJANGO_SETTINGS_MODULE'' = None"
  shows "load_settings E e =
      Some (if e = ManagePy then Map.empty
            else (base_settings E)(''DEBUG'' \<mapsto> SBool True, ''ALLOWED_HOSTS'' \<mapsto> SList [SStr ''*'']))
    \<and> shadowed_settings E ''SECRET_KEY'' \<noteq> None"
  using settings_of_entry [OF assms] by (simp add: shadowed_settings_def)

definition empty_environ :: environ where
  "empty_environ = \<lparr>env_var = (\<lambda>_. None), parse_bool = (\<lambda>s. s = ''true''), parse_list = (\<lambda>s. [s]),
     parse_db = SStr, base_dir = ''/app''\<rparr>"

theorem settings_by_entry_point_witness:
  "load_settings empty_environ ManagePy = Some Map.empty"
  using settings_by_entry_point [of empty_environ ManagePy] by (simp add: empty_environ_def)

text \<open>
  The production settings switch debugging off and HTTPS on whatever the environment
  holds, and are the base settings otherwise. They insist on no secret: where the variables
  are missing, sessions and tokens are signed with the published key, QR fingerprints with
  the published development secret, pushes go to the sandbox, and webhooks, in contrast,
  are all refused.
\<close>

theorem production_settings_defaults:
  "let ns = production_settings E; S = app_settings_of ns in
     ns ''DEBUG'' = Some (SBool False) \<and> ns ''SECURE_SSL_REDIRECT'' = Some (SBool True)
     \<and> (name \<in> {''DEBUG'', ''SECURE_HSTS_SECONDS'', ''SECURE_HSTS_INCLUDE_SUBDOMAINS'', ''SECURE_SSL_REDIRECT''}
        \<or> ns name = base_settings E name)
     \<and> ns ''SECRET_KEY'' = Some (SStr (case env_var E ''SECRET_KEY'' of
           None \<Rightarrow> ''django-insecure-dev-only-key-change-in-production'' | Some k \<Rightarrow> k))
     \<and> generate_qr_fingerprint S nonce ticket_id
         = hmac_sha256_hex (case env_var E ''QR_SECRET'' of None \<Rightarrow> ''insecure-dev-secret'' | Some k \<Rightarrow> k)
             (ticket_id @ '':'' @ nonce)
     \<and> daraja_url S = (case env_var E ''MPESA_SANDBOX'' of None \<Rightarrow> daraja_sandbox
           | Some v \<Rightarrow> if parse_bool E v then daraja_sandbox else daraja_base)
     \<and> verify_webhook_signature (app_settings_of (production_settings (E\<lparr>env_var := \<lambda>_. None\<rparr>))) payload header
         = Inl LemonSqueezySignatureError"
  by (simp add: Let_def production_settings_def base_secrets app_settings_of_def generate_qr_fingerprint_def
      verify_webhook_signature_def daraja_url_def setting_def hmac_sha256_hex_def env_default_def env_bool_def
      split: option.split)

end
