(* ===== verification/Routing.thy ===== *)
theory Routing
  imports Settings
begin

text \<open>
  What of the program runs when the processes of \<open>docker-compose.yml\<close> are up: the views the
  URL configuration of \<open>config/urls.py\<close> and \<open>accounts/urls.py\<close> reaches, and the tasks that
  \<open>config/celery.py\<close> registers and its beat process starts.
\<close>

section \<open>Routes\<close>

text \<open>The views of the repository and of the packages it mounts.\<close>

datatype view =
    RegisterView | CustomTokenObtainPairView | ProfileView | TokenRefreshView
  | CompanyViewSet | PublicEventListView | OrganizerEventViewSet | TicketTierViewSet
  | HealthCheck | ReadinessCheck | SpectacularAPIView | SpectacularSwaggerView | AdminPage string

text \<open>
  \<open>path()\<close> with a view and a name, with \<open>include()\<close>, and with the patterns of the admin
  site. No route of the project has a converter.
\<close>

datatype url_pattern =
    Path string view string
  | Include string "url_pattern list"
  | AdminUrls string

definition accounts_urls :: "url_pattern list" where
  "accounts_urls =
     [Path ''register/'' RegisterView ''register'',
      Path ''login/'' CustomTokenObtainPairView ''login'',
      Path ''token/refresh/'' TokenRefreshView ''token-refresh'',
      Path ''profile/'' ProfileView ''profile'']"

definition config_urls :: "url_pattern list" where
  "config_urls =
     [AdminUrls ''admin/'',
      Include ''api/v1/auth/'' accounts_urls,
      Path ''api/schema/'' SpectacularAPIView ''schema'',
      Path ''api/docs/'' SpectacularSwaggerView ''swagger-ui'',
      Path ''health/'' HealthCheck ''health'',
      Path ''ready/'' ReadinessCheck ''ready'']"

fun strip_prefix :: "string \<Rightarrow> string \<Rightarrow> string option" where
  "strip_prefix [] s = Some s"
| "strip_prefix (c # cs) [] = None"
| "strip_prefix (c # cs) (d # ds) = (if c = d then strip_prefix cs ds else None)"

text \<open>
  The first pattern that matches decides; \<open>admin\<close> tells which paths the admin site knows
  below its own.
\<close>

fun resolve_pattern :: "(string \<Rightarrow> bool) \<Rightarrow> url_pattern \<Rightarrow> string \<Rightarrow> view option"
and resolve_patterns :: "(string \<Rightarrow> bool) \<Rightarrow> url_pattern list \<Rightarrow> string \<Rightarrow> view option" where
  "resolve_pattern admin (Path r v n) p = (if p = r then Some v else None)"
| "resolve_pattern admin (Include r us) p =
     (case strip_prefix r p of None \<Rightarrow> None | Some p' \<Rightarrow> resolve_patterns admin us p')"
| "resolve_pattern admin (AdminUrls r) p =
     (case strip_prefix r p of None \<Rightarrow> None | Some p' \<Rightarrow> if admin p' then Some (AdminPage p') else None)"
| "resolve_patterns admin [] p = None"
| "resolve_patterns admin (u # us) p =
     (case resolve_pattern admin u p of Some v \<Rightarrow> Some v | None \<Rightarrow> resolve_patterns admin us p)"

text \<open>The path of a request begins with a slash.\<close>

definition resolve :: "(string \<Rightarrow> bool) \<Rightarrow> string \<Rightarrow> view option" where
  "resolve admin path =
     (case path of [] \<Rightarrow> None | c # p \<Rightarrow> if c = CHR ''/'' then resolve_patterns admin config_urls p else None)"

text \<open>\<open>reverse(name)\<close>: the path of a route by its name, the last one first.\<close>

fun reverse_patterns :: "string \<Rightarrow> url_pattern list \<Rightarrow> (string \<times> view) option" where
  "reverse_patterns n [] = None"
| "reverse_patterns n (Path r v n' # us) =
     (case reverse_patterns n us of Some x \<Rightarrow> Some x | None \<Rightarrow> if n = n' then Some (r, v) else None)"
| "reverse_patterns n (Include r vs # us) =
     (case reverse_patterns n us of
        Some x \<Rightarrow> Some x
      | None \<Rightarrow> map_option (\<lambda>(p, v). (r @ p, v)) (reverse_patterns n vs))"
| "reverse_patterns n (AdminUrls r # us) = reverse_patterns n us"

definition reverse_url :: "string \<Rightarrow> (string \<times> view) option" where
  "reverse_url n = map_option (\<lambda>(p, v). (CHR ''/'' # p, v)) (reverse_patterns n config_urls)"

lemma strip_prefix_Some: "strip_prefix r p = Some q \<longleftrightarrow> p = r @ q"
  by (induction r p rule: strip_prefix.induct) auto

section \<open>Tasks\<close>

text \<open>The names under which the modules \<open>tasks\<close> of the applications declare tasks.\<close>

definition declared_tasks :: "string \<Rightarrow> string list" where
  "declared_tasks app =
     (if app = ''checkout'' then [''checkout.sweep_expired_holds'']
      else if app = ''payments'' then [''payments.send_ticket_confirmation_email'', ''payments.release_hold_on_payment_timeout'']
      else [])"

fun installed_apps :: "setting_value option \<Rightarrow> string list" where
  "installed_apps (Some (SList vs)) = concat (map (\<lambda>v. case v of SStr s \<Rightarrow> [s] | _ \<Rightarrow> []) vs)"
| "installed_apps v = []"

text \<open>
  The application of \<open>config/celery.py\<close>: it takes the settings with the prefix \<open>CELERY_\<close>, and
  the tasks of the installed applications.
\<close>

record celery_app =
  celery_setting :: "string \<Rightarrow> setting_value option"
  registered_tasks :: "string list"

definition celery_of :: "namespace \<Rightarrow> celery_app" where
  "celery_of ns =
     \<lparr>celery_setting = (\<lambda>key. ns (''CELERY_'' @ key)),
      registered_tasks = concat (map declared_tasks (installed_apps (ns ''INSTALLED_APPS'')))\<rparr>"

definition celery_app :: "environ \<Rightarrow> celery_app option" where
  "celery_app E = map_option celery_of (load_settings E CeleryApp)"

text \<open>What the beat process starts: the entries of the schedule, by task name.\<close>

definition beat_tasks :: "celery_app \<Rightarrow> string list" where
  "beat_tasks a =
     (case celery_setting a ''BEAT_SCHEDULE'' of
        Some (SDict es) \<Rightarrow>
          concat (map (\<lambda>(n, e). case e of
              SDict kvs \<Rightarrow> (case map_of kvs ''task'' of Some (SStr t) \<Rightarrow> [t] | _ \<Rightarrow> [])
            | _ \<Rightarrow> []) es)
      | _ \<Rightarrow> [])"

section \<open>Properties\<close>

lemma resolve_patterns_config:
  "resolve_patterns admin config_urls p = Some v \<longleftrightarrow>
     (p, v) \<in> {(''api/schema/'', SpectacularAPIView), (''api/docs/'', SpectacularSwaggerView),
       (''health/'', HealthCheck), (''ready/'', ReadinessCheck)}
     \<or> (\<exists>q. p = ''api/v1/auth/'' @ q \<and> resolve_patterns admin accounts_urls q = Some v)
     \<or> (\<exists>q. p = ''admin/'' @ q \<and> admin q \<and> v = AdminPage q)"
  (is "_ = ?R")
proof (cases "strip_prefix ''admin/'' p")
  case (Some q)
  then show ?thesis by (auto simp: strip_prefix_Some config_urls_def)
next
  case None
  then have no_admin: "p \<noteq> ''admin/'' @ q" for q by (metis strip_prefix_Some option.distinct(1))
  show ?thesis
  proof (cases "strip_prefix ''api/v1/auth/'' p")
    case (Some q)
    then show ?thesis by (auto simp: strip_prefix_Some config_urls_def split: option.split)
  next
    case auth: None
    then have "p \<noteq> ''api/v1/auth/'' @ q" for q by (metis strip_prefix_Some option.distinct(1))
    with no_admin None auth show ?thesis by (auto simp: config_urls_def)
  qed
qed

lemma resolve_paths:
  "distinct (map fst rs) \<Longrightarrow>
   resolve_patterns admin (map (\<lambda>(r, v, n). Path r v n) rs) p = Some v \<longleftrightarrow> (\<exists>n. (p, v, n) \<in> set rs)"
  by (induction rs) (force simp: image_iff)+

lemma resolve_patterns_accounts:
  "resolve_patterns admin accounts_urls p = Some v \<longleftrightarrow>
     (p, v) \<in> {(''register/'', RegisterView), (''login/'', CustomTokenObtainPairView),
       (''token/refresh/'', TokenRefreshView), (''profile/'', ProfileView)}"
proof -
  have eq: "accounts_urls = map (\<lambda>(r, v, n). Path r v n)
      [(''register/'', RegisterView, ''register''), (''login/'', CustomTokenObtainPairView, ''login''),
       (''token/refresh/'', TokenRefreshView, ''token-refresh''), (''profile/'', ProfileView, ''profile'')]"
    by (simp add: accounts_urls_def)
  show ?thesis unfolding eq by (subst resolve_paths) (simp_all add: ex_disj_distrib)
qed

text \<open>
  The routes. A request reaches a view exactly at the eight paths of the configuration,
  and the admin site below its own; the view sets of companies, events and tiers are
  reached at none, and nothing of checkout, payments or webhooks is.
\<close>

theorem routes_exact:
  "resolve admin path = Some v \<longleftrightarrow>
     (path, v) \<in> {(''/api/v1/auth/register/'', RegisterView), (''/api/v1/auth/login/'', CustomTokenObtainPairView),
       (''/api/v1/auth/token/refresh/'', TokenRefreshView), (''/api/v1/auth/profile/'', ProfileView),
       (''/api/schema/'', SpectacularAPIView), (''/api/docs/'', SpectacularSwaggerView),
       (''/health/'', HealthCheck), (''/ready/'', ReadinessCheck)}
     \<or> (\<exists>p. path = ''/admin/'' @ p \<and> admin p \<and> v = AdminPage p)"
proof (cases path)
  case Nil
  then show ?thesis by (simp add: resolve_def)
next
  case (Cons c p)
  have under: "(\<exists>q. p = r @ q \<and> (q, v) \<in> S) \<longleftrightarrow> (p, v) \<in> (\<lambda>(q, v). (r @ q, v)) ` S" for r and S :: "(string \<times> view) set"
    by force
  show ?thesis
  proof (cases "c = CHR ''/''")
    case False
    then show ?thesis by (simp add: Cons resolve_def)
  next
    case True
    then have step: "resolve admin path = resolve_patterns admin config_urls p" by (simp add: Cons resolve_def)
    show ?thesis
      unfolding step resolve_patterns_config resolve_patterns_accounts under by (simp add: Cons True disj_ac)
  qed
qed

text \<open>
  A name leads to a path and the path to the view that has the name: for every name that
  \<open>reverse\<close> knows, and it knows the eight.
\<close>

theorem reverse_resolve:
  "(case reverse_url n of
      None \<Rightarrow> n \<notin> {''register'', ''login'', ''token-refresh'', ''profile'', ''schema'', ''swagger-ui'', ''health'', ''ready''}
    | Some (path, v) \<Rightarrow> resolve admin path = Some v)"
  by (simp add: reverse_url_def config_urls_def accounts_urls_def resolve_def)

text \<open>
  C11: The sweep of expired holds is never started. Whatever the environment, the settings
  that the worker and the beat process load have no schedule, so beat starts no task; with
  the settings they load by themselves the sweep is registered and waits for a caller.
\<close>

theorem sweep_never_scheduled:
  assumes "celery_app E = Some a"
  shows "beat_tasks a = []
    \<and> (env_var E ''DJANGO_SETTINGS_MODULE'' \<noteq> None
       \<or> registered_tasks a = [''checkout.sweep_expired_holds'', ''payments.send_ticket_confirmation_email'',
            ''payments.release_hold_on_payment_timeout''])"
proof -
  obtain ns where ns: "load_settings E CeleryApp = Some ns" and a: "a = celery_of ns"
    using assms by (auto simp: celery_app_def)
  have "find_first xs = Some x \<Longrightarrow> Some x \<in> set xs" for xs and x :: namespace
    by (induction xs rule: find_first.induct) auto
  from this [OF ns [unfolded load_settings_def import_settings_def]]
  have "ns \<in> {Map.empty, shadowed_settings E, base_settings E, development_settings E, production_settings E}"
    by (auto simp: settings_package_init_def split: if_splits)
  moreover have "base_settings E ''CELERY_BEAT_SCHEDULE'' = None" "shadowed_settings E ''CELERY_BEAT_SCHEDULE'' = None"
    by (simp_all add: base_settings_def shadowed_settings_def)
  ultimately have "ns ''CELERY_BEAT_SCHEDULE'' = None"
    by (auto simp: development_settings_def production_settings_def)
  then have "beat_tasks a = []" by (simp add: beat_tasks_def a celery_of_def)
  moreover have "registered_tasks a = [''checkout.sweep_expired_holds'', ''payments.send_ticket_confirmation_email'',
            ''payments.release_hold_on_payment_timeout'']" if "env_var E ''DJANGO_SETTINGS_MODULE'' = None"
  proof -
    have "ns ''INSTALLED_APPS'' = Some (SList (map SStr (django_apps @ third_party_apps @ local_apps)))"
      using settings_of_entry [OF that, of CeleryApp] ns blacklist_app_missing [of E] by simp
    moreover have "concat (map declared_tasks (django_apps @ third_party_apps @ local_apps))
        = [''checkout.sweep_expired_holds'', ''payments.send_ticket_confirmation_email'',
           ''payments.release_hold_on_payment_timeout'']"
      by code_simp
    moreover have "installed_apps (Some (SList (map SStr xs))) = xs" for xs
      by (induction xs) simp_all
    ultimately show ?thesis by (simp add: a celery_of_def)
  qed
  ultimately show ?thesis by blast
qed

theorem sweep_never_scheduled_witness:
  "\<exists>a. celery_app empty_environ = Some a \<and> beat_tasks a = []"
proof -
  obtain a where a: "celery_app empty_environ = Some a"
    by (simp add: celery_app_def load_settings_def env_default_def empty_environ_def import_settings_def)
  with sweep_never_scheduled [OF a] show ?thesis by blast
qed

end
