(* ===== verification/Checkin.thy ===== *)
theory Checkin
  imports Sha256 PyJson CacheApi
begin

text \<open>
  \<open>checkin/bloom_guard.py\<close> and \<open>checkin/scan_registry.py\<close>: the Bloom filter in front of the
  scan registry, and the registry, one Redis hash from fingerprint to ticket.
\<close>

section \<open>The Bloom filter\<close>

record bloom_filter =
  bf_size :: nat
  bf_hash_count :: nat
  bf_bits :: "nat list"

definition new_bloom :: "nat \<Rightarrow> nat \<Rightarrow> bloom_filter" where
  "new_bloom n k = \<lparr>bf_size = n, bf_hash_count = k, bf_bits = replicate n 0\<rparr>"

text \<open>\<open>int(digest[:8], 16) % self.size\<close>\<close>

definition bloom_position :: "nat \<Rightarrow> string \<Rightarrow> nat \<Rightarrow> nat" where
  "bloom_position n item i = nat (int_of_hex (take 8 (sha256_hex (show_nat i @ '':'' @ item)))) mod n"

definition bloom_hashes :: "bloom_filter \<Rightarrow> string \<Rightarrow> nat list result" where
  "bloom_hashes b item =
     (if bf_size b = 0 \<and> 0 < bf_hash_count b then Inl ZeroDivisionError
      else Inr (map (bloom_position (bf_size b) item) [0..<bf_hash_count b]))"

definition bloom_add :: "string \<Rightarrow> bloom_filter \<Rightarrow> bloom_filter result" where
  "bloom_add item b =
     (case bloom_hashes b item of
        Inl e \<Rightarrow> Inl e
      | Inr ps \<Rightarrow> Inr (b\<lparr>bf_bits := foldl (\<lambda>bits p. bits[p := 1]) (bf_bits b) ps\<rparr>))"

definition bloom_contains :: "bloom_filter \<Rightarrow> string \<Rightarrow> bool result" where
  "bloom_contains b item =
     (case bloom_hashes b item of
        Inl e \<Rightarrow> Inl e
      | Inr ps \<Rightarrow> Inr (list_all (\<lambda>p. bf_bits b ! p \<noteq> 0) ps))"

text \<open>The filter of the process and its two functions.\<close>

definition scan_bloom :: bloom_filter where
  "scan_bloom = new_bloom 200000 5"

definition might_be_scanned :: "string \<Rightarrow> bloom_filter \<Rightarrow> bool result" where
  "might_be_scanned qr b = bloom_contains b qr"

definition mark_scanned :: "string \<Rightarrow> bloom_filter \<Rightarrow> bloom_filter result" where
  "mark_scanned qr b = bloom_add qr b"

section \<open>The scan registry\<close>

definition registry_key :: string where
  "registry_key = ''checkin_registry''"

definition registry_ttl :: int where
  "registry_ttl = 86400"

definition is_already_checked_in :: "'c cache_api \<Rightarrow> 'c \<Rightarrow> instant \<Rightarrow> string \<Rightarrow> bool" where
  "is_already_checked_in C c now qr = h_exists C c now registry_key qr"

definition register_checkin :: "'c cache_api \<Rightarrow> instant \<Rightarrow> string \<Rightarrow> string \<Rightarrow> 'c \<Rightarrow> 'c" where
  "register_checkin C now qr ticket c =
     k_expire C (h_set C c now registry_key qr ticket) now registry_key registry_ttl"

definition get_ticket_id_for_qr :: "'c cache_api \<Rightarrow> 'c \<Rightarrow> instant \<Rightarrow> string \<Rightarrow> string option" where
  "get_ticket_id_for_qr C c now qr = h_get C c now registry_key qr"

section \<open>What a filter holds\<close>

definition bloom_wf :: "bloom_filter \<Rightarrow> bool" where
  "bloom_wf b \<longleftrightarrow> 0 < bf_size b \<and> length (bf_bits b) = bf_size b"

definition positions :: "bloom_filter \<Rightarrow> string \<Rightarrow> nat set" where
  "positions b item = bloom_position (bf_size b) item ` {0..<bf_hash_count b}"

definition marked :: "bloom_filter \<Rightarrow> nat set" where
  "marked b = {p. p < bf_size b \<and> bf_bits b ! p \<noteq> 0}"

lemma positions_bound: "bloom_wf b \<Longrightarrow> p \<in> positions b item \<Longrightarrow> p < bf_size b"
  by (auto simp: positions_def bloom_position_def bloom_wf_def)

lemma bloom_hashes_wf: "bloom_wf b \<Longrightarrow> \<exists>ps. bloom_hashes b item = Inr ps \<and> set ps = positions b item"
  by (simp add: bloom_hashes_def bloom_wf_def positions_def)

lemma set_bits:
  "(\<And>p. p \<in> set ps \<Longrightarrow> p < length bits) \<Longrightarrow> q < length bits \<Longrightarrow>
   foldl (\<lambda>bits p. bits[p := x]) bits ps ! q = (if q \<in> set ps then x else bits ! q)"
  by (induction ps arbitrary: bits) (auto simp: nth_list_update)

lemma length_set_bits: "length (foldl (\<lambda>bits p. bits[p := x]) bits ps) = length bits"
  by (induction ps arbitrary: bits) auto

lemma bloom_add_wf:
  assumes "bloom_wf b"
  obtains b' where "bloom_add item b = Inr b'" and "bloom_wf b'" and "bf_size b' = bf_size b"
    and "bf_hash_count b' = bf_hash_count b" and "marked b' = marked b \<union> positions b item"
proof -
  obtain ps where ps: "bloom_hashes b item = Inr ps" "set ps = positions b item"
    using bloom_hashes_wf [OF assms] by blast
  let ?b = "b\<lparr>bf_bits := foldl (\<lambda>bits p. bits[p := 1]) (bf_bits b) ps\<rparr>"
  have lt: "\<And>p. p \<in> set ps \<Longrightarrow> p < length (bf_bits b)"
    using positions_bound [OF assms] ps(2) assms by (auto simp: bloom_wf_def)
  have "bloom_wf ?b" using assms by (simp add: bloom_wf_def length_set_bits)
  moreover have "bf_bits ?b ! q = (if q \<in> positions b item then 1 else bf_bits b ! q)" if "q < bf_size b" for q
    using set_bits [of ps "bf_bits b" q 1] lt that assms ps(2) by (simp add: bloom_wf_def)
  then have "marked ?b = marked b \<union> positions b item"
    using positions_bound [OF assms] by (auto simp: marked_def split: if_splits)
  ultimately show ?thesis using ps(1) by (intro that [of ?b]) (simp_all add: bloom_add_def)
qed

lemma bloom_contains_iff:
  "bloom_wf b \<Longrightarrow> bloom_contains b item = Inr (positions b item \<subseteq> marked b)"
  using bloom_hashes_wf [of b item] positions_bound [of b _ item]
  by (auto simp: bloom_contains_def marked_def list_all_iff)

lemma positions_cong:
  "bf_size b = bf_size b' \<Longrightarrow> bf_hash_count b = bf_hash_count b' \<Longrightarrow> positions b = positions b'"
  by (simp add: positions_def fun_eq_iff)

fun mark_all :: "string list \<Rightarrow> bloom_filter \<Rightarrow> bloom_filter result" where
  "mark_all [] b = Inr b"
| "mark_all (qr # qrs) b =
     (case mark_scanned qr b of Inl e \<Rightarrow> Inl e | Inr b' \<Rightarrow> mark_all qrs b')"

lemma mark_all_wf:
  assumes "bloom_wf b"
  shows "\<exists>b'. mark_all qrs b = Inr b' \<and> bloom_wf b' \<and> positions b' = positions b
    \<and> marked b' = marked b \<union> (\<Union>qr\<in>set qrs. positions b qr)"
  using assms
proof (induction qrs arbitrary: b)
  case Nil
  then show ?case by simp
next
  case (Cons qr qrs)
  then show ?case
  proof (rule_tac bloom_add_wf [of b qr])
    show "bloom_wf b" by (rule Cons.prems)
    fix b1
    assume b1: "bloom_add qr b = Inr b1" "bloom_wf b1" "bf_size b1 = bf_size b"
      "bf_hash_count b1 = bf_hash_count b" "marked b1 = marked b \<union> positions b qr"
    then have "positions b1 = positions b" by (intro positions_cong)
    with Cons.IH [OF b1(2)] b1 show ?thesis by (auto simp: mark_scanned_def)
  qed
qed

lemma new_bloom_wf: "0 < n \<Longrightarrow> bloom_wf (new_bloom n k)" and marked_new_bloom: "marked (new_bloom n k) = {}"
  by (simp_all add: bloom_wf_def new_bloom_def marked_def)

section \<open>The registry over time\<close>

context redis_hash
begin

lemma hget_registered:
  "t \<le> t' \<Longrightarrow> get_ticket_id_for_qr C (register_checkin C t qr ticket c) t' qr' =
     (if t + usecs registry_ttl \<le> t' then None
      else if qr' = qr then Some ticket else get_ticket_id_for_qr C c t qr')"
  by (auto simp: get_ticket_id_for_qr_def register_checkin_def registry_ttl_def hget_expire_dead
      hget_expire_live hget_hset not_le)

lemma checked_in_iff: "is_already_checked_in C c t qr \<longleftrightarrow> get_ticket_id_for_qr C c t qr \<noteq> None"
  by (simp add: is_already_checked_in_def get_ticket_id_for_qr_def exists_get)

end

section \<open>Properties\<close>

text \<open>
  C29: What the filter of the process answers, exactly: after marking any scans it says
  ``might be scanned'' just for the fingerprints all of whose five positions were set by
  some of them. In particular every marked fingerprint is recognised (no false negatives),
  and no call ever fails.
\<close>

theorem bloom_exact:
  "\<exists>b. mark_all qrs scan_bloom = Inr b
    \<and> might_be_scanned x b = Inr (positions scan_bloom x \<subseteq> (\<Union>qr\<in>set qrs. positions scan_bloom qr))
    \<and> (x \<in> set qrs \<longrightarrow> might_be_scanned x b = Inr True)"
proof -
  have "bloom_wf scan_bloom" by (simp add: scan_bloom_def new_bloom_wf)
  from mark_all_wf [OF this, of qrs] obtain b where
    "mark_all qrs scan_bloom = Inr b" "bloom_wf b" "positions b = positions scan_bloom"
    "marked b = (\<Union>qr\<in>set qrs. positions scan_bloom qr)"
    by (auto simp: scan_bloom_def marked_new_bloom)
  then show ?thesis by (auto simp: might_be_scanned_def bloom_contains_iff)
qed

theorem bloom_exact_witness:
  "\<exists>b. mark_all [''a'', ''b''] scan_bloom = Inr b \<and> might_be_scanned ''a'' b = Inr True"
  using bloom_exact [of "[''a'', ''b'']" "''a''"] by (auto simp del: mark_all.simps)

text \<open>
  C30: A fingerprint registered at the gate is found, with its ticket, for 24 hours after the
  latest registration of any ticket; from then on every fingerprint is forgotten, also those
  scanned before, and each could be scanned once more.
\<close>

theorem scan_registry_window:
  assumes "redis_hash C" and "t \<le> t'"
  shows "is_already_checked_in C (register_checkin C t qr ticket c) t' qr' =
      (t' < t + 86400000000 \<and> (qr' = qr \<or> is_already_checked_in C c t qr'))
    \<and> get_ticket_id_for_qr C (register_checkin C t qr ticket c) t' qr' =
      (if t + 86400000000 \<le> t' then None
       else if qr' = qr then Some ticket else get_ticket_id_for_qr C c t qr')"
  using redis_hash.hget_registered [OF assms] redis_hash.checked_in_iff [OF assms(1)]
  by (auto simp: registry_ttl_def)

theorem scan_registry_window_witness:
  "is_already_checked_in ttl_api (register_checkin ttl_api 0 ''f'' ''t'' ttl_empty) 86399999999 ''f''
    \<and> \<not> is_already_checked_in ttl_api (register_checkin ttl_api 0 ''f'' ''t'' ttl_empty) 86400000000 ''f''"
  using scan_registry_window [OF ttl.redis_hash_axioms, of 0 86399999999 "''f''" "''t''" ttl_empty "''f''"]
    scan_registry_window [OF ttl.redis_hash_axioms, of 0 86400000000 "''f''" "''t''" ttl_empty "''f''"]
  by simp

end
