(* ===== verification/RateLimiter.thy ===== *)
theory RateLimiter
  imports CacheApi
begin

text \<open>
  \<open>core/rate_limiter.py\<close>: a counter per identifier that the cache forgets when its window
  is over. \<open>t0\<close> and \<open>t1\<close> are the instants of the read and of the write.
\<close>

record rate_limiter =
  rl_scope :: string
  rl_limit :: int
  rl_window :: int

definition rate_key :: "rate_limiter \<Rightarrow> string \<Rightarrow> string" where
  "rate_key L ident = ''rate:'' @ rl_scope L @ '':'' @ ident"

text \<open>\<open>cache.get(key, 0)\<close>, used as a number.\<close>

definition rate_count :: "'c cache_api \<Rightarrow> rate_limiter \<Rightarrow> 'c \<Rightarrow> instant \<Rightarrow> string \<Rightarrow> int result" where
  "rate_count C L c t ident =
     (case c_get C c t (rate_key L ident) of
        None \<Rightarrow> Inr 0
      | Some (CInt n) \<Rightarrow> Inr n
      | Some _ \<Rightarrow> Inl TypeError)"

definition is_allowed ::
  "'c cache_api \<Rightarrow> rate_limiter \<Rightarrow> instant \<Rightarrow> instant \<Rightarrow> string \<Rightarrow> 'c \<Rightarrow> (bool \<times> int) result \<times> 'c" where
  "is_allowed C L t0 t1 ident c =
     (case rate_count C L c t0 ident of
        Inl e \<Rightarrow> (Inl e, c)
      | Inr count \<Rightarrow>
          if rl_limit L \<le> count then (Inr (False, count), c)
          else if count = 0
          then (Inr (True, 1), c_set C c t1 (rate_key L ident) (CInt 1) (rl_window L))
          else (case c_incr C c t1 (rate_key L ident) of
                  (Inl e, c') \<Rightarrow> (Inl e, c')
                | (Inr n, c') \<Rightarrow> (Inr (True, n), c')))"

definition rate_remaining :: "'c cache_api \<Rightarrow> rate_limiter \<Rightarrow> 'c \<Rightarrow> instant \<Rightarrow> string \<Rightarrow> int result" where
  "rate_remaining C L c t ident = map_sum id (\<lambda>count. max 0 (rl_limit L - count)) (rate_count C L c t ident)"

definition checkout_limiter :: rate_limiter where
  "checkout_limiter = \<lparr>rl_scope = ''checkout'', rl_limit = 10, rl_window = 60\<rparr>"

definition login_limiter :: rate_limiter where
  "login_limiter = \<lparr>rl_scope = ''login'', rl_limit = 5, rl_window = 300\<rparr>"

section \<open>A window\<close>

text \<open>Calls made one after the other, each at one instant.\<close>

fun rate_run ::
  "'c cache_api \<Rightarrow> rate_limiter \<Rightarrow> string \<Rightarrow> instant list \<Rightarrow> 'c \<Rightarrow> (bool \<times> int) result list \<times> 'c" where
  "rate_run C L ident [] c = ([], c)"
| "rate_run C L ident (t # ts) c =
     (case is_allowed C L t t ident c of
        (r, c') \<Rightarrow> (case rate_run C L ident ts c' of (rs, c'') \<Rightarrow> (r # rs, c'')))"

text \<open>What the \<open>i\<close>-th call of a window, counted from 0, is told.\<close>

definition window_answer :: "rate_limiter \<Rightarrow> nat \<Rightarrow> (bool \<times> int) result" where
  "window_answer L i = (if int i < rl_limit L then Inr (True, int i + 1) else Inr (False, rl_limit L))"

text \<open>The counter reads \<open>m\<close> from \<open>t\<close> up to the end \<open>e\<close> of its window.\<close>

definition counter_at :: "'c cache_api \<Rightarrow> rate_limiter \<Rightarrow> string \<Rightarrow> 'c \<Rightarrow> instant \<Rightarrow> instant \<Rightarrow> int \<Rightarrow> bool" where
  "counter_at C L ident c t e m \<longleftrightarrow>
     (\<forall>t'\<ge>t. c_get C c t' (rate_key L ident) = (if t' < e then Some (CInt m) else None))"

context django_cache
begin

lemma counter_first:
  assumes "c_get C c t (rate_key L ident) = None" and "0 < rl_limit L" and "0 < rl_window L"
  shows "fst (is_allowed C L t t ident c) = window_answer L 0"
    and "counter_at C L ident (snd (is_allowed C L t t ident c)) t (t + usecs (rl_window L)) 1"
  using assms
  by (auto simp: is_allowed_def rate_count_def window_answer_def counter_at_def get_set_live get_set_dead not_less)

lemma counter_next:
  assumes "counter_at C L ident c t e (int m)" and "0 < m" and "int m \<le> rl_limit L" and "t \<le> t'" and "t' < e"
  shows "fst (is_allowed C L t' t' ident c) = window_answer L m"
    and "counter_at C L ident (snd (is_allowed C L t' t' ident c)) t' e (min (rl_limit L) (int m + 1))"
proof -
  let ?k = "rate_key L ident"
  have get: "c_get C c t'' ?k = (if t'' < e then Some (CInt (int m)) else None)" if "t' \<le> t''" for t''
    using assms(1,4) that by (auto simp: counter_at_def)
  then have now: "c_get C c t' ?k = Some (CInt (int m))" using assms(5) by simp
  obtain r c' where incr: "c_incr C c t' ?k = (r, c')" by fastforce
  with incr_value [OF now] have r: "r = Inr (int m + 1)" by simp
  show "fst (is_allowed C L t' t' ident c) = window_answer L m"
    using now assms(2,3) by (auto simp: is_allowed_def rate_count_def window_answer_def incr r)
  show "counter_at C L ident (snd (is_allowed C L t' t' ident c)) t' e (min (rl_limit L) (int m + 1))"
  proof (cases "int m = rl_limit L")
    case True
    then show ?thesis using get now by (simp add: is_allowed_def rate_count_def counter_at_def)
  next
    case False
    then show ?thesis
      using get now get_incr_same [OF now] incr r assms(2,3)
      by (auto simp: is_allowed_def rate_count_def counter_at_def)
  qed
qed

lemma counter_step:
  assumes "counter_at C L ident c t e (min (rl_limit L) (int m))" and "0 < m" and "0 < rl_limit L"
    and "t \<le> t'" and "t' < e"
  shows "fst (is_allowed C L t' t' ident c) = window_answer L m"
    and "counter_at C L ident (snd (is_allowed C L t' t' ident c)) t' e (min (rl_limit L) (int (Suc m)))"
proof -
  define n where "n = nat (min (rl_limit L) (int m))"
  have n: "int n = min (rl_limit L) (int m)" "0 < n" "int n \<le> rl_limit L"
    using assms(2,3) by (auto simp: n_def)
  with counter_next [of L ident c t e n t'] assms(1,4,5)
  have "fst (is_allowed C L t' t' ident c) = window_answer L n"
    "counter_at C L ident (snd (is_allowed C L t' t' ident c)) t' e (min (rl_limit L) (int n + 1))"
    by simp_all
  moreover have "window_answer L n = window_answer L m"
    using n by (auto simp: window_answer_def min_def split: if_splits)
  moreover have "min (rl_limit L) (int n + 1) = min (rl_limit L) (int (Suc m))"
    using n(1) by (auto simp: min_def split: if_splits)
  ultimately show "fst (is_allowed C L t' t' ident c) = window_answer L m"
    "counter_at C L ident (snd (is_allowed C L t' t' ident c)) t' e (min (rl_limit L) (int (Suc m)))"
    by simp_all
qed

lemma rate_run_counter:
  assumes "counter_at C L ident c t e (min (rl_limit L) (int m))" and "0 < m" and "0 < rl_limit L"
    and "sorted (t # ts)" and "\<forall>t'\<in>set ts. t' < e"
  shows "fst (rate_run C L ident ts c) = map (window_answer L) [m..<m + length ts]
    \<and> (\<exists>t'. (t' = t \<or> t' \<in> set ts) \<and> counter_at C L ident (snd (rate_run C L ident ts c)) t' e
        (min (rl_limit L) (int (m + length ts))))"
  using assms
proof (induction ts arbitrary: c t m)
  case Nil
  then show ?case by auto
next
  case (Cons t' ts)
  let ?c = "snd (is_allowed C L t' t' ident c)"
  have "t \<le> t'" "t' < e" using Cons.prems(4,5) by simp_all
  note step = counter_step [OF Cons.prems(1-3) this]
  have rest: "fst (rate_run C L ident ts ?c) = map (window_answer L) [Suc m..<Suc m + length ts]
    \<and> (\<exists>u. (u = t' \<or> u \<in> set ts) \<and> counter_at C L ident (snd (rate_run C L ident ts ?c)) u e
        (min (rl_limit L) (int (Suc m + length ts))))"
    using step(2) Cons.prems(3-5) by (intro Cons.IH) simp_all
  have "[m..<m + length (t' # ts)] = m # [Suc m..<Suc m + length ts]"
    by (simp add: upt_conv_Cons del: upt_Suc)
  with rest step(1) show ?case by (auto simp: case_prod_unfold simp del: upt_Suc)
qed

lemma rate_window:
  assumes "c_get C c t (rate_key L ident) = None" and "0 < rl_limit L" and "0 < rl_window L"
    and "sorted (t # ts)" and "\<forall>t'\<in>set ts. t' < t + usecs (rl_window L)"
  shows "fst (rate_run C L ident (t # ts) c) = map (window_answer L) [0..<Suc (length ts)]"
    and "t + usecs (rl_window L) \<le> u \<Longrightarrow>
      c_get C (snd (rate_run C L ident (t # ts) c)) u (rate_key L ident) = None"
proof -
  let ?c = "snd (is_allowed C L t t ident c)"
  have c: "counter_at C L ident ?c t (t + usecs (rl_window L)) (min (rl_limit L) (int 1))"
  proof -
    have "min (rl_limit L) (int 1) = 1" using assms(2) by simp
    then show ?thesis using counter_first(2) [OF assms(1-3)] by (simp only:)
  qed
  have run: "fst (rate_run C L ident ts ?c) = map (window_answer L) [1..<Suc (length ts)]
    \<and> (\<exists>t'. (t' = t \<or> t' \<in> set ts) \<and> counter_at C L ident (snd (rate_run C L ident ts ?c)) t'
        (t + usecs (rl_window L)) (min (rl_limit L) (int (1 + length ts))))"
    using rate_run_counter [OF c _ assms(2,4,5)] by (simp del: upt_Suc)
  show "fst (rate_run C L ident (t # ts) c) = map (window_answer L) [0..<Suc (length ts)]"
    using run counter_first(1) [OF assms(1-3)]
    by (simp add: case_prod_unfold upt_conv_Cons del: upt_Suc)
  obtain t' where t': "t' = t \<or> t' \<in> set ts"
    "counter_at C L ident (snd (rate_run C L ident ts ?c)) t' (t + usecs (rl_window L))
      (min (rl_limit L) (1 + int (length ts)))"
    using run by auto
  then have "t' \<le> t + usecs (rl_window L)" using assms(3,5) by (auto intro: less_imp_le)
  then show "t + usecs (rl_window L) \<le> u \<Longrightarrow>
      c_get C (snd (rate_run C L ident (t # ts) c)) u (rate_key L ident) = None"
    using t'(2) by (simp add: case_prod_unfold counter_at_def)
qed

end

lemma rate_run_append:
  "rate_run C L ident (ts @ us) c =
     (let (rs, c') = rate_run C L ident ts c; (ss, c'') = rate_run C L ident us c' in (rs @ ss, c''))"
  by (induction ts arbitrary: c) (simp_all add: case_prod_unfold Let_def)

section \<open>Properties\<close>

text \<open>
  C31: Within one window, opened by the first call, exactly the first \<open>limit\<close> calls are
  allowed; the \<open>i\<close>-th of them is told the count \<open>i\<close>, every later one is refused with the
  count at the limit.
\<close>

theorem rate_limit_window:
  assumes "django_cache C" and "c_get C c t (rate_key L ident) = None"
    and "0 < rl_limit L" and "0 < rl_window L"
    and "sorted (t # ts)" and "\<forall>t'\<in>set ts. t' < t + usecs (rl_window L)"
  shows "fst (rate_run C L ident (t # ts) c) =
    map (\<lambda>i. if int i < rl_limit L then Inr (True, int i + 1) else Inr (False, rl_limit L))
      [0..<Suc (length ts)]"
  using django_cache.rate_window(1) [OF assms] by (simp add: window_answer_def [abs_def])

theorem rate_limit_window_witness:
  "fst (rate_run ttl_api \<lparr>rl_scope = ''s'', rl_limit = 2, rl_window = 60\<rparr> ''ip'' [0, 1, 2] ttl_empty)
     = [Inr (True, 1), Inr (True, 2), Inr (False, 2)]"
  using rate_limit_window [OF ttl.django_cache_axioms, of ttl_empty 0
      "\<lparr>rl_scope = ''s'', rl_limit = 2, rl_window = 60\<rparr>" "''ip''" "[1, 2]"]
  by (simp add: upt_rec del: rate_run.simps)

text \<open>
  C32: The window is fixed, it does not slide. With one call at its start, the other calls of
  the limit just before its end and as many as the limit right at its end, twice the limit
  is allowed, all but one of the calls within a microsecond.
\<close>

theorem rate_limit_boundary_burst:
  assumes "django_cache C" and "c_get C c t (rate_key L ident) = None"
    and "0 < rl_limit L" and "0 < rl_window L"
  shows "let end = t + usecs (rl_window L); n = nat (rl_limit L);
      calls = t # replicate (n - 1) (end - 1) @ replicate n end
    in length calls = 2 * n
      \<and> list_all (\<lambda>r. \<exists>k. r = Inr (True, k)) (fst (rate_run C L ident calls c))"
proof -
  define e n where "e = t + usecs (rl_window L)" and "n = nat (rl_limit L)"
  have n: "0 < n" "int n = rl_limit L" using assms(3) by (simp_all add: n_def)
  have e: "t \<le> e - 1" "t < e" using assms(4) by (simp_all add: e_def)
  have sorted_rep: "sorted (x # replicate m y)" if "x \<le> y" for x y :: int and m
    using that by (induction m) auto
  let ?first = "rate_run C L ident (t # replicate (n - 1) (e - 1)) c"
  have ok: "list_all (\<lambda>r. \<exists>k. r = Inr (True, k)) (map (window_answer L) [0..<m])" if "m \<le> n" for m
    using that n by (auto simp: list_all_iff window_answer_def)
  have first: "fst ?first = map (window_answer L) [0..<Suc (n - 1)]"
    using django_cache.rate_window(1) [OF assms sorted_rep [OF e(1), of "n - 1"]] e
    by (simp add: e_def del: rate_run.simps)
  have empty: "c_get C (snd ?first) e (rate_key L ident) = None"
    using django_cache.rate_window(2) [OF assms sorted_rep [OF e(1), of "n - 1"], of e] e
    by (simp add: e_def del: rate_run.simps)
  have "replicate n e = e # replicate (n - 1) e" using n(1) by (cases n) simp_all
  then have second: "fst (rate_run C L ident (replicate n e) (snd ?first)) = map (window_answer L) [0..<Suc (n - 1)]"
    using django_cache.rate_window(1) [OF assms(1) empty assms(3,4) sorted_rep [of e e "n - 1"]] assms(4)
    by (simp del: rate_run.simps)
  have "list_all (\<lambda>r. \<exists>k. r = Inr (True, k))
      (fst (rate_run C L ident ((t # replicate (n - 1) (e - 1)) @ replicate n e) c))"
    using first second ok [of "Suc (n - 1)"] n(1)
    by (simp add: rate_run_append case_prod_unfold Let_def del: rate_run.simps upt_Suc append_Cons)
  moreover have "length (t # replicate (n - 1) (e - 1) @ replicate n e) = 2 * n" using n(1) by simp
  ultimately show ?thesis by (simp add: e_def n_def Let_def del: rate_run.simps)
qed

theorem rate_limit_boundary_burst_witness:
  "list_all (\<lambda>r. \<exists>k. r = Inr (True, k))
     (fst (rate_run ttl_api checkout_limiter ''ip''
        (0 # replicate 9 59999999 @ replicate 10 60000000) ttl_empty))"
  using rate_limit_boundary_burst [OF ttl.django_cache_axioms, of ttl_empty 0 checkout_limiter "''ip''"]
  by (simp add: checkout_limiter_def Let_def del: rate_run.simps)

end
