(* ===== verification/RateRaces.thy ===== *)
theory RateRaces
  imports RateLimiter
begin

text \<open>
  \<open>RateLimiter.is_allowed\<close> under concurrency: the read of the counter and the write that
  follows it are two commands to Redis, and calls of other workers come between. The calls
  are those of one identifier.
\<close>

section \<open>Calls in progress\<close>

datatype rate_call = CallIdle | CountRead int | CallDone "(bool \<times> int) result"

datatype rate_op = ReadCount nat instant | WriteCount nat instant

type_synonym 'c rate_state = "'c \<times> (nat \<Rightarrow> rate_call)"

text \<open>One command of one call; a call whose count is over the limit ends with its read.\<close>

fun rate_do :: "'c cache_api \<Rightarrow> rate_limiter \<Rightarrow> string \<Rightarrow> rate_op \<Rightarrow> 'c rate_state \<Rightarrow> 'c rate_state" where
  "rate_do C L ident (ReadCount p t) (c, f) =
     (if f p \<noteq> CallIdle then (c, f)
      else case rate_count C L c t ident of
             Inl e \<Rightarrow> (c, f(p := CallDone (Inl e)))
           | Inr count \<Rightarrow>
               (c, f(p := if rl_limit L \<le> count then CallDone (Inr (False, count)) else CountRead count)))"
| "rate_do C L ident (WriteCount p t) (c, f) =
     (case f p of
        CountRead count \<Rightarrow>
          if count = 0
          then (c_set C c t (rate_key L ident) (CInt 1) (rl_window L), f(p := CallDone (Inr (True, 1))))
          else (case c_incr C c t (rate_key L ident) of
                  (Inl e, c') \<Rightarrow> (c', f(p := CallDone (Inl e)))
                | (Inr n, c') \<Rightarrow> (c', f(p := CallDone (Inr (True, n)))))
      | _ \<Rightarrow> (c, f))"

definition rate_steps :: "'c cache_api \<Rightarrow> rate_limiter \<Rightarrow> string \<Rightarrow> rate_op list \<Rightarrow> 'c rate_state \<Rightarrow> 'c rate_state" where
  "rate_steps C L ident ops s = foldl (\<lambda>s op. rate_do C L ident op s) s ops"

text \<open>All of \<open>n\<close> calls read at \<open>t\<close>, then all write.\<close>

definition read_all :: "nat \<Rightarrow> instant \<Rightarrow> rate_op list" where
  "read_all n t = map (\<lambda>p. ReadCount p t) [0..<n]"

definition write_all :: "nat \<Rightarrow> instant \<Rightarrow> rate_op list" where
  "write_all n t = map (\<lambda>p. WriteCount p t) [0..<n]"

lemma rate_steps_append [simp]:
  "rate_steps C L ident (ops @ ops') s = rate_steps C L ident ops' (rate_steps C L ident ops s)"
  by (simp add: rate_steps_def)

lemma rate_steps_simps [simp]:
  "rate_steps C L ident [] s = s"
  "rate_steps C L ident (op # ops) s = rate_steps C L ident ops (rate_do C L ident op s)"
  by (simp_all add: rate_steps_def)

lemma read_all_Suc: "read_all (Suc n) t = read_all n t @ [ReadCount n t]"
  by (simp add: read_all_def)

lemma write_all_Suc: "write_all (Suc n) t = write_all n t @ [WriteCount n t]"
  by (simp add: write_all_def)

lemma rate_steps_read_all:
  assumes "rate_count C L c t ident = Inr m" and "m < rl_limit L"
  shows "rate_steps C L ident (read_all n t) (c, \<lambda>_. CallIdle) = (c, \<lambda>p. if p < n then CountRead m else CallIdle)"
proof (induction n)
  case 0
  then show ?case by (simp add: read_all_def)
next
  case (Suc n)
  then show ?case using assms by (auto simp: read_all_Suc fun_eq_iff)
qed

lemma rate_steps_write_all:
  "j \<le> n \<Longrightarrow> \<exists>c'. rate_steps C L ident (write_all j t) (c, \<lambda>p. if p < n then CountRead 0 else CallIdle)
      = (c', \<lambda>p. if p < j then CallDone (Inr (True, 1)) else if p < n then CountRead 0 else CallIdle)
    \<and> (j = 0 \<or> (\<exists>c0. c' = c_set C c0 t (rate_key L ident) (CInt 1) (rl_window L)))"
proof (induction j)
  case 0
  then show ?case by (simp add: write_all_def)
next
  case (Suc j)
  then show ?case by (auto simp: write_all_Suc fun_eq_iff)
qed

text \<open>A call that no other comes between is \<open>is_allowed\<close>, on every branch.\<close>

lemma rate_call_alone:
  "rate_steps C L ident [ReadCount p t0, WriteCount p t1] (c, \<lambda>_. CallIdle)
     = (snd (is_allowed C L t0 t1 ident c), (\<lambda>_. CallIdle)(p := CallDone (fst (is_allowed C L t0 t1 ident c))))"
  by (auto simp: is_allowed_def split: sum.split prod.split)

section \<open>Properties\<close>

text \<open>
  C33: Calls that all read before the first of them writes are all let through, however many
  they are and however low the limit is, each with a count of 1; and afterwards the counter
  stands at 1, as if there had been one call.
\<close>

theorem concurrent_calls_all_allowed:
  assumes "django_cache C" and "c_get C c t (rate_key L ident) = None" and "0 < rl_limit L" and "0 < rl_window L"
    and "0 < n"
  shows "\<exists>c'. rate_steps C L ident (read_all n t @ write_all n t') (c, \<lambda>_. CallIdle)
        = (c', \<lambda>p. if p < n then CallDone (Inr (True, 1)) else CallIdle)
      \<and> counter_at C L ident c' t' (t' + usecs (rl_window L)) 1"
proof -
  have count: "rate_count C L c t ident = Inr 0" using assms(2) by (simp add: rate_count_def)
  obtain c0 where "rate_steps C L ident (write_all n t') (c, \<lambda>p. if p < n then CountRead 0 else CallIdle)
        = (c_set C c0 t' (rate_key L ident) (CInt 1) (rl_window L),
           \<lambda>p. if p < n then CallDone (Inr (True, 1)) else if p < n then CountRead 0 else CallIdle)"
    using rate_steps_write_all [of n n C L ident t' c] assms(5) by auto
  moreover have "counter_at C L ident (c_set C c0 t' (rate_key L ident) (CInt 1) (rl_window L)) t'
      (t' + usecs (rl_window L)) 1"
    using django_cache.get_set_live [OF assms(1)] django_cache.get_set_dead [OF assms(1)] assms(4)
    by (simp add: counter_at_def)
  ultimately show ?thesis
    using rate_steps_read_all [OF count assms(3), of n] by (auto simp: if_distrib fun_eq_iff intro!: exI)
qed

text \<open>Eleven logins at once, where five are the limit.\<close>

theorem concurrent_calls_all_allowed_witness:
  "snd (rate_steps ttl_api login_limiter ''ip'' (read_all 11 0 @ write_all 11 1) (ttl_empty, \<lambda>_. CallIdle)) 10
     = CallDone (Inr (True, 1))"
  using concurrent_calls_all_allowed [OF ttl.django_cache_axioms, of ttl_empty 0 login_limiter "''ip''" 11 1]
  by (auto simp: login_limiter_def)

end
