(* ===== verification/LruCache.thy ===== *)
theory LruCache
  imports Prelude
begin

text \<open>
  \<open>events/lru_cache.py\<close>: the least-recently-used cache. The \<open>OrderedDict\<close> is the list of its
  items, oldest first; the lock makes every method one step. A cached value of \<open>None\<close> would
  not be told from a miss, so values here are those of the code, dictionaries.
\<close>

section \<open>The cache\<close>

record 'v lru_cache =
  lru_capacity :: int
  lru_items :: "(string \<times> 'v) list"

definition new_lru :: "int \<Rightarrow> 'v lru_cache" where
  "new_lru cap = \<lparr>lru_capacity = cap, lru_items = []\<rparr>"

text \<open>\<open>move_to_end\<close>, for a key that is there.\<close>

definition move_to_end :: "string \<Rightarrow> (string \<times> 'v) list \<Rightarrow> (string \<times> 'v) list" where
  "move_to_end k items = filter (\<lambda>p. fst p \<noteq> k) items @ filter (\<lambda>p. fst p = k) items"

text \<open>\<open>d[k] = v\<close>: an existing key keeps its place, a new one goes to the end.\<close>

fun dict_assign :: "string \<Rightarrow> 'v \<Rightarrow> (string \<times> 'v) list \<Rightarrow> (string \<times> 'v) list" where
  "dict_assign k v [] = [(k, v)]"
| "dict_assign k v (p # ps) = (if fst p = k then (k, v) # ps else p # dict_assign k v ps)"

definition lru_get :: "string \<Rightarrow> 'v lru_cache \<Rightarrow> 'v option \<times> 'v lru_cache" where
  "lru_get k c =
     (if k \<notin> fst ` set (lru_items c) then (None, c)
      else (let items = move_to_end k (lru_items c)
            in (map_of items k, c\<lparr>lru_items := items\<rparr>)))"

definition lru_set :: "string \<Rightarrow> 'v \<Rightarrow> 'v lru_cache \<Rightarrow> 'v lru_cache" where
  "lru_set k v c =
     (let items = (if k \<in> fst ` set (lru_items c) then move_to_end k (lru_items c) else lru_items c);
          items = dict_assign k v items
      in c\<lparr>lru_items := if lru_capacity c < int (length items) then tl items else items\<rparr>)"

definition lru_invalidate :: "string \<Rightarrow> 'v lru_cache \<Rightarrow> 'v lru_cache" where
  "lru_invalidate k c = c\<lparr>lru_items := filter (\<lambda>p. fst p \<noteq> k) (lru_items c)\<rparr>"

definition lru_len :: "'v lru_cache \<Rightarrow> nat" where
  "lru_len c = length (lru_items c)"

text \<open>The singleton of the process and its functions.\<close>

definition event_cache :: "'v lru_cache" where
  "event_cache = new_lru 256"

definition get_cached_event :: "string \<Rightarrow> 'v lru_cache \<Rightarrow> 'v option \<times> 'v lru_cache" where
  "get_cached_event event_id c = lru_get event_id c"

definition cache_event :: "string \<Rightarrow> 'v \<Rightarrow> 'v lru_cache \<Rightarrow> 'v lru_cache" where
  "cache_event event_id data c = lru_set event_id data c"

definition invalidate_event :: "string \<Rightarrow> 'v lru_cache \<Rightarrow> 'v lru_cache" where
  "invalidate_event event_id c = lru_invalidate event_id c"

section \<open>Sequences of calls\<close>

datatype 'v lru_op = LruGet string | LruSet string 'v | LruInvalidate string

fun lru_step :: "'v lru_op \<Rightarrow> 'v lru_cache \<Rightarrow> 'v lru_cache" where
  "lru_step (LruGet k) c = snd (get_cached_event k c)"
| "lru_step (LruSet k v) c = cache_event k v c"
| "lru_step (LruInvalidate k) c = invalidate_event k c"

definition lru_run :: "'v lru_op list \<Rightarrow> 'v lru_cache \<Rightarrow> 'v lru_cache" where
  "lru_run ops c = foldl (\<lambda>c op. lru_step op c) c ops"

fun touched :: "'v lru_op \<Rightarrow> string set" where
  "touched (LruGet k) = {k}"
| "touched (LruSet k v) = {k}"
| "touched (LruInvalidate k) = {}"

fun keeps :: "string \<Rightarrow> 'v lru_op \<Rightarrow> bool" where
  "keeps k (LruGet k') = True"
| "keeps k (LruSet k' v) = (k' \<noteq> k)"
| "keeps k (LruInvalidate k') = (k' \<noteq> k)"

section \<open>Well-formed caches\<close>

definition lru_wf :: "'v lru_cache \<Rightarrow> bool" where
  "lru_wf c \<longleftrightarrow> 0 < lru_capacity c \<and> distinct (map fst (lru_items c))
     \<and> int (length (lru_items c)) \<le> lru_capacity c"

definition lru_peek :: "'v lru_cache \<Rightarrow> string \<Rightarrow> 'v option" where
  "lru_peek c k = map_of (lru_items c) k"

lemma filter_fst_singleton:
  "distinct (map fst ps) \<Longrightarrow> (k, v) \<in> set ps \<Longrightarrow> filter (\<lambda>p. fst p = k) ps = [(k, v)]"
  using filter_key_singleton [of fst ps "(k, v)" k] by simp

lemma dict_assign_new: "k \<notin> fst ` set ps \<Longrightarrow> dict_assign k v ps = ps @ [(k, v)]"
  by (induction ps) auto

lemma map_of_filter_key: "map_of (filter (\<lambda>p. fst p \<noteq> k) ps) k' = (if k' = k then None else map_of ps k')"
  by (induction ps) auto

lemma distinct_filter_key: "distinct (map fst ps) \<Longrightarrow> distinct (map fst (filter P ps))"
  by (simp add: distinct_map_filter)

text \<open>Both branches of \<open>set\<close> put the key at the end.\<close>

lemma set_items:
  assumes "distinct (map fst ps)"
  shows "dict_assign k v (if k \<in> fst ` set ps then move_to_end k ps else ps)
    = filter (\<lambda>p. fst p \<noteq> k) ps @ [(k, v)]"
proof (cases "k \<in> fst ` set ps")
  case True
  then obtain u where u: "(k, u) \<in> set ps" by force
  have "dict_assign k v (filter (\<lambda>p. fst p \<noteq> k) ps @ [(k, u)]) = filter (\<lambda>p. fst p \<noteq> k) ps @ [(k, v)]"
    by (induction ps) auto
  with True filter_fst_singleton [OF assms u] show ?thesis by (simp add: move_to_end_def)
next
  case False
  then have "filter (\<lambda>p. fst p \<noteq> k) ps = ps" by (intro filter_True) auto
  with False show ?thesis by (simp add: dict_assign_new)
qed

lemma length_rest:
  assumes "lru_wf c"
  shows "int (length (filter P (lru_items c))) \<le> lru_capacity c"
proof -
  have "int (length (lru_items c)) \<le> lru_capacity c" using assms by (simp add: lru_wf_def)
  moreover have "length (filter P (lru_items c)) \<le> length (lru_items c)" by (rule length_filter_le)
  ultimately show ?thesis by linarith
qed

lemma lru_set_items:
  assumes "lru_wf c"
  shows "lru_items (lru_set k v c) =
    (let rest = filter (\<lambda>p. fst p \<noteq> k) (lru_items c)
     in (if int (length rest) = lru_capacity c then tl rest else rest) @ [(k, v)])"
proof -
  let ?rest = "filter (\<lambda>p. fst p \<noteq> k) (lru_items c)"
  have "int (length ?rest) \<le> lru_capacity c"
    using length_rest [OF assms] .
  moreover have "?rest \<noteq> []" if "int (length ?rest) = lru_capacity c"
    using that assms by (auto simp: lru_wf_def)
  ultimately show ?thesis
    using assms set_items [of "lru_items c" k v] by (auto simp: lru_set_def lru_wf_def Let_def tl_append split: list.split)
qed

lemma move_to_end_cases:
  assumes "distinct (map fst ps)" and "(k, v) \<in> set ps"
  shows "move_to_end k ps = filter (\<lambda>p. fst p \<noteq> k) ps @ [(k, v)]"
  using filter_fst_singleton [OF assms] by (simp add: move_to_end_def)

lemma capacity_simps [simp]:
  "lru_capacity (lru_set k v c) = lru_capacity c"
  "lru_capacity (snd (lru_get k c)) = lru_capacity c"
  "lru_capacity (lru_invalidate k c) = lru_capacity c"
  by (simp_all add: lru_set_def lru_get_def lru_invalidate_def Let_def)

lemma lru_wf_set: "lru_wf c \<Longrightarrow> lru_wf (lru_set k v c)"
proof -
  assume wf: "lru_wf c"
  let ?rest = "filter (\<lambda>p. fst p \<noteq> k) (lru_items c)"
  have "distinct (map fst ?rest)" "k \<notin> fst ` set ?rest" "int (length ?rest) \<le> lru_capacity c"
    using wf length_rest [OF wf] by (auto simp: lru_wf_def intro: distinct_filter_key)
  moreover from this(1,2) have "distinct (map fst (tl ?rest))" "k \<notin> fst ` set (tl ?rest)"
    by (cases ?rest; simp)+
  ultimately show ?thesis
    using wf by (auto simp: lru_wf_def lru_set_items [OF wf] Let_def)
qed

lemma lru_wf_get: "lru_wf c \<Longrightarrow> lru_wf (snd (lru_get k c))"
proof -
  assume wf: "lru_wf c"
  show ?thesis
  proof (cases "k \<in> fst ` set (lru_items c)")
    case True
    then obtain v where v: "(k, v) \<in> set (lru_items c)" by force
    have "length (filter (\<lambda>p. fst p \<noteq> k) (lru_items c)) < length (lru_items c)"
      using v by (intro length_filter_less) auto
    with True wf v show ?thesis
      by (auto simp: lru_wf_def lru_get_def Let_def move_to_end_cases [OF _ v] intro: distinct_filter_key)
  next
    case False
    with wf show ?thesis by (simp add: lru_get_def)
  qed
qed

lemma lru_wf_invalidate: "lru_wf c \<Longrightarrow> lru_wf (lru_invalidate k c)"
  using length_rest [of c] by (simp add: lru_wf_def lru_invalidate_def distinct_filter_key)

lemma lru_get_value: "lru_wf c \<Longrightarrow> fst (lru_get k c) = lru_peek c k"
proof -
  assume wf: "lru_wf c"
  show ?thesis
  proof (cases "k \<in> fst ` set (lru_items c)")
    case True
    then obtain v where v: "(k, v) \<in> set (lru_items c)" by force
    with wf True show ?thesis
      by (auto simp: lru_get_def lru_peek_def Let_def lru_wf_def move_to_end_cases [OF _ v] map_add_def
          map_of_filter_key)
  next
    case False
    then have "map_of (lru_items c) k = None" by (simp add: map_of_eq_None_iff)
    with False show ?thesis by (simp add: lru_get_def lru_peek_def)
  qed
qed

lemma lru_peek_get: "lru_wf c \<Longrightarrow> lru_peek (snd (lru_get k c)) k' = lru_peek c k'"
proof -
  assume wf: "lru_wf c"
  show ?thesis
  proof (cases "k \<in> fst ` set (lru_items c)")
    case True
    then obtain v where v: "(k, v) \<in> set (lru_items c)" by force
    with wf show ?thesis
      by (auto simp: lru_get_def lru_peek_def Let_def lru_wf_def move_to_end_cases [OF _ v] map_add_def
          map_of_filter_key split: option.split)
  next
    case False
    then show ?thesis by (simp add: lru_get_def)
  qed
qed

lemma rest_absent:
  "map_of (filter (\<lambda>p. fst p \<noteq> k) ps) k = None" "map_of (tl (filter (\<lambda>p. fst p \<noteq> k) ps)) k = None"
proof -
  have "set (tl xs) \<subseteq> set xs" for xs :: "'d list" by (cases xs) auto
  from this [of "filter (\<lambda>p. fst p \<noteq> k) ps"]
  show "map_of (filter (\<lambda>p. fst p \<noteq> k) ps) k = None" "map_of (tl (filter (\<lambda>p. fst p \<noteq> k) ps)) k = None"
    by (auto simp: map_of_eq_None_iff)
qed

lemma lru_peek_set_same: "lru_wf c \<Longrightarrow> lru_peek (lru_set k v c) k = Some v"
  by (simp add: lru_peek_def lru_set_items Let_def map_add_def rest_absent)

lemma lru_peek_set_other:
  assumes "lru_wf c" and "k' \<noteq> k" and "lru_peek (lru_set k v c) k' = Some u"
  shows "lru_peek c k' = Some u"
proof -
  let ?rest = "filter (\<lambda>p. fst p \<noteq> k) (lru_items c)"
  have "distinct (map fst ?rest)" using assms(1) by (simp add: lru_wf_def distinct_filter_key)
  then have "map_of (tl ?rest) k' = Some u \<Longrightarrow> map_of ?rest k' = Some u"
    by (cases ?rest) (force dest: map_of_SomeD)+
  with assms(2,3) have "map_of ?rest k' = Some u"
    by (auto simp: lru_peek_def lru_set_items [OF assms(1)] Let_def map_add_def split: if_splits option.splits)
  with assms(2) show ?thesis by (simp add: lru_peek_def map_of_filter_key)
qed

lemma lru_peek_invalidate: "lru_peek (lru_invalidate k c) k' = (if k' = k then None else lru_peek c k')"
  by (simp add: lru_peek_def lru_invalidate_def map_of_filter_key)

lemma lru_wf_step: "lru_wf c \<Longrightarrow> lru_wf (lru_step op c)"
  by (cases op) (simp_all add: get_cached_event_def cache_event_def invalidate_event_def
      lru_wf_get lru_wf_set lru_wf_invalidate)

lemma lru_run_simps [simp]:
  "lru_run [] c = c"
  "lru_run (op # ops) c = lru_run ops (lru_step op c)"
  by (simp_all add: lru_run_def)

lemma lru_wf_run: "lru_wf c \<Longrightarrow> lru_wf (lru_run ops c)"
  by (induction ops arbitrary: c) (simp_all add: lru_wf_step)

lemma lru_wf_event_cache: "lru_wf event_cache"
  by (simp add: lru_wf_def event_cache_def new_lru_def)

section \<open>The contract\<close>

text \<open>
  What a bounded cache promises its callers over an unbounded store: it answers a subset of
  what the store holds, always including what was put last, and never grows above its
  bound.
\<close>

locale bounded_cache =
  fixes inv :: "'c \<Rightarrow> bool"
    and peek :: "'c \<Rightarrow> string \<Rightarrow> 'v option"
    and fetch :: "string \<Rightarrow> 'c \<Rightarrow> 'v option \<times> 'c"
    and put :: "string \<Rightarrow> 'v \<Rightarrow> 'c \<Rightarrow> 'c"
    and drop_key :: "string \<Rightarrow> 'c \<Rightarrow> 'c"
  assumes inv_fetch: "inv c \<Longrightarrow> inv (snd (fetch k c))"
    and inv_put: "inv c \<Longrightarrow> inv (put k v c)"
    and inv_drop: "inv c \<Longrightarrow> inv (drop_key k c)"
    and fetch_peek: "inv c \<Longrightarrow> fst (fetch k c) = peek c k"
    and peek_fetch: "inv c \<Longrightarrow> peek (snd (fetch k c)) = peek c"
    and peek_put: "inv c \<Longrightarrow> peek (put k v c) k = Some v"
    and peek_put_other: "inv c \<Longrightarrow> k' \<noteq> k \<Longrightarrow> peek (put k v c) k' = Some u \<Longrightarrow> peek c k' = Some u"
    and peek_drop: "peek (drop_key k c) = (peek c)(k := None)"
begin

lemma put_below: "inv c \<Longrightarrow> peek c \<subseteq>\<^sub>m m \<Longrightarrow> peek (put k v c) \<subseteq>\<^sub>m m(k \<mapsto> v)"
  using peek_put_other by (fastforce simp: map_le_def dom_def peek_put)

lemma fetch_below: "inv c \<Longrightarrow> peek c \<subseteq>\<^sub>m m \<Longrightarrow> peek (snd (fetch k c)) \<subseteq>\<^sub>m m"
  by (simp add: peek_fetch)

lemma drop_below: "inv c \<Longrightarrow> peek c \<subseteq>\<^sub>m m \<Longrightarrow> peek (drop_key k c) \<subseteq>\<^sub>m m(k := None)"
  by (auto simp: peek_drop map_le_def)

lemma fetched_below: "inv c \<Longrightarrow> peek c \<subseteq>\<^sub>m m \<Longrightarrow> fst (fetch k c) = Some v \<Longrightarrow> m k = Some v"
  by (auto simp: fetch_peek map_le_def dom_def)

end

interpretation lru: bounded_cache lru_wf lru_peek get_cached_event cache_event invalidate_event
proof
  fix c :: "'v lru_cache" and k k' v u
  show "lru_wf c \<Longrightarrow> lru_peek (snd (get_cached_event k c)) = lru_peek c"
    by (simp add: fun_eq_iff get_cached_event_def lru_peek_get)
  show "lru_wf c \<Longrightarrow> k' \<noteq> k \<Longrightarrow> lru_peek (cache_event k v c) k' = Some u \<Longrightarrow> lru_peek c k' = Some u"
    unfolding cache_event_def by (rule lru_peek_set_other)
  show "lru_peek (invalidate_event k c) = (lru_peek c)(k := None)"
    by (simp add: fun_eq_iff invalidate_event_def lru_peek_invalidate)
qed (simp_all add: get_cached_event_def cache_event_def invalidate_event_def lru_wf_get lru_wf_set
    lru_wf_invalidate lru_get_value lru_peek_set_same)

text \<open>The unbounded store.\<close>

fun store_step :: "'v lru_op \<Rightarrow> (string \<Rightarrow> 'v option) \<Rightarrow> (string \<Rightarrow> 'v option)" where
  "store_step (LruGet k) m = m"
| "store_step (LruSet k v) m = m(k \<mapsto> v)"
| "store_step (LruInvalidate k) m = m(k := None)"

definition store_run :: "'v lru_op list \<Rightarrow> (string \<Rightarrow> 'v option) \<Rightarrow> (string \<Rightarrow> 'v option)" where
  "store_run ops m = foldl (\<lambda>m op. store_step op m) m ops"

lemma lru_step_below:
  "lru_wf c \<Longrightarrow> lru_peek c \<subseteq>\<^sub>m m \<Longrightarrow> lru_peek (lru_step op c) \<subseteq>\<^sub>m store_step op m"
  by (cases op) (simp_all add: lru.put_below lru.fetch_below lru.drop_below)

lemma lru_run_below:
  "lru_wf c \<Longrightarrow> lru_peek c \<subseteq>\<^sub>m m \<Longrightarrow> lru_peek (lru_run ops c) \<subseteq>\<^sub>m store_run ops m"
proof (induction ops arbitrary: c m)
  case Nil
  then show ?case by (simp add: store_run_def)
next
  case (Cons op ops)
  from Cons.IH [OF lru_wf_step lru_step_below, OF Cons.prems(1) Cons.prems]
  show ?case by (simp add: store_run_def)
qed

section \<open>Recency\<close>

text \<open>Only keys of \<open>T\<close> were used after \<open>k\<close>.\<close>

definition recent :: "string \<Rightarrow> 'v \<Rightarrow> string set \<Rightarrow> 'v lru_cache \<Rightarrow> bool" where
  "recent k v T c \<longleftrightarrow> lru_wf c \<and> (\<exists>xs ys. lru_items c = xs @ (k, v) # ys \<and> fst ` set ys \<subseteq> T)"

lemma recent_set: "lru_wf c \<Longrightarrow> recent k v T (lru_set k v c)"
proof -
  assume "lru_wf c"
  then have "\<exists>xs. lru_items (lru_set k v c) = xs @ (k, v) # []" by (simp add: lru_set_items Let_def)
  then show ?thesis using lru_wf_set [OF \<open>lru_wf c\<close>] by (force simp: recent_def)
qed

lemma recent_peek: "recent k v T c \<Longrightarrow> lru_peek c k = Some v"
  by (auto simp: recent_def lru_peek_def lru_wf_def map_add_def map_of_eq_None_iff
      split: option.split)

lemma recent_mono: "recent k v T c \<Longrightarrow> T \<subseteq> T' \<Longrightarrow> recent k v T' c"
  unfolding recent_def by blast

lemma recent_set_other:
  assumes "recent k v T c" and "k' \<noteq> k" and "finite T" and "int (card (insert k' T)) < lru_capacity c"
  shows "recent k v (insert k' T) (lru_set k' u c)"
proof -
  obtain xs ys where items: "lru_items c = xs @ (k, v) # ys" "fst ` set ys \<subseteq> T" and wf: "lru_wf c"
    using assms(1) by (auto simp: recent_def)
  let ?xs = "filter (\<lambda>p. fst p \<noteq> k') xs" and ?ys = "filter (\<lambda>p. fst p \<noteq> k') ys"
  have rest: "filter (\<lambda>p. fst p \<noteq> k') (lru_items c) = ?xs @ (k, v) # ?ys" using assms(2) items(1) by simp
  have "?xs \<noteq> []" if full: "int (length (?xs @ (k, v) # ?ys)) = lru_capacity c"
  proof
    assume "?xs = []"
    with full have len: "int (length ?ys) + 1 = lru_capacity c" by simp
    have "distinct (map fst ?ys)" using wf items(1) by (simp add: lru_wf_def distinct_filter_key)
    then have "length ?ys = card (fst ` set ?ys)" by (metis distinct_card length_map set_map)
    also have "\<dots> \<le> card (T - {k'})" using items(2) assms(3) by (intro card_mono) auto
    finally have "length ?ys + 1 \<le> card (insert k' T)" using assms(3) by (simp add: card.insert_remove)
    with len assms(4) show False by linarith
  qed
  then have "\<exists>zs. lru_items (lru_set k' u c) = zs @ (k, v) # ?ys @ [(k', u)]"
    by (cases ?xs) (auto simp: lru_set_items [OF wf] Let_def rest)
  moreover have "fst ` set (?ys @ [(k', u)]) \<subseteq> insert k' T" using items(2) by auto
  ultimately show ?thesis using lru_wf_set [OF wf, of k' u] unfolding recent_def by blast
qed

lemma recent_get:
  assumes "recent k v T c"
  shows "recent k v (T \<union> ({k'} - {k})) (snd (lru_get k' c))"
proof -
  obtain xs ys where items: "lru_items c = xs @ (k, v) # ys" "fst ` set ys \<subseteq> T" and wf: "lru_wf c"
    using assms by (auto simp: recent_def)
  note wf' = lru_wf_get [OF wf, of k']
  show ?thesis
  proof (cases "k' \<in> fst ` set (lru_items c)")
    case False
    then have "snd (lru_get k' c) = c" by (simp add: lru_get_def)
    with recent_mono [OF assms, of "T \<union> ({k'} - {k})"] show ?thesis by simp
  next
    case True
    then obtain u where u: "(k', u) \<in> set (lru_items c)" by force
    have "distinct (map fst (lru_items c))" using wf by (simp add: lru_wf_def)
    from move_to_end_cases [OF this u]
    have new: "lru_items (snd (lru_get k' c)) = filter (\<lambda>p. fst p \<noteq> k') (lru_items c) @ [(k', u)]"
      using True by (simp add: lru_get_def Let_def)
    show ?thesis
    proof (cases "k' = k")
      case True
      have "(k, v) \<in> set (lru_items c)" using items(1) by simp
      then have "u = v" using u True \<open>distinct _\<close> by (blast intro: eq_key_imp_eq_value)
      then have "lru_items (snd (lru_get k' c)) = filter (\<lambda>p. fst p \<noteq> k') (lru_items c) @ (k, v) # []"
        using new True by simp
      with wf' show ?thesis unfolding recent_def by fastforce
    next
      case False
      then have "lru_items (snd (lru_get k' c)) =
          filter (\<lambda>p. fst p \<noteq> k') xs @ (k, v) # (filter (\<lambda>p. fst p \<noteq> k') ys @ [(k', u)])"
        using new items(1) by simp
      moreover have "fst ` set (filter (\<lambda>p. fst p \<noteq> k') ys @ [(k', u)]) \<subseteq> T \<union> ({k'} - {k})"
        using items(2) False by auto
      ultimately show ?thesis using wf' unfolding recent_def by blast
    qed
  qed
qed

lemma recent_invalidate: "recent k v T c \<Longrightarrow> k' \<noteq> k \<Longrightarrow> recent k v T (lru_invalidate k' c)"
proof -
  assume r: "recent k v T c" and "k' \<noteq> k"
  then obtain xs ys where "lru_items c = xs @ (k, v) # ys" "fst ` set ys \<subseteq> T" "lru_wf c"
    by (auto simp: recent_def)
  then have "lru_items (lru_invalidate k' c) =
      filter (\<lambda>p. fst p \<noteq> k') xs @ (k, v) # filter (\<lambda>p. fst p \<noteq> k') ys"
    "fst ` set (filter (\<lambda>p. fst p \<noteq> k') ys) \<subseteq> T"
    using \<open>k' \<noteq> k\<close> by (auto simp: lru_invalidate_def)
  then show ?thesis using lru_wf_invalidate [OF \<open>lru_wf c\<close>] unfolding recent_def by blast
qed

lemma recent_step:
  assumes "recent k v T c" and "keeps k op" and "finite T" and "k \<notin> T"
    and "int (card (T \<union> (touched op - {k}))) < lru_capacity c"
  shows "recent k v (T \<union> (touched op - {k})) (lru_step op c)"
proof (cases op)
  case (LruGet k')
  then show ?thesis using recent_get [OF assms(1), of k'] by (simp add: get_cached_event_def)
next
  case (LruSet k' u)
  then have "T \<union> (touched op - {k}) = insert k' T" using assms(2) by auto
  with LruSet assms recent_set_other [OF assms(1), of k' u] show ?thesis by (simp add: cache_event_def)
next
  case (LruInvalidate k')
  with assms recent_invalidate [OF assms(1), of k'] show ?thesis by (simp add: invalidate_event_def)
qed

lemma lru_capacity_step [simp]: "lru_capacity (lru_step op c) = lru_capacity c"
  by (cases op) (simp_all add: get_cached_event_def cache_event_def invalidate_event_def)

lemma finite_touched [simp]: "finite (touched op)"
  by (cases op) simp_all

lemma recent_run:
  assumes "recent k v T c" and "\<forall>op\<in>set ops. keeps k op" and "finite T" and "k \<notin> T"
    and "int (card (T \<union> ((\<Union>op\<in>set ops. touched op) - {k}))) < lru_capacity c"
  shows "recent k v (T \<union> ((\<Union>op\<in>set ops. touched op) - {k})) (lru_run ops c)"
  using assms
proof (induction ops arbitrary: c T)
  case Nil
  then show ?case by simp
next
  case (Cons op ops)
  let ?T = "T \<union> (touched op - {k})" and ?U = "T \<union> ((\<Union>op\<in>set (op # ops). touched op) - {k})"
  have U: "?T \<union> ((\<Union>op\<in>set ops. touched op) - {k}) = ?U" by auto
  have "card ?T \<le> card ?U" using Cons.prems(3) by (intro card_mono) auto
  then have "recent k v ?T (lru_step op c)" using Cons.prems by (intro recent_step) auto
  from Cons.IH [OF this] Cons.prems U show ?case by simp
qed

section \<open>Properties\<close>

text \<open>
  C34: After any sequence of calls the event cache holds at most 256 events, each key once,
  and what it answers is never stale: an answer is the last value cached under the key,
  with no invalidation since.
\<close>

theorem event_cache_bounded_fresh:
  "let c = lru_run ops event_cache
   in lru_len c \<le> 256 \<and> distinct (map fst (lru_items c))
      \<and> fst (get_cached_event k c) \<in> {None, store_run ops (\<lambda>_. None) k}"
proof -
  let ?c = "lru_run ops event_cache"
  have wf: "lru_wf ?c" by (rule lru_wf_run [OF lru_wf_event_cache])
  have cap: "lru_capacity ?c = 256"
  proof -
    have "lru_capacity (lru_run ops c) = lru_capacity c" for c :: "'a lru_cache"
      by (induction ops arbitrary: c) simp_all
    then show ?thesis by (simp add: event_cache_def new_lru_def)
  qed
  have "lru_peek ?c \<subseteq>\<^sub>m store_run ops (\<lambda>_. None)"
    by (rule lru_run_below [OF lru_wf_event_cache]) (simp add: lru_peek_def event_cache_def new_lru_def map_le_def)
  from lru.fetched_below [OF wf this]
  have "fst (get_cached_event k ?c) \<in> {None, store_run ops (\<lambda>_. None) k}"
    by (cases "fst (get_cached_event k ?c)") auto
  with wf cap show ?thesis by (simp add: Let_def lru_wf_def lru_len_def)
qed

text \<open>
  C35: The eviction order is least recent use: a cached event is still answered after any
  calls that neither replace nor invalidate it, as long as they use fewer other keys than
  the capacity.
\<close>

theorem lru_recent_survives:
  assumes "lru_wf c" and "\<forall>op\<in>set ops. keeps k op"
    and "int (card ((\<Union>op\<in>set ops. touched op) - {k})) < lru_capacity c"
  shows "fst (get_cached_event k (lru_run ops (cache_event k v c))) = Some v"
proof -
  have "recent k v {} (cache_event k v c)" by (simp add: cache_event_def recent_set assms(1))
  from recent_run [OF this assms(2)] assms(3)
  have "recent k v ({} \<union> ((\<Union>op\<in>set ops. touched op) - {k})) (lru_run ops (cache_event k v c))"
    by (simp add: cache_event_def)
  then have "lru_peek (lru_run ops (cache_event k v c)) k = Some v" "lru_wf (lru_run ops (cache_event k v c))"
    by (simp_all add: recent_peek) (simp add: recent_def)
  then show ?thesis by (simp add: lru.fetch_peek)
qed

theorem lru_recent_survives_witness:
  "fst (get_cached_event ''a'' (lru_run [LruSet ''b'' 2, LruGet ''a'', LruSet ''c'' 3]
     (cache_event ''a'' (1 :: nat) (new_lru 3)))) = Some 1"
  by (rule lru_recent_survives) (simp_all add: lru_wf_def new_lru_def)

end
