(* ===== verification/CoreChecks.thy ===== *)
theory CoreChecks
  imports CacheApi
begin

text \<open>
  \<open>core/health.py\<close> and \<open>core/query_audit.py\<close>: the probes, and the guard on the number of
  queries of a block.
\<close>

section \<open>Probes\<close>

definition health_check :: "json \<times> nat" where
  "health_check = (JObj [(''status'', JStr ''ok'')], 200)"

text \<open>
  \<open>db_error\<close> is the message of what the query raises, if it does, \<open>redis_error\<close> that of the
  cache client; \<open>t0\<close> and \<open>t1\<close> are the instants of the write and of the read. A failed
  \<open>assert\<close> has an empty message.
\<close>

definition redis_probe :: "'c cache_api \<Rightarrow> string option \<Rightarrow> instant \<Rightarrow> instant \<Rightarrow> 'c \<Rightarrow> string option \<times> 'c" where
  "redis_probe C redis_error t0 t1 c =
     (case redis_error of
        Some e \<Rightarrow> (Some e, c)
      | None \<Rightarrow>
          (let c = c_set C c t0 ''_health_check'' (CStr ''1'') 5
           in (if c_get C c t1 ''_health_check'' = Some (CStr ''1'') then None else Some [], c)))"

definition check_text :: "string option \<Rightarrow> json" where
  "check_text e = (case e of None \<Rightarrow> JStr ''ok'' | Some msg \<Rightarrow> JStr (''error: '' @ msg))"

definition readiness_check ::
  "'c cache_api \<Rightarrow> string option \<Rightarrow> string option \<Rightarrow> instant \<Rightarrow> instant \<Rightarrow> 'c \<Rightarrow> (json \<times> nat) \<times> 'c" where
  "readiness_check C db_error redis_error t0 t1 c =
     (case redis_probe C redis_error t0 t1 c of
        (probe, c') \<Rightarrow>
          let status_code = (if db_error = None \<and> probe = None then 200 else 503)
          in ((JObj [(''status'', JStr (if status_code = 200 then ''ready'' else ''not_ready'')),
                (''checks'', JObj [(''database'', check_text db_error), (''redis'', check_text probe)])],
               status_code), c'))"

section \<open>The query guard\<close>

text \<open>
  The state a guarded block sees: the debug flag of the settings and the captured queries.
  The block itself is a parameter, a program over this state.
\<close>

record query_state =
  qs_debug :: bool
  qs_queries :: "string list"

definition assert_max_queries :: "int \<Rightarrow> (query_state, 'a) prog \<Rightarrow> (query_state, 'a) prog" where
  "assert_max_queries max_count body s =
     (let original_debug = qs_debug s
      in case body (s\<lparr>qs_debug := True, qs_queries := []\<rparr>) of
           (r, s') \<Rightarrow>
             let query_count = int (length (qs_queries s')); s'' = s'\<lparr>qs_debug := original_debug\<rparr>
             in if max_count < query_count then (Inl (AssertionError max_count query_count), s'')
                else (r, s''))"

section \<open>Properties\<close>

text \<open>
  The readiness probe answers 200 exactly when the database answers and the value just
  written to the cache can be read back, within its five seconds; every other case is 503,
  with the check that failed marked as an error.
\<close>

theorem readiness_exact:
  assumes "django_cache C" and "t0 \<le> t1"
  shows "fst (readiness_check C db_error redis_error t0 t1 c) =
     (JObj [(''status'', JStr (if db_error = None \<and> redis_error = None \<and> t1 < t0 + 5000000 then ''ready'' else ''not_ready'')),
        (''checks'', JObj [(''database'', check_text db_error),
           (''redis'', check_text (if redis_error = None \<and> t0 + 5000000 \<le> t1 then Some [] else redis_error))])],
      if db_error = None \<and> redis_error = None \<and> t1 < t0 + 5000000 then 200 else 503)"
proof -
  have "c_get C (c_set C c t0 ''_health_check'' (CStr ''1'') 5) t1 ''_health_check''
      = (if t1 < t0 + 5000000 then Some (CStr ''1'') else None)"
    using django_cache.get_set_live [OF assms(1), of 5 t0 t1] django_cache.get_set_dead [OF assms(1), of 5 t0 t1] assms(2)
    by simp
  then show ?thesis
    by (auto simp: readiness_check_def redis_probe_def Let_def check_text_def split: option.split)
qed

theorem readiness_exact_witness:
  "snd (fst (readiness_check ttl_api None None 0 1 ttl_empty)) = 200
   \<and> snd (fst (readiness_check ttl_api (Some ''down'') None 0 1 ttl_empty)) = 503"
  using readiness_exact [OF ttl.django_cache_axioms, of 0 1] by simp

text \<open>
  The query guard restores the debug flag in every case and raises exactly when the
  block issued more queries than allowed, then also in place of an exception of the block;
  otherwise the outcome of the block passes through.
\<close>

theorem query_guard_exact:
  "let (r, s') = body (s\<lparr>qs_debug := True, qs_queries := []\<rparr>); (r', s'') = assert_max_queries n body s
   in qs_debug s'' = qs_debug s \<and> qs_queries s'' = qs_queries s'
      \<and> r' = (if n < int (length (qs_queries s')) then Inl (AssertionError n (int (length (qs_queries s')))) else r)"
  by (auto simp: assert_max_queries_def Let_def split: prod.split)

end
