(* ===== verification/Schema.thy ===== *)
theory Schema
  imports Prelude
begin

text \<open>
  The tables as the \<open>models.py\<close> files declare them: one model with its columns, their
  options and the \<open>Meta\<close> of the class, for every class of the applications. Names of models
  are in the lower case in which Django compares them. Labels, help texts,
  reverse query names and the virtual \<open>entity\<close> of the audit log, which is no column, are left
  out. What Django's own base classes add to the user is a parameter.
\<close>

section \<open>Columns\<close>

datatype on_delete = CASCADE | PROTECT | SET_NULL

datatype field_type =
    UUIDField
  | CharField nat
  | TextField
  | EmailField nat
  | SlugField nat
  | URLField nat
  | BooleanField
  | PositiveIntegerField
  | DecimalField nat nat
  | DateTimeField
  | JSONField
  | GenericIPAddressField
  | ForeignKey string on_delete
  | OneToOneField string on_delete
  | ManyToManyField string

datatype default_value = DStr string | DInt int | DBool bool | DUuid4 | DDict

datatype attribute =
    PrimaryKey
  | Null
  | Blank
  | Unique
  | DbIndex
  | NotEditable
  | AutoNow
  | AutoNowAdd
  | Default default_value
  | Choices "(string \<times> string) list"
  | RelatedName string
  | LimitTo string string

datatype field = Field (field_name: string) (field_type: field_type) (attributes: "attribute list")

record options =
  o_table :: string
  o_ordering :: "string list"
  o_unique_together :: "string list list"
  o_indexes :: "(string \<times> string list) list"
  o_permissions :: "string list"

text \<open>A \<open>Meta\<close> that names only its table; Django grants four permissions then.\<close>

definition table :: "string \<Rightarrow> options" where
  "table name = \<lparr>o_table = name, o_ordering = [], o_unique_together = [], o_indexes = [],
     o_permissions = [''add'', ''change'', ''delete'', ''view'']\<rparr>"

datatype model = Model (label: string) (fields: "field list") (options: options)

section \<open>The models\<close>

definition user_model :: "field list \<Rightarrow> model" where
  "user_model inherited =
     Model ''accounts.user''
       (inherited @
        [Field ''id'' UUIDField [PrimaryKey, Default DUuid4, NotEditable],
        Field ''email'' (EmailField 254) [Unique, DbIndex],
        Field ''first_name'' (CharField 150) [Blank],
        Field ''last_name'' (CharField 150) [Blank],
        Field ''role'' (CharField 20) [Choices [(''organizer'', ''Organizer''),
           (''staff'', ''Staff''), (''attendee'', ''Attendee'')], Default (DStr ''attendee'')],
        Field ''is_active'' BooleanField [Default (DBool True)],
        Field ''is_staff'' BooleanField [Default (DBool False)],
        Field ''email_verified'' BooleanField [Default (DBool False)],
        Field ''created_at'' DateTimeField [AutoNowAdd],
        Field ''updated_at'' DateTimeField [AutoNow]])
       ((table ''accounts_user'')\<lparr>o_indexes := [(''user_email_active_idx'',
           [''email'', ''is_active''])]\<rparr>)"

definition company_model :: model where
  "company_model =
     Model ''companies.company''
       ([Field ''id'' UUIDField [PrimaryKey, Default DUuid4, NotEditable],
        Field ''name'' (CharField 200) [],
        Field ''slug'' (SlugField 100) [Unique, DbIndex],
        Field ''owner'' (ForeignKey ''accounts.user'' PROTECT) [RelatedName ''owned_companies'',
           LimitTo ''role'' ''organizer''],
        Field ''plan'' (CharField 20) [Choices [(''free'', ''Free''),
           (''starter'', ''Starter''), (''pro'', ''Pro''), (''enterprise'', ''Enterprise'')],
           Default (DStr ''free'')],
        Field ''timezone'' (CharField 50) [Default (DStr ''Africa/Nairobi'')],
        Field ''logo_url'' (URLField 200) [Blank],
        Field ''primary_color'' (CharField 7) [Default (DStr ''#000000'')],
        Field ''is_active'' BooleanField [Default (DBool True)],
        Field ''created_at'' DateTimeField [AutoNowAdd],
        Field ''updated_at'' DateTimeField [AutoNow]])
       ((table ''companies_company'')\<lparr>o_indexes := [(''company_slug_idx'',
           [''slug'']), (''company_owner_active_idx'', [''owner'', ''is_active''])]\<rparr>)"

definition companymember_model :: model where
  "companymember_model =
     Model ''companies.companymember''
       ([Field ''id'' UUIDField [PrimaryKey, Default DUuid4, NotEditable],
        Field ''company'' (ForeignKey ''companies.company'' CASCADE) [RelatedName ''members''],
        Field ''user'' (ForeignKey ''accounts.user'' CASCADE) [RelatedName ''memberships''],
        Field ''role'' (CharField 20) [Choices [(''owner'', ''Owner''),
           (''manager'', ''Manager''), (''staff'', ''Staff'')], Default (DStr ''staff'')],
        Field ''joined_at'' DateTimeField [AutoNowAdd]])
       ((table ''companies_member'')\<lparr>o_unique_together := [[''company'', ''user'']],
           o_indexes := [(''member_company_role_idx'', [''company'', ''role''])]\<rparr>)"

definition event_model :: model where
  "event_model =
     Model ''events.event''
       ([Field ''id'' UUIDField [PrimaryKey, Default DUuid4, NotEditable],
        Field ''company'' (ForeignKey ''companies.company'' CASCADE) [RelatedName ''events''],
        Field ''title'' (CharField 300) [],
        Field ''description'' TextField [Blank],
        Field ''venue_name'' (CharField 200) [],
        Field ''venue_address'' TextField [Blank],
        Field ''capacity'' PositiveIntegerField [Default (DInt 0)],
        Field ''status'' (CharField 20) [Choices [(''draft'', ''Draft''),
           (''published'', ''Published''), (''cancelled'', ''Cancelled''),
           (''completed'', ''Completed'')], Default (DStr ''draft'')],
        Field ''cover_image_url'' (URLField 200) [Blank],
        Field ''timezone'' (CharField 50) [Default (DStr ''Africa/Nairobi'')],
        Field ''created_at'' DateTimeField [AutoNowAdd],
        Field ''updated_at'' DateTimeField [AutoNow]])
       ((table ''events_event'')\<lparr>o_indexes := [(''event_company_status_idx'',
           [''company'', ''status'']), (''event_status_created_idx'', [''status'',
           ''created_at''])]\<rparr>)"

definition eventdate_model :: model where
  "eventdate_model =
     Model ''events.eventdate''
       ([Field ''id'' UUIDField [PrimaryKey, Default DUuid4, NotEditable],
        Field ''event'' (ForeignKey ''events.event'' CASCADE) [RelatedName ''dates''],
        Field ''start_datetime'' DateTimeField [],
        Field ''end_datetime'' DateTimeField [],
        Field ''doors_open'' DateTimeField [Null, Blank],
        Field ''label'' (CharField 100) [Blank]])
       ((table ''events_date'')\<lparr>o_ordering := [''start_datetime''], o_indexes :=
           [(''eventdate_event_start_idx'', [''event'', ''start_datetime''])]\<rparr>)"

definition tickettier_model :: model where
  "tickettier_model =
     Model ''inventory.tickettier''
       ([Field ''id'' UUIDField [PrimaryKey, Default DUuid4, NotEditable],
        Field ''event'' (ForeignKey ''events.event'' CASCADE) [RelatedName ''tiers''],
        Field ''name'' (CharField 100) [],
        Field ''description'' TextField [Blank],
        Field ''price'' (DecimalField 10 2) [],
        Field ''currency'' (CharField 3) [Default (DStr ''KES'')],
        Field ''quantity_total'' PositiveIntegerField [],
        Field ''quantity_held'' PositiveIntegerField [Default (DInt 0)],
        Field ''quantity_sold'' PositiveIntegerField [Default (DInt 0)],
        Field ''max_per_order'' PositiveIntegerField [Default (DInt 10)],
        Field ''sale_starts_at'' DateTimeField [Null, Blank],
        Field ''sale_ends_at'' DateTimeField [Null, Blank],
        Field ''is_active'' BooleanField [Default (DBool True)],
        Field ''sort_order'' PositiveIntegerField [Default (DInt 0)],
        Field ''created_at'' DateTimeField [AutoNowAdd]])
       ((table ''inventory_tier'')\<lparr>o_ordering := [''sort_order'', ''price''],
           o_indexes := [(''tier_event_active_idx'', [''event'', ''is_active'']),
           (''tier_event_price_idx'', [''event'', ''price''])]\<rparr>)"

definition checkouthold_model :: model where
  "checkouthold_model =
     Model ''checkout.checkouthold''
       ([Field ''id'' UUIDField [PrimaryKey, Default DUuid4, NotEditable],
        Field ''hold_token'' UUIDField [Unique, Default DUuid4, DbIndex],
        Field ''user'' (ForeignKey ''accounts.user'' CASCADE) [RelatedName ''holds''],
        Field ''tier'' (ForeignKey ''inventory.tickettier'' CASCADE) [RelatedName ''holds''],
        Field ''quantity'' PositiveIntegerField [Default (DInt 1)],
        Field ''status'' (CharField 20) [Choices [(''active'', ''Active''),
           (''expired'', ''Expired''), (''confirmed'', ''Confirmed''),
           (''released'', ''Released'')], Default (DStr ''active'')],
        Field ''expires_at'' DateTimeField [],
        Field ''created_at'' DateTimeField [AutoNowAdd]])
       ((table ''checkout_hold'')\<lparr>o_indexes := [(''hold_status_expiry_idx'',
           [''status'', ''expires_at'']), (''hold_user_tier_status_idx'', [''user'',
           ''tier'', ''status''])]\<rparr>)"

definition payment_model :: model where
  "payment_model =
     Model ''payments.payment''
       ([Field ''id'' UUIDField [PrimaryKey, Default DUuid4, NotEditable],
        Field ''hold'' (OneToOneField ''checkout.checkouthold'' PROTECT) [RelatedName
           ''payment'', Null, Blank],
        Field ''user'' (ForeignKey ''accounts.user'' PROTECT) [RelatedName ''payments''],
        Field ''company'' (ForeignKey ''companies.company'' PROTECT) [RelatedName ''payments''],
        Field ''provider'' (CharField 20) [Choices [(''lemon_squeezy'', ''LemonSqueezy''),
           (''mpesa'', ''M-Pesa'')]],
        Field ''provider_payment_id'' (CharField 200) [Unique, DbIndex],
        Field ''idempotency_key'' (CharField 200) [Unique, DbIndex],
        Field ''amount'' (DecimalField 12 2) [],
        Field ''currency'' (CharField 3) [Default (DStr ''KES'')],
        Field ''status'' (CharField 20) [Choices [(''pending'', ''Pending''),
           (''processing'', ''Processing''), (''succeeded'', ''Succeeded''),
           (''failed'', ''Failed''), (''refunded'', ''Refunded''),
           (''disputed'', ''Disputed'')], Default (DStr ''pending'')],
        Field ''provider_response'' JSONField [Default DDict],
        Field ''created_at'' DateTimeField [AutoNowAdd],
        Field ''updated_at'' DateTimeField [AutoNow]])
       ((table ''payments_payment'')\<lparr>o_indexes := [(''payment_company_status_idx'',
           [''company'', ''status'', ''created_at'']), (''payment_user_status_idx'',
           [''user'', ''status''])]\<rparr>)"

definition ticket_model :: model where
  "ticket_model =
     Model ''tickets.ticket''
       ([Field ''id'' UUIDField [PrimaryKey, Default DUuid4, NotEditable],
        Field ''hold'' (OneToOneField ''checkout.checkouthold'' PROTECT) [RelatedName
           ''ticket'', Null, Blank],
        Field ''payment'' (ForeignKey ''payments.payment'' PROTECT) [RelatedName ''tickets'',
           Null, Blank],
        Field ''tier'' (ForeignKey ''inventory.tickettier'' PROTECT) [RelatedName ''tickets''],
        Field ''attendee'' (ForeignKey ''accounts.user'' PROTECT) [RelatedName ''tickets''],
        Field ''status'' (CharField 20) [Choices [(''issued'', ''Issued''),
           (''checked_in'', ''Checked In''), (''cancelled'', ''Cancelled''),
           (''transferred'', ''Transferred'')], Default (DStr ''issued'')],
        Field ''qr_fingerprint'' (CharField 64) [Unique, DbIndex],
        Field ''issued_at'' DateTimeField [AutoNowAdd],
        Field ''checked_in_at'' DateTimeField [Null, Blank]])
       ((table ''tickets_ticket'')\<lparr>o_indexes := [(''ticket_tier_status_idx'',
           [''tier'', ''status'']), (''ticket_attendee_status_idx'', [''attendee'',
           ''status''])]\<rparr>)"

definition checkin_model :: model where
  "checkin_model =
     Model ''checkin.checkin''
       ([Field ''id'' UUIDField [PrimaryKey, Default DUuid4, NotEditable],
        Field ''ticket'' (OneToOneField ''tickets.ticket'' PROTECT) [RelatedName ''checkin''],
        Field ''gate'' (CharField 100) [Default (DStr ''Main'')],
        Field ''scanned_by'' (ForeignKey ''accounts.user'' PROTECT) [RelatedName
           ''checkins_performed''],
        Field ''scanned_at'' DateTimeField [AutoNowAdd],
        Field ''device_id'' (CharField 100) [Blank]])
       ((table ''checkin_checkin'')\<lparr>o_indexes := [(''checkin_ticket_time_idx'',
           [''ticket'', ''scanned_at''])]\<rparr>)"

definition webhookevent_model :: model where
  "webhookevent_model =
     Model ''webhooks.webhookevent''
       ([Field ''id'' UUIDField [PrimaryKey, Default DUuid4, NotEditable],
        Field ''provider'' (CharField 50) [],
        Field ''event_type'' (CharField 100) [],
        Field ''provider_event_id'' (CharField 200) [Unique, DbIndex],
        Field ''payload'' JSONField [],
        Field ''processed'' BooleanField [Default (DBool False)],
        Field ''processing_error'' TextField [Blank],
        Field ''received_at'' DateTimeField [AutoNowAdd],
        Field ''processed_at'' DateTimeField [Null, Blank]])
       ((table ''webhooks_event'')\<lparr>o_indexes := [(''webhook_provider_type_idx'',
           [''provider'', ''event_type'', ''processed'']), (''webhook_event_id_idx'',
           [''provider_event_id''])]\<rparr>)"

definition auditlog_model :: model where
  "auditlog_model =
     Model ''audit.auditlog''
       ([Field ''id'' UUIDField [PrimaryKey, Default DUuid4, NotEditable],
        Field ''actor'' (ForeignKey ''accounts.user'' SET_NULL) [Null, Blank, RelatedName
           ''audit_logs''],
        Field ''action'' (CharField 100) [],
        Field ''content_type'' (ForeignKey ''contenttypes.contenttype'' CASCADE) [Null, Blank],
        Field ''object_id'' UUIDField [Null, Blank],
        Field ''metadata'' JSONField [Default DDict],
        Field ''ip_address'' GenericIPAddressField [Null, Blank],
        Field ''created_at'' DateTimeField [AutoNowAdd]])
       ((table ''audit_log'')\<lparr>o_ordering := [''-created_at''], o_indexes :=
           [(''audit_action_time_idx'', [''action'', ''created_at'']),
           (''audit_entity_idx'', [''content_type'', ''object_id'', ''created_at'']),
           (''audit_actor_time_idx'', [''actor'', ''created_at''])], o_permissions :=
           [''add'', ''view'']\<rparr>)"

text \<open>Every model of the project; \<open>inherited\<close> is what the base classes give the user.\<close>

definition declared_models :: "field list \<Rightarrow> model list" where
  "declared_models inherited =
     [user_model inherited, company_model, companymember_model, event_model, eventdate_model,
         tickettier_model, checkouthold_model, payment_model, ticket_model, checkin_model,
         webhookevent_model, auditlog_model]"

section \<open>Relations\<close>

text \<open>The relations of a column to another table, with what its deletion does here.\<close>

fun relation :: "field_type \<Rightarrow> (string \<times> on_delete) option" where
  "relation (ForeignKey target act) = Some (target, act)"
| "relation (OneToOneField target act) = Some (target, act)"
| "relation t = None"

fun target_of :: "field_type \<Rightarrow> string option" where
  "target_of (ForeignKey target act) = Some target"
| "target_of (OneToOneField target act) = Some target"
| "target_of (ManyToManyField target) = Some target"
| "target_of t = None"

definition relations :: "model list \<Rightarrow> (string \<times> string \<times> string \<times> on_delete) list" where
  "relations ms =
     concat (map (\<lambda>m. List.map_filter
        (\<lambda>f. map_option (\<lambda>(target, act). (label m, field_name f, target, act)) (relation (field_type f)))
        (fields m)) ms)"

end
