(* ===== verification/Migrations.thy ===== *)
theory Migrations
  imports Schema "HOL-Library.Multiset"
begin

text \<open>
  The migrations of the applications, one per application, and what running them builds, in
  any order that respects their dependencies. Which other migrations have run and which
  other models exist are parameters.
\<close>

section \<open>Operations\<close>

datatype operation =
    CreateModel string "field list" options
  | AddIndex string "string \<times> string list"
  | AlterUniqueTogether string "string list list"

datatype migration = Migration string string "(string \<times> string) list" "operation list"

definition model_label :: "string \<Rightarrow> string \<Rightarrow> string" where
  "model_label app name = app @ ''.'' @ name"

definition change_model :: "string \<Rightarrow> (options \<Rightarrow> options) \<Rightarrow> model list \<Rightarrow> model list" where
  "change_model l f ms = map (\<lambda>m. if label m = l then Model l (fields m) (f (options m)) else m) ms"

text \<open>
  A model is created once and its relations need their targets, \<open>ext\<close> being the models of
  other applications; an index or a constraint needs its model and the columns it names.
\<close>

fun apply_operation :: "string list \<Rightarrow> string \<Rightarrow> operation \<Rightarrow> model list \<Rightarrow> model list option" where
  "apply_operation ext app (CreateModel name fs opts) ms =
     (let l = model_label app name; known = ext @ l # map label ms
      in if l \<in> set (map label ms) \<or> \<not> distinct (map field_name fs)
            \<or> list_ex (\<lambda>f. case target_of (field_type f) of None \<Rightarrow> False | Some t \<Rightarrow> t \<notin> set known) fs
         then None else Some (ms @ [Model l fs opts]))"
| "apply_operation ext app (AddIndex name ix) ms =
     (let l = model_label app name
      in if list_ex (\<lambda>m. label m = l \<and> list_all (\<lambda>c. c \<in> set (map field_name (fields m))) (snd ix)) ms
         then Some (change_model l (\<lambda>opts. opts\<lparr>o_indexes := o_indexes opts @ [ix]\<rparr>) ms) else None)"
| "apply_operation ext app (AlterUniqueTogether name sets) ms =
     (let l = model_label app name
      in if list_ex (\<lambda>m. label m = l \<and> list_all (\<lambda>c. c \<in> set (map field_name (fields m))) (concat sets)) ms
         then Some (change_model l (\<lambda>opts. opts\<lparr>o_unique_together := sets\<rparr>) ms) else None)"

fun apply_operations :: "string list \<Rightarrow> string \<Rightarrow> operation list \<Rightarrow> model list \<Rightarrow> model list option" where
  "apply_operations ext app [] ms = Some ms"
| "apply_operations ext app (op # ops) ms =
     (case apply_operation ext app op ms of None \<Rightarrow> None | Some ms' \<Rightarrow> apply_operations ext app ops ms')"

type_synonym migration_state = "(string \<times> string) list \<times> model list"

fun apply_migration :: "string list \<Rightarrow> migration \<Rightarrow> migration_state \<Rightarrow> migration_state option" where
  "apply_migration ext (Migration app name deps ops) (applied, ms) =
     (if (app, name) \<in> set applied \<or> \<not> set deps \<subseteq> set applied then None
      else map_option (\<lambda>ms'. (applied @ [(app, name)], ms')) (apply_operations ext app ops ms))"

fun run_migrations :: "string list \<Rightarrow> migration list \<Rightarrow> migration_state \<Rightarrow> migration_state option" where
  "run_migrations ext [] st = Some st"
| "run_migrations ext (m # ms) st =
     (case apply_migration ext m st of None \<Rightarrow> None | Some st' \<Rightarrow> run_migrations ext ms st')"

section \<open>The migrations\<close>

text \<open>
  \<open>swappable_dependency(settings.AUTH_USER_MODEL)\<close> is the first migration of \<open>accounts\<close>.
\<close>

definition accounts_0001 :: migration where
  "accounts_0001 = Migration ''accounts'' ''0001_initial''
     [(''auth'', ''0012_alter_user_first_name_max_length'')]
     [CreateModel ''user''
          [Field ''password'' (CharField 128) [],
           Field ''last_login'' DateTimeField [Blank, Null],
           Field ''is_superuser'' BooleanField [Default (DBool False)],
           Field ''id'' UUIDField [Default DUuid4, NotEditable, PrimaryKey],
           Field ''email'' (EmailField 254) [DbIndex, Unique],
           Field ''first_name'' (CharField 150) [Blank],
           Field ''last_name'' (CharField 150) [Blank],
           Field ''role'' (CharField 20) [Choices [(''organizer'', ''Organizer''),
              (''staff'', ''Staff''), (''attendee'', ''Attendee'')], Default (DStr
              ''attendee'')],
           Field ''is_active'' BooleanField [Default (DBool True)],
           Field ''is_staff'' BooleanField [Default (DBool False)],
           Field ''email_verified'' BooleanField [Default (DBool False)],
           Field ''created_at'' DateTimeField [AutoNowAdd],
           Field ''updated_at'' DateTimeField [AutoNow],
           Field ''groups'' (ManyToManyField ''auth.group'') [Blank, RelatedName ''user_set''],
           Field ''user_permissions'' (ManyToManyField ''auth.permission'') [Blank, RelatedName
              ''user_set'']]
          ((table ''accounts_user'')\<lparr>o_indexes := [(''user_email_active_idx'',
              [''email'', ''is_active''])]\<rparr>)]"

definition companies_0001 :: migration where
  "companies_0001 = Migration ''companies'' ''0001_initial''
     [(''accounts'', ''0001_initial'')]
     [CreateModel ''company''
          [Field ''id'' UUIDField [Default DUuid4, NotEditable, PrimaryKey],
           Field ''name'' (CharField 200) [],
           Field ''slug'' (SlugField 100) [Unique],
           Field ''plan'' (CharField 20) [Choices [(''free'', ''Free''),
              (''starter'', ''Starter''), (''pro'', ''Pro''), (''enterprise'', ''Enterprise'')],
              Default (DStr ''free'')],
           Field ''timezone'' (CharField 50) [Default (DStr ''Africa/Nairobi'')],
           Field ''logo_url'' (URLField 200) [Blank],
           Field ''primary_color'' (CharField 7) [Default (DStr ''#000000'')],
           Field ''is_active'' BooleanField [Default (DBool True)],
           Field ''created_at'' DateTimeField [AutoNowAdd],
           Field ''updated_at'' DateTimeField [AutoNow],
           Field ''owner'' (ForeignKey ''accounts.user'' PROTECT) [LimitTo ''role''
              ''organizer'', RelatedName ''owned_companies'']]
          ((table ''companies_company'')),
      CreateModel ''companymember''
          [Field ''id'' UUIDField [Default DUuid4, NotEditable, PrimaryKey],
           Field ''role'' (CharField 20) [Choices [(''owner'', ''Owner''),
              (''manager'', ''Manager''), (''staff'', ''Staff'')], Default (DStr ''staff'')],
           Field ''joined_at'' DateTimeField [AutoNowAdd],
           Field ''company'' (ForeignKey ''companies.company'' CASCADE) [RelatedName
              ''members''],
           Field ''user'' (ForeignKey ''accounts.user'' CASCADE) [RelatedName ''memberships'']]
          ((table ''companies_member'')),
      AddIndex ''company'' (''company_slug_idx'', [''slug'']),
      AddIndex ''company'' (''company_owner_active_idx'', [''owner'', ''is_active'']),
      AddIndex ''companymember'' (''member_company_role_idx'', [''company'', ''role'']),
      AlterUniqueTogether ''companymember'' [[''company'', ''user'']]]"

definition events_0001 :: migration where
  "events_0001 = Migration ''events'' ''0001_initial''
     [(''companies'', ''0001_initial'')]
     [CreateModel ''event''
          [Field ''id'' UUIDField [Default DUuid4, NotEditable, PrimaryKey],
           Field ''title'' (CharField 300) [],
           Field ''description'' TextField [Blank],
           Field ''venue_name'' (CharField 200) [],
           Field ''venue_address'' TextField [Blank],
           Field ''capacity'' PositiveIntegerField [Default (DInt 0)],
           Field ''status'' (CharField 20) [Choices [(''draft'', ''Draft''),
              (''published'', ''Published''), (''cancelled'', ''Cancelled''),
              (''completed'', ''Completed'')], Default (DStr ''draft'')],
           Field ''cover_image_url'' (URLField 200) [Blank],
           Field ''timezone'' (CharField 50) [Default (DStr ''Africa/Nairobi'')],
           Field ''created_at'' DateTimeField [AutoNowAdd],
           Field ''updated_at'' DateTimeField [AutoNow],
           Field ''company'' (ForeignKey ''companies.company'' CASCADE) [RelatedName ''events'']]
          ((table ''events_event'')),
      CreateModel ''eventdate''
          [Field ''id'' UUIDField [Default DUuid4, NotEditable, PrimaryKey],
           Field ''start_datetime'' DateTimeField [],
           Field ''end_datetime'' DateTimeField [],
           Field ''doors_open'' DateTimeField [Blank, Null],
           Field ''label'' (CharField 100) [Blank],
           Field ''event'' (ForeignKey ''events.event'' CASCADE) [RelatedName ''dates'']]
          ((table ''events_date'')\<lparr>o_ordering := [''start_datetime'']\<rparr>),
      AddIndex ''event'' (''event_company_status_idx'', [''company'', ''status'']),
      AddIndex ''event'' (''event_status_created_idx'', [''status'', ''created_at'']),
      AddIndex ''eventdate'' (''eventdate_event_start_idx'', [''event'', ''start_datetime''])]"

definition inventory_0001 :: migration where
  "inventory_0001 = Migration ''inventory'' ''0001_initial''
     [(''events'', ''0001_initial'')]
     [CreateModel ''tickettier''
          [Field ''id'' UUIDField [Default DUuid4, NotEditable, PrimaryKey],
           Field ''name'' (CharField 100) [],
           Field ''description'' TextField [Blank],
           Field ''price'' (DecimalField 10 2) [],
           Field ''currency'' (CharField 3) [Default (DStr ''KES'')],
           Field ''quantity_total'' PositiveIntegerField [],
           Field ''quantity_held'' PositiveIntegerField [Default (DInt 0)],
           Field ''quantity_sold'' PositiveIntegerField [Default (DInt 0)],
           Field ''max_per_order'' PositiveIntegerField [Default (DInt 10)],
           Field ''sale_starts_at'' DateTimeField [Blank, Null],
           Field ''sale_ends_at'' DateTimeField [Blank, Null],
           Field ''is_active'' BooleanField [Default (DBool True)],
           Field ''sort_order'' PositiveIntegerField [Default (DInt 0)],
           Field ''created_at'' DateTimeField [AutoNowAdd],
           Field ''event'' (ForeignKey ''events.event'' CASCADE) [RelatedName ''tiers'']]
          ((table ''inventory_tier'')\<lparr>o_ordering := [''sort_order'', ''price''],
              o_indexes := [(''tier_event_active_idx'', [''event'', ''is_active'']),
              (''tier_event_price_idx'', [''event'', ''price''])]\<rparr>)]"

definition checkout_0001 :: migration where
  "checkout_0001 = Migration ''checkout'' ''0001_initial''
     [(''inventory'', ''0001_initial''), (''accounts'', ''0001_initial'')]
     [CreateModel ''checkouthold''
          [Field ''id'' UUIDField [Default DUuid4, NotEditable, PrimaryKey],
           Field ''hold_token'' UUIDField [DbIndex, Default DUuid4, Unique],
           Field ''quantity'' PositiveIntegerField [Default (DInt 1)],
           Field ''status'' (CharField 20) [Choices [(''active'', ''Active''),
              (''expired'', ''Expired''), (''confirmed'', ''Confirmed''),
              (''released'', ''Released'')], Default (DStr ''active'')],
           Field ''expires_at'' DateTimeField [],
           Field ''created_at'' DateTimeField [AutoNowAdd],
           Field ''tier'' (ForeignKey ''inventory.tickettier'' CASCADE) [RelatedName ''holds''],
           Field ''user'' (ForeignKey ''accounts.user'' CASCADE) [RelatedName ''holds'']]
          ((table ''checkout_hold'')\<lparr>o_indexes := [(''hold_status_expiry_idx'',
              [''status'', ''expires_at'']), (''hold_user_tier_status_idx'', [''user'',
              ''tier'', ''status''])]\<rparr>)]"

definition payments_0001 :: migration where
  "payments_0001 = Migration ''payments'' ''0001_initial''
     [(''checkout'', ''0001_initial''), (''companies'', ''0001_initial''), (''accounts'', ''0001_initial'')]
     [CreateModel ''payment''
          [Field ''id'' UUIDField [Default DUuid4, NotEditable, PrimaryKey],
           Field ''provider'' (CharField 20) [Choices [(''lemon_squeezy'', ''LemonSqueezy''),
              (''mpesa'', ''M-Pesa'')]],
           Field ''provider_payment_id'' (CharField 200) [DbIndex, Unique],
           Field ''idempotency_key'' (CharField 200) [DbIndex, Unique],
           Field ''amount'' (DecimalField 12 2) [],
           Field ''currency'' (CharField 3) [Default (DStr ''KES'')],
           Field ''status'' (CharField 20) [Choices [(''pending'', ''Pending''),
              (''processing'', ''Processing''), (''succeeded'', ''Succeeded''),
              (''failed'', ''Failed''), (''refunded'', ''Refunded''),
              (''disputed'', ''Disputed'')], Default (DStr ''pending'')],
           Field ''provider_response'' JSONField [Default DDict],
           Field ''created_at'' DateTimeField [AutoNowAdd],
           Field ''updated_at'' DateTimeField [AutoNow],
           Field ''company'' (ForeignKey ''companies.company'' PROTECT) [RelatedName
              ''payments''],
           Field ''hold'' (OneToOneField ''checkout.checkouthold'' PROTECT) [Blank, Null,
              RelatedName ''payment''],
           Field ''user'' (ForeignKey ''accounts.user'' PROTECT) [RelatedName ''payments'']]
          ((table ''payments_payment'')\<lparr>o_indexes :=
              [(''payment_company_status_idx'', [''company'', ''status'', ''created_at'']),
              (''payment_user_status_idx'', [''user'', ''status''])]\<rparr>)]"

definition tickets_0001 :: migration where
  "tickets_0001 = Migration ''tickets'' ''0001_initial''
     [(''checkout'', ''0001_initial''), (''inventory'', ''0001_initial''), (''payments'', ''0001_initial''), (''accounts'', ''0001_initial'')]
     [CreateModel ''ticket''
          [Field ''id'' UUIDField [Default DUuid4, NotEditable, PrimaryKey],
           Field ''status'' (CharField 20) [Choices [(''issued'', ''Issued''),
              (''checked_in'', ''Checked In''), (''cancelled'', ''Cancelled''),
              (''transferred'', ''Transferred'')], Default (DStr ''issued'')],
           Field ''qr_fingerprint'' (CharField 64) [DbIndex, Unique],
           Field ''issued_at'' DateTimeField [AutoNowAdd],
           Field ''checked_in_at'' DateTimeField [Blank, Null],
           Field ''attendee'' (ForeignKey ''accounts.user'' PROTECT) [RelatedName ''tickets''],
           Field ''hold'' (OneToOneField ''checkout.checkouthold'' PROTECT) [Blank, Null,
              RelatedName ''ticket''],
           Field ''payment'' (ForeignKey ''payments.payment'' PROTECT) [Blank, Null, RelatedName
              ''tickets''],
           Field ''tier'' (ForeignKey ''inventory.tickettier'' PROTECT) [RelatedName
              ''tickets'']]
          ((table ''tickets_ticket'')\<lparr>o_indexes := [(''ticket_tier_status_idx'',
              [''tier'', ''status'']), (''ticket_attendee_status_idx'', [''attendee'',
              ''status''])]\<rparr>)]"

definition checkin_0001 :: migration where
  "checkin_0001 = Migration ''checkin'' ''0001_initial''
     [(''tickets'', ''0001_initial''), (''accounts'', ''0001_initial'')]
     [CreateModel ''checkin''
          [Field ''id'' UUIDField [Default DUuid4, NotEditable, PrimaryKey],
           Field ''gate'' (CharField 100) [Default (DStr ''Main'')],
           Field ''scanned_at'' DateTimeField [AutoNowAdd],
           Field ''device_id'' (CharField 100) [Blank],
           Field ''scanned_by'' (ForeignKey ''accounts.user'' PROTECT) [RelatedName
              ''checkins_performed''],
           Field ''ticket'' (OneToOneField ''tickets.ticket'' PROTECT) [RelatedName ''checkin'']]
          ((table ''checkin_checkin'')\<lparr>o_indexes := [(''checkin_ticket_time_idx'',
              [''ticket'', ''scanned_at''])]\<rparr>)]"

definition webhooks_0001 :: migration where
  "webhooks_0001 = Migration ''webhooks'' ''0001_initial''
     []
     [CreateModel ''webhookevent''
          [Field ''id'' UUIDField [Default DUuid4, NotEditable, PrimaryKey],
           Field ''provider'' (CharField 50) [],
           Field ''event_type'' (CharField 100) [],
           Field ''provider_event_id'' (CharField 200) [DbIndex, Unique],
           Field ''payload'' JSONField [],
           Field ''processed'' BooleanField [Default (DBool False)],
           Field ''processing_error'' TextField [Blank],
           Field ''received_at'' DateTimeField [AutoNowAdd],
           Field ''processed_at'' DateTimeField [Blank, Null]]
          ((table ''webhooks_event'')\<lparr>o_indexes := [(''webhook_provider_type_idx'',
              [''provider'', ''event_type'', ''processed'']), (''webhook_event_id_idx'',
              [''provider_event_id''])]\<rparr>)]"

definition audit_0001 :: migration where
  "audit_0001 = Migration ''audit'' ''0001_initial''
     [(''contenttypes'', ''0002_remove_content_type_name''), (''accounts'', ''0001_initial'')]
     [CreateModel ''auditlog''
          [Field ''id'' UUIDField [Default DUuid4, NotEditable, PrimaryKey],
           Field ''action'' (CharField 100) [],
           Field ''object_id'' UUIDField [Blank, Null],
           Field ''metadata'' JSONField [Default DDict],
           Field ''ip_address'' GenericIPAddressField [Blank, Null],
           Field ''created_at'' DateTimeField [AutoNowAdd],
           Field ''actor'' (ForeignKey ''accounts.user'' SET_NULL) [Blank, Null, RelatedName
              ''audit_logs''],
           Field ''content_type'' (ForeignKey ''contenttypes.contenttype'' CASCADE) [Blank,
              Null]]
          ((table ''audit_log'')\<lparr>o_ordering := [''-created_at''], o_indexes :=
              [(''audit_action_time_idx'', [''action'', ''created_at'']),
              (''audit_entity_idx'', [''content_type'', ''object_id'', ''created_at'']),
              (''audit_actor_time_idx'', [''actor'', ''created_at''])], o_permissions :=
              [''add'', ''view'']\<rparr>)]"

definition project_migrations :: "migration list" where
  "project_migrations =
     [accounts_0001, companies_0001, events_0001, inventory_0001, checkout_0001,
         payments_0001, tickets_0001, checkin_0001, webhooks_0001, audit_0001]"

section \<open>Agreement\<close>

text \<open>
  Attributes are keyword arguments, so their order does not count; nor does the order of the
  columns and of the indexes. A slug is indexed by default.
\<close>

definition same_members :: "'a list \<Rightarrow> 'a list \<Rightarrow> bool" where
  "same_members xs ys \<longleftrightarrow> length xs = length ys \<and> list_all (\<lambda>x. x \<in> set ys) xs \<and> list_all (\<lambda>y. y \<in> set xs) ys"

fun normal_field :: "field \<Rightarrow> field" where
  "normal_field (Field n (SlugField k) attrs) = Field n (SlugField k) (filter (\<lambda>a. a \<noteq> DbIndex) attrs)"
| "normal_field f = f"

definition field_agrees :: "field \<Rightarrow> field \<Rightarrow> bool" where
  "field_agrees f g \<longleftrightarrow> field_name f = field_name g \<and> field_type f = field_type g
     \<and> same_members (attributes (normal_field f)) (attributes (normal_field g))"

definition fields_agree :: "field list \<Rightarrow> field list \<Rightarrow> bool" where
  "fields_agree fs gs \<longleftrightarrow> length fs = length gs
     \<and> list_all (\<lambda>f. list_ex (field_agrees f) gs) fs \<and> list_all (\<lambda>g. list_ex (field_agrees g) fs) gs"

definition model_agrees :: "model \<Rightarrow> model \<Rightarrow> bool" where
  "model_agrees m m' \<longleftrightarrow> label m = label m' \<and> fields_agree (fields m) (fields m')
     \<and> o_table (options m) = o_table (options m') \<and> o_ordering (options m) = o_ordering (options m')
     \<and> o_unique_together (options m) = o_unique_together (options m')
     \<and> same_members (o_indexes (options m)) (o_indexes (options m'))
     \<and> o_permissions (options m) = o_permissions (options m')"

definition schema_agrees :: "model list \<Rightarrow> model list \<Rightarrow> bool" where
  "schema_agrees ms ms' \<longleftrightarrow> length ms = length ms' \<and> list_all (\<lambda>m. list_ex (model_agrees m) ms') ms
     \<and> list_all (\<lambda>m'. list_ex (\<lambda>m. model_agrees m m') ms) ms'"

text \<open>
  What the base classes of the user give it according to Django's documentation of
  \<open>AbstractBaseUser\<close> and \<open>PermissionsMixin\<close>: not code of the repository, and independent of
  its migrations.
\<close>

definition inherited_fields :: "field list" where
  "inherited_fields =
     [Field ''password'' (CharField 128) [],
      Field ''last_login'' DateTimeField [Blank, Null],
      Field ''is_superuser'' BooleanField [Default (DBool False)],
      Field ''groups'' (ManyToManyField ''auth.group'') [Blank, RelatedName ''user_set''],
      Field ''user_permissions'' (ManyToManyField ''auth.permission'') [Blank, RelatedName ''user_set'']]"

text \<open>The models that exist once a migration of Django has run, as far as the project refers to them.\<close>

definition django_provides :: "((string \<times> string) \<times> string list) list" where
  "django_provides =
     [((''auth'', ''0012_alter_user_first_name_max_length''), [''auth.group'', ''auth.permission'']),
      ((''contenttypes'', ''0002_remove_content_type_name''), [''contenttypes.contenttype''])]"

section \<open>Orders of migrations\<close>

fun migration_key :: "migration \<Rightarrow> string \<times> string" where
  "migration_key (Migration app name deps ops) = (app, name)"

fun dependencies :: "migration \<Rightarrow> (string \<times> string) list" where
  "dependencies (Migration app name deps ops) = deps"

text \<open>Every migration comes after those it depends on.\<close>

fun dependency_ordered :: "(string \<times> string) list \<Rightarrow> migration list \<Rightarrow> bool" where
  "dependency_ordered applied [] = True"
| "dependency_ordered applied (m # ms) =
     (set (dependencies m) \<subseteq> set applied \<and> dependency_ordered (applied @ [migration_key m]) ms)"

text \<open>
  A database the migrations can be run on: none of them has run, none of their models is
  there, and a migration of Django that has run left its models.
\<close>

definition ready_for :: "string list \<Rightarrow> migration_state \<Rightarrow> bool" where
  "ready_for ext st \<longleftrightarrow>
     list_all (\<lambda>m. migration_key m \<notin> set (fst st)) project_migrations
     \<and> list_all (\<lambda>m. label m \<notin> set (map label (declared_models inherited_fields))) (snd st)
     \<and> list_all (\<lambda>(k, ls). k \<in> set (fst st) \<longrightarrow> set ls \<subseteq> set ext) django_provides"

section \<open>A migration by itself\<close>

fun operation_model :: "operation \<Rightarrow> string" where
  "operation_model (CreateModel n fs opts) = n"
| "operation_model (AddIndex n ix) = n"
| "operation_model (AlterUniqueTogether n sets) = n"

fun operation_targets :: "operation \<Rightarrow> string list" where
  "operation_targets (CreateModel n fs opts) = List.map_filter (\<lambda>f. target_of (field_type f)) fs"
| "operation_targets op = []"

fun migration_labels :: "migration \<Rightarrow> string list" where
  "migration_labels (Migration app name deps ops) =
     remdups (map (\<lambda>op. model_label app (operation_model op)) ops)"

text \<open>The models of other applications it refers to.\<close>

fun foreign_targets :: "migration \<Rightarrow> string list" where
  "foreign_targets (Migration app name deps ops) =
     filter (\<lambda>t. t \<notin> set (map (\<lambda>op. model_label app (operation_model op)) ops)) (concat (map operation_targets ops))"

fun run_alone :: "migration \<Rightarrow> model list option" where
  "run_alone (Migration app name deps ops) =
     apply_operations (foreign_targets (Migration app name deps ops)) app ops []"

definition built :: "migration \<Rightarrow> model list" where
  "built m = (case run_alone m of None \<Rightarrow> [] | Some ms \<Rightarrow> ms)"

text \<open>
  Operations leave the models of other applications alone, and all they need of these is
  that the targets exist.
\<close>

lemma change_model_append [simp]: "change_model l f (ms @ ms') = change_model l f ms @ change_model l f ms'"
  by (simp add: change_model_def)

lemma change_model_other: "l \<notin> label ` set ms \<Longrightarrow> change_model l f ms = ms"
  by (auto simp: change_model_def intro!: map_idI)

lemma apply_operation_frame:
  assumes "apply_operation ext' app op own = Some own'"
    and "model_label app (operation_model op) \<notin> label ` set ms"
    and "set ext' \<subseteq> set ext \<union> label ` set ms"
  shows "apply_operation ext app op (ms @ own) = Some (ms @ own')"
proof (cases op)
  case (CreateModel n fs opts)
  have "t \<notin> set ext' \<and> t \<noteq> model_label app n \<and> t \<notin> label ` set own"
    if "t \<notin> set ext" "t \<notin> label ` set ms" "t \<noteq> model_label app n" "t \<notin> label ` set own" for t
    using assms(3) that by auto
  with assms(1,2) show ?thesis
    unfolding CreateModel
    by (simp add: Let_def list_ex_iff split: if_splits option.splits) (metis option.exhaust)
qed (use assms(1,2) in \<open>auto simp: Let_def change_model_other split: if_splits\<close>)

lemma apply_operations_frame:
  assumes "apply_operations ext' app ops own = Some own'"
    and "\<And>op. op \<in> set ops \<Longrightarrow> model_label app (operation_model op) \<notin> label ` set ms"
    and "set ext' \<subseteq> set ext \<union> label ` set ms"
  shows "apply_operations ext app ops (ms @ own) = Some (ms @ own')"
  using assms
proof (induction ops arbitrary: own)
  case (Cons op ops)
  then obtain own1 where "apply_operation ext' app op own = Some own1" "apply_operations ext' app ops own1 = Some own'"
    by (auto split: option.splits)
  with Cons show ?case by (simp add: apply_operation_frame [OF _ Cons.prems(2) Cons.prems(3)])
qed simp

text \<open>
  A migration that runs by itself runs in a database which has its targets and none of its
  models, and adds what it builds by itself.
\<close>

lemma apply_migration_frame:
  assumes "run_alone m \<noteq> None"
    and "migration_key m \<notin> set applied" and "set (dependencies m) \<subseteq> set applied"
    and "set (migration_labels m) \<inter> label ` set ms = {}"
    and "set (foreign_targets m) \<subseteq> set ext \<union> label ` set ms"
  shows "apply_migration ext m (applied, ms) = Some (applied @ [migration_key m], ms @ built m)"
proof -
  obtain app name deps ops where m: "m = Migration app name deps ops" by (cases m)
  have "apply_operations ext app ops (ms @ []) = Some (ms @ built m)"
    by (rule apply_operations_frame [of "foreign_targets m"]) (use assms in \<open>auto simp: m built_def\<close>)
  with assms(2,3) show ?thesis by (simp add: m)
qed

section \<open>The project's migrations\<close>

text \<open>
  What is computed of the ten migrations: each runs by itself and builds the models it
  names; no two build the same one; and whatever one refers to is built by a migration it
  declares to depend on.
\<close>

definition targets_from :: "(string \<times> string) list \<Rightarrow> string \<Rightarrow> bool" where
  "targets_from deps t \<longleftrightarrow>
     list_ex (\<lambda>(k, ls). k \<in> set deps \<and> t \<in> set ls) django_provides
     \<or> list_ex (\<lambda>m. migration_key m \<in> set deps \<and> t \<in> set (map label (built m))) project_migrations"

lemma project_alone:
  "list_all (\<lambda>m. run_alone m \<noteq> None \<and> set (map label (built m)) = set (migration_labels m)) project_migrations"
  by code_simp

lemma project_targets:
  "list_all (\<lambda>m. list_all (targets_from (dependencies m)) (foreign_targets m)) project_migrations"
  by code_simp

lemma project_distinct:
  "distinct (map migration_key project_migrations)"
  "distinct (concat (map migration_labels project_migrations))"
  "list_all (\<lambda>(k, ls). k \<notin> set (map migration_key project_migrations)) django_provides"
  "set (concat (map migration_labels project_migrations)) \<subseteq> set (map label (declared_models inherited_fields))"
  by code_simp+

lemma project_schema: "schema_agrees (concat (map built project_migrations)) (declared_models inherited_fields)"
  by code_simp

section \<open>Any order\<close>

lemma distinct_concat_disjoint:
  "distinct (concat (map f xs)) \<Longrightarrow> x \<in> set xs \<Longrightarrow> y \<in> set xs \<Longrightarrow> x \<noteq> y \<Longrightarrow> set (f x) \<inter> set (f y) = {}"
  by (induction xs) auto

text \<open>One migration after some others, all its dependencies having run.\<close>

lemma project_step:
  assumes ready: "ready_for ext (applied, others)" and m: "m \<in> set project_migrations"
    and before: "set before \<subseteq> set project_migrations" and new: "migration_key m \<notin> migration_key ` set before"
    and deps: "set (dependencies m) \<subseteq> set (applied @ map migration_key before)"
  shows "apply_migration ext m (applied @ map migration_key before, others @ concat (map built before))
    = Some (applied @ map migration_key (before @ [m]), others @ concat (map built (before @ [m])))"
proof -
  let ?ms = "others @ concat (map built before)"
  have alone: "run_alone x \<noteq> None" "label ` set (built x) = set (migration_labels x)" if "x \<in> set project_migrations" for x
    using project_alone that by (simp_all add: list_all_iff)
  have fresh: "migration_key x \<notin> set applied" if "x \<in> set project_migrations" for x
    using ready that by (simp add: ready_for_def list_all_iff)
  have "set (migration_labels m) \<subseteq> set (map label (declared_models inherited_fields))"
    using project_distinct(4) m by auto
  moreover have "label x \<notin> set (map label (declared_models inherited_fields))" if "x \<in> set others" for x
    using ready that unfolding ready_for_def list_all_iff snd_conv by blast
  ultimately have "label ` set others \<inter> set (migration_labels m) = {}" by blast
  moreover have "set (migration_labels x) \<inter> set (migration_labels m) = {}" if "x \<in> set before" for x
    by (rule distinct_concat_disjoint [OF project_distinct(2)]) (use that before new m in auto)
  then have "label ` set (built x) \<inter> set (migration_labels m) = {}" if "x \<in> set before" for x
    using alone(2) that before by blast
  ultimately have "set (migration_labels m) \<inter> label ` set ?ms = {}" by fastforce
  moreover have "set (foreign_targets m) \<subseteq> set ext \<union> label ` set ?ms"
  proof
    fix t assume that: "t \<in> set (foreign_targets m)"
    have "targets_from (dependencies m) t" using project_targets m that by (simp add: list_all_iff)
    then consider (django) k ls where "(k, ls) \<in> set django_provides" "k \<in> set (dependencies m)" "t \<in> set ls"
      | (own) x where "x \<in> set project_migrations" "migration_key x \<in> set (dependencies m)" "t \<in> label ` set (built x)"
      by (auto simp: targets_from_def list_ex_iff)
    then show "t \<in> set ext \<union> label ` set ?ms"
    proof cases
      case django
      then have "k \<notin> migration_key ` set project_migrations" using project_distinct(3) by (auto simp: list_all_iff)
      then have "k \<in> set applied" using deps django(2) before by auto
      then show ?thesis using ready django by (fastforce simp: ready_for_def list_all_iff)
    next
      case own
      then have "migration_key x \<in> migration_key ` set before" using deps fresh by auto
      then have "x \<in> set before"
        using project_distinct(1) own(1) before by (auto dest: inj_onD simp: distinct_map)
      with own(3) show ?thesis by auto
    qed
  qed
  moreover have "migration_key m \<notin> set (applied @ map migration_key before)" using fresh [OF m] new by simp
  ultimately show ?thesis
    using apply_migration_frame [OF alone(1) [OF m] _ deps, of ?ms ext] by simp
qed

lemma project_run:
  assumes "ready_for ext (applied, others)"
  shows "set (before @ rest) \<subseteq> set project_migrations \<Longrightarrow> distinct (map migration_key (before @ rest)) \<Longrightarrow>
    dependency_ordered (applied @ map migration_key before) rest \<Longrightarrow>
    run_migrations ext rest (applied @ map migration_key before, others @ concat (map built before))
      = Some (applied @ map migration_key (before @ rest), others @ concat (map built (before @ rest)))"
proof (induction rest arbitrary: before)
  case (Cons m rest)
  from Cons.prems have "apply_migration ext m (applied @ map migration_key before, others @ concat (map built before))
    = Some (applied @ map migration_key (before @ [m]), others @ concat (map built (before @ [m])))"
    by (intro project_step [OF assms]) auto
  moreover from Cons.prems have "run_migrations ext rest
      (applied @ map migration_key (before @ [m]), others @ concat (map built (before @ [m])))
    = Some (applied @ map migration_key (before @ [m] @ rest), others @ concat (map built (before @ [m] @ rest)))"
    by (simp only: append_assoc [symmetric], intro Cons.IH) simp_all
  ultimately show ?case by (simp del: map_append concat_append)
qed simp

lemma run_needs_order: "run_migrations ext ms st = Some st' \<Longrightarrow> dependency_ordered (fst st) ms"
proof (induction ms arbitrary: st)
  case (Cons m ms)
  obtain app name deps ops where m: "m = Migration app name deps ops" by (cases m)
  from Cons.prems obtain st1 where st1: "apply_migration ext m st = Some st1" "run_migrations ext ms st1 = Some st'"
    by (auto split: option.splits)
  then have "set deps \<subseteq> set (fst st)" "fst st1 = fst st @ [(app, name)]"
    by (cases st; auto simp: m split: if_splits)+
  with Cons.IH [OF st1(2)] show ?case by (simp add: m)
qed simp

lemma schema_agrees_mset: "mset ms = mset ns \<Longrightarrow> schema_agrees ms d = schema_agrees ns d"
  by (auto simp: schema_agrees_def list_all_iff list_ex_iff dest: mset_eq_setD mset_eq_length)

lemma mset_concat_map: "mset xs = mset ys \<Longrightarrow> mset (concat (map f xs)) = mset (concat (map f ys))"
  by (simp add: mset_concat sum_mset_sum_list [symmetric])

section \<open>Property\<close>

text \<open>
  C38: The ten migrations run in exactly the orders that respect their declared dependencies,
  so these name every table a migration needs, and whatever the order they add to a database
  exactly the schema that the model classes declare: no class, column, type, default,
  relation, index or constraint is missing, different or left over. What else the database
  holds stays as it was.
\<close>

theorem migrations_build_models:
  assumes "mset ms = mset project_migrations" and "ready_for ext (applied, others)"
  shows "case run_migrations ext ms (applied, others) of
      None \<Rightarrow> \<not> dependency_ordered applied ms
    | Some (applied', models) \<Rightarrow> dependency_ordered applied ms \<and> applied' = applied @ map migration_key ms
        \<and> (\<exists>new. models = others @ new \<and> schema_agrees new (declared_models inherited_fields))"
proof (cases "dependency_ordered applied ms")
  case True
  have "mset (map migration_key ms) = mset (map migration_key project_migrations)" using assms(1) by simp
  then have "distinct (map migration_key ms)"
    using mset_eq_imp_distinct_iff project_distinct(1) by blast
  then have "run_migrations ext ms (applied, others) = Some (applied @ map migration_key ms, others @ concat (map built ms))"
    using project_run [OF assms(2), of "[]" ms] True mset_eq_setD [OF assms(1)] by simp
  moreover have "schema_agrees (concat (map built ms)) (declared_models inherited_fields)"
    using project_schema schema_agrees_mset [OF mset_concat_map [OF assms(1)]] by simp
  ultimately show ?thesis using True by simp
next
  case False
  then have "run_migrations ext ms (applied, others) = None"
    using run_needs_order [of ext ms "(applied, others)"] by (cases "run_migrations ext ms (applied, others)") auto
  with False show ?thesis by simp
qed

text \<open>The audit log and the webhooks before everything they do not need.\<close>

definition other_order :: "migration list" where
  "other_order = [webhooks_0001, accounts_0001, audit_0001, companies_0001, events_0001, inventory_0001, checkout_0001,
     payments_0001, tickets_0001, checkin_0001]"

theorem migrations_build_models_witness:
  "\<exists>applied new. run_migrations (concat (map snd django_provides)) other_order (map fst django_provides, []) = Some (applied, new)
     \<and> schema_agrees new (declared_models inherited_fields)"
proof -
  have "mset other_order = mset project_migrations"
    by (simp add: other_order_def project_migrations_def add_mset_commute)
  moreover have "ready_for (concat (map snd django_provides)) (map fst django_provides, [])" by code_simp
  ultimately have "case run_migrations (concat (map snd django_provides)) other_order (map fst django_provides, []) of
      None \<Rightarrow> \<not> dependency_ordered (map fst django_provides) other_order
    | Some (applied', models) \<Rightarrow> dependency_ordered (map fst django_provides) other_order
        \<and> applied' = map fst django_provides @ map migration_key other_order
        \<and> (\<exists>new. models = [] @ new \<and> schema_agrees new (declared_models inherited_fields))"
    by (rule migrations_build_models)
  moreover have "dependency_ordered (map fst django_provides) other_order" by code_simp
  ultimately show ?thesis by (auto split: option.splits)
qed

end
