(* ===== verification/Deletion.thy ===== *)
theory Deletion
  imports Migrations
begin

text \<open>
  What the \<open>on_delete\<close> clauses of the models make of the deletion of a row, over any
  content of the tables: the rows that go with it, the deletions that are refused, and the
  references that are cleared. The rules of the three clauses are those Django documents.
\<close>

section \<open>Rows and references\<close>

text \<open>A row is named by its model and its primary key; \<open>ref\<close> is the value of a relation column.\<close>

type_synonym row = "string \<times> uuid"

type_synonym relation_spec = "string \<times> string \<times> string \<times> on_delete"

record tables =
  rows :: "row list"
  ref :: "row \<Rightarrow> string \<Rightarrow> uuid option"

definition refers :: "relation_spec list \<Rightarrow> tables \<Rightarrow> on_delete \<Rightarrow> row list \<Rightarrow> row \<Rightarrow> bool" where
  "refers R S act targets x \<longleftrightarrow>
     list_ex (\<lambda>(l, f, t, a). l = fst x \<and> a = act
        \<and> (case ref S x f of None \<Rightarrow> False | Some j \<Rightarrow> (t, j) \<in> set targets)) R"

section \<open>Deletion\<close>

text \<open>
  The rows that refer to what is collected so far by a cascade are collected too, until no
  more are found; there are at most as many rounds as rows.
\<close>

fun collect :: "relation_spec list \<Rightarrow> tables \<Rightarrow> nat \<Rightarrow> row list \<Rightarrow> row list" where
  "collect R S 0 acc = acc"
| "collect R S (Suc n) acc =
     collect R S n (acc @ filter (\<lambda>x. x \<notin> set acc \<and> refers R S CASCADE acc x) (rows S))"

definition collected :: "relation_spec list \<Rightarrow> tables \<Rightarrow> row \<Rightarrow> row list" where
  "collected R S r = collect R S (length (rows S)) [r]"

definition cleared :: "relation_spec list \<Rightarrow> tables \<Rightarrow> row list \<Rightarrow> row \<Rightarrow> string \<Rightarrow> bool" where
  "cleared R S gone x f \<longleftrightarrow>
     list_ex (\<lambda>(l, f', t, a). l = fst x \<and> f' = f \<and> a = SET_NULL
        \<and> (case ref S x f of None \<Rightarrow> False | Some j \<Rightarrow> (t, j) \<in> set gone)) R"

text \<open>\<open>None\<close> is a \<open>ProtectedError\<close>.\<close>

definition delete_row :: "relation_spec list \<Rightarrow> row \<Rightarrow> tables \<Rightarrow> tables option" where
  "delete_row R r S =
     (let gone = collected R S r
      in if list_ex (refers R S PROTECT gone) (rows S) then None
         else Some \<lparr>rows = filter (\<lambda>x. x \<notin> set gone) (rows S),
                    ref = (\<lambda>x f. if cleared R S gone x f then None else ref S x f)\<rparr>)"

lemma refersI:
  "(fst x, f, t, act) \<in> set R \<Longrightarrow> ref S x f = Some j \<Longrightarrow> (t, j) \<in> set targets \<Longrightarrow> refers R S act targets x"
  unfolding refers_def list_ex_iff by (rule bexI) simp_all

lemma clearedI:
  "(fst x, f, t, SET_NULL) \<in> set R \<Longrightarrow> ref S x f = Some j \<Longrightarrow> (t, j) \<in> set gone \<Longrightarrow> cleared R S gone x f"
  unfolding cleared_def list_ex_iff by (rule bexI) simp_all

section \<open>The rounds suffice\<close>

definition closed :: "relation_spec list \<Rightarrow> tables \<Rightarrow> row list \<Rightarrow> bool" where
  "closed R S acc \<longleftrightarrow> (\<forall>x\<in>set (rows S). refers R S CASCADE acc x \<longrightarrow> x \<in> set acc)"

lemma collect_closed_id: "closed R S acc \<Longrightarrow> collect R S n acc = acc"
proof (induction n)
  case (Suc n)
  have "filter (\<lambda>x. x \<notin> set acc \<and> refers R S CASCADE acc x) (rows S) = []"
    using Suc.prems by (auto simp: closed_def filter_empty_conv)
  with Suc show ?case by simp
qed simp

lemma collect_closed:
  assumes "distinct (rows S)" and "distinct acc" and "set acc \<subseteq> set (rows S)"
    and "length (rows S) \<le> n + length acc"
  shows "closed R S (collect R S n acc)"
  using assms(2-)
proof (induction n arbitrary: acc)
  case 0
  have "card (set (rows S)) \<le> card (set acc)"
    using 0 assms(1) by (simp add: distinct_card)
  then have "set acc = set (rows S)" using 0(2) by (intro card_seteq) simp_all
  then show ?case by (simp add: closed_def)
next
  case (Suc n)
  let ?new = "filter (\<lambda>x. x \<notin> set acc \<and> refers R S CASCADE acc x) (rows S)"
  show ?case
  proof (cases "?new = []")
    case True
    then have "closed R S acc" by (auto simp: closed_def filter_empty_conv)
    then show ?thesis by (simp only: collect_closed_id)
  next
    case False
    then have "length ?new \<noteq> 0" by (simp only: length_0_conv not_False_eq_True)
    then have "length (rows S) \<le> n + length (acc @ ?new)"
      using Suc.prems(3) unfolding length_append by linarith
    moreover have "distinct (acc @ ?new)" "set (acc @ ?new) \<subseteq> set (rows S)"
      using Suc.prems assms(1) by auto
    ultimately show ?thesis using Suc.IH [of "acc @ ?new"] by simp
  qed
qed

lemma collected_closed:
  assumes "distinct (rows S)" and "r \<in> set (rows S)"
  shows "closed R S (collected R S r)"
  unfolding collected_def by (rule collect_closed [OF assms(1)]) (use assms(2) in simp_all)

text \<open>Besides the row itself only rows with a cascading column are collected.\<close>

lemma mem_collect:
  "x \<in> set (collect R S n acc) \<Longrightarrow> x \<in> set acc \<or> (\<exists>f t. (fst x, f, t, CASCADE) \<in> set R)"
proof (induction n arbitrary: acc)
  case (Suc n)
  then have "x \<in> set acc \<or> refers R S CASCADE acc x \<or> (\<exists>f t. (fst x, f, t, CASCADE) \<in> set R)"
    by fastforce
  then show ?case by (auto simp: refers_def list_ex_iff)
qed simp

section \<open>The relations of the project\<close>

lemma project_relations:
  "relations (declared_models inherited_fields) =
     [(''companies.company'', ''owner'', ''accounts.user'', PROTECT),
      (''companies.companymember'', ''company'', ''companies.company'', CASCADE),
      (''companies.companymember'', ''user'', ''accounts.user'', CASCADE),
      (''events.event'', ''company'', ''companies.company'', CASCADE),
      (''events.eventdate'', ''event'', ''events.event'', CASCADE),
      (''inventory.tickettier'', ''event'', ''events.event'', CASCADE),
      (''checkout.checkouthold'', ''user'', ''accounts.user'', CASCADE),
      (''checkout.checkouthold'', ''tier'', ''inventory.tickettier'', CASCADE),
      (''payments.payment'', ''hold'', ''checkout.checkouthold'', PROTECT),
      (''payments.payment'', ''user'', ''accounts.user'', PROTECT),
      (''payments.payment'', ''company'', ''companies.company'', PROTECT),
      (''tickets.ticket'', ''hold'', ''checkout.checkouthold'', PROTECT),
      (''tickets.ticket'', ''payment'', ''payments.payment'', PROTECT),
      (''tickets.ticket'', ''tier'', ''inventory.tickettier'', PROTECT),
      (''tickets.ticket'', ''attendee'', ''accounts.user'', PROTECT),
      (''checkin.checkin'', ''ticket'', ''tickets.ticket'', PROTECT),
      (''checkin.checkin'', ''scanned_by'', ''accounts.user'', PROTECT),
      (''audit.auditlog'', ''actor'', ''accounts.user'', SET_NULL),
      (''audit.auditlog'', ''content_type'', ''contenttypes.contenttype'', CASCADE)]"
  by code_simp

section \<open>Property\<close>

definition refs_ok :: "relation_spec list \<Rightarrow> tables \<Rightarrow> bool" where
  "refs_ok R S \<longleftrightarrow>
     (\<forall>x\<in>set (rows S). \<forall>(l, f, t, a)\<in>set R. \<forall>j. l = fst x \<longrightarrow> ref S x f = Some j \<longrightarrow> (t, j) \<in> set (rows S))"

lemma delete_row_refs_ok:
  assumes ok: "refs_ok R S" and "distinct (rows S)" and "r \<in> set (rows S)" and del: "delete_row R r S = Some S'"
  shows "refs_ok R S'"
proof -
  let ?gone = "collected R S r"
  have S': "rows S' = filter (\<lambda>x. x \<notin> set ?gone) (rows S)"
    "ref S' = (\<lambda>x f. if cleared R S ?gone x f then None else ref S x f)"
    and unprotected: "\<not> list_ex (refers R S PROTECT ?gone) (rows S)"
    using del by (auto simp: delete_row_def Let_def split: if_splits)
  have "(t, j) \<in> set (rows S')"
    if x: "x \<in> set (rows S')" and rel: "(fst x, f, t, a) \<in> set R" and j: "ref S' x f = Some j" for x f t a j
  proof -
    have x_S: "x \<in> set (rows S)" "x \<notin> set ?gone" using x by (simp_all add: S')
    have j_S: "ref S x f = Some j" "\<not> cleared R S ?gone x f" using j by (auto simp: S' split: if_splits)
    have "(t, j) \<in> set (rows S)" using ok x_S(1) rel j_S(1) by (fastforce simp: refs_ok_def)
    moreover have "(t, j) \<notin> set ?gone"
    proof
      assume hit: "(t, j) \<in> set ?gone"
      show False
      proof (cases a)
        case CASCADE
        then have "refers R S CASCADE ?gone x" using rel j_S(1) hit by (intro refersI) simp_all
        then show False using collected_closed [OF assms(2,3)] x_S by (auto simp: closed_def)
      next
        case PROTECT
        then have "refers R S PROTECT ?gone x" using rel j_S(1) hit by (intro refersI) simp_all
        then show False using unprotected x_S(1) by (auto simp: list_ex_iff)
      next
        case SET_NULL
        then have "cleared R S ?gone x f" using rel j_S(1) hit by (intro clearedI) simp_all
        with j_S(2) show False by contradiction
      qed
    qed
    ultimately show ?thesis by (simp add: S')
  qed
  then show ?thesis unfolding refs_ok_def by blast
qed

text \<open>
  C40: Deleting a row never breaks a reference, and never takes a payment, a ticket or a
  check-in with it: such a row, like a user or a company, disappears only when it is the one
  deleted. So a deletion that would leave one of them without what it refers to is refused.
\<close>

theorem deletion_keeps_references:
  assumes "refs_ok (relations (declared_models inherited_fields)) S" and "distinct (rows S)" and "r \<in> set (rows S)"
    and "delete_row (relations (declared_models inherited_fields)) r S = Some S'"
  shows "refs_ok (relations (declared_models inherited_fields)) S'
    \<and> (x \<in> set (rows S) \<and> x \<noteq> r
        \<and> fst x \<in> {''payments.payment'', ''tickets.ticket'', ''checkin.checkin'', ''accounts.user'', ''companies.company''}
       \<longrightarrow> x \<in> set (rows S'))
    \<and> r \<notin> set (rows S')"
proof -
  let ?R = "relations (declared_models inherited_fields)"
  have S': "rows S' = filter (\<lambda>x. x \<notin> set (collected ?R S r)) (rows S)"
    using assms(4) by (auto simp: delete_row_def Let_def split: if_splits)
  have "x \<in> set [r] \<or> (\<exists>f t. (fst x, f, t, CASCADE) \<in> set ?R)" if "x \<in> set (collected ?R S r)"
    using that unfolding collected_def by (rule mem_collect)
  then have "x \<notin> set (collected ?R S r)"
    if "x \<noteq> r" "fst x \<in> {''payments.payment'', ''tickets.ticket'', ''checkin.checkin'', ''accounts.user'', ''companies.company''}"
    using that by (auto simp: project_relations)
  moreover have "set acc \<subseteq> set (collect ?R S n acc)" for n acc
    by (induction n arbitrary: acc) (simp, fastforce)
  then have "r \<in> set (collected ?R S r)" unfolding collected_def by fastforce
  ultimately show ?thesis
    using delete_row_refs_ok [OF assms] by (auto simp: S')
qed

text \<open>A user with a membership and an active hold, whose deletion takes both along.\<close>

definition two_row_tables :: tables where
  "two_row_tables =
     \<lparr>rows = [(''accounts.user'', ''u''), (''checkout.checkouthold'', ''h'')],
      ref = (\<lambda>x f. if x = (''checkout.checkouthold'', ''h'') \<and> f = ''user'' then Some ''u'' else None)\<rparr>"

theorem deletion_keeps_references_witness:
  "\<exists>S'. delete_row (relations (declared_models inherited_fields)) (''accounts.user'', ''u'') two_row_tables = Some S'
     \<and> rows S' = [] \<and> refs_ok (relations (declared_models inherited_fields)) S'"
proof -
  let ?R = "relations (declared_models inherited_fields)"
  have "refs_ok ?R two_row_tables" by (simp add: refs_ok_def project_relations two_row_tables_def)
  moreover have "distinct (rows two_row_tables)" "(''accounts.user'', ''u'') \<in> set (rows two_row_tables)"
    by (simp_all add: two_row_tables_def)
  moreover have "\<exists>S'. delete_row ?R (''accounts.user'', ''u'') two_row_tables = Some S' \<and> rows S' = []"
    by (simp add: delete_row_def collected_def refers_def project_relations two_row_tables_def Let_def)
  ultimately show ?thesis using deletion_keeps_references [of two_row_tables "(''accounts.user'', ''u'')"] by blast
qed

end
