(* ===== verification/AdminSite.thy ===== *)
theory AdminSite
  imports Migrations AuditTrail Tenancy
begin

text \<open>
  The \<open>admin.py\<close> files: what the admin site shows, filters, searches and edits of each model,
  as data, and the checks of these declarations against the models of \<open>Schema\<close>. A name that
  does not resolve is an error when the site starts or when the page is opened. What
  Django's own admin classes bring along is left out, but for the fields that its form for
  new users declares, a parameter.
\<close>

section \<open>Declarations\<close>

record inline_admin =
  il_model :: string
  il_extra :: nat
  il_fields :: "string list option"
  il_readonly :: "string list"

text \<open>
  One \<open>ModelAdmin\<close>. The two flags are the overridden permission methods, which return
  \<open>False\<close> for everyone; \<open>ma_fieldsets = None\<close> is a form with every editable column.
\<close>

record model_admin =
  ma_model :: string
  list_display :: "string list"
  list_filter :: "string list"
  search_fields :: "string list"
  ma_ordering :: "string list"
  readonly_fields :: "string list"
  prepopulated_fields :: "(string \<times> string list) list"
  ma_fieldsets :: "(string option \<times> string list) list option"
  add_fieldsets :: "(string option \<times> string list) list"
  inlines :: "inline_admin list"
  change_forbidden :: bool
  delete_forbidden :: bool

definition model_admin_default :: "string \<Rightarrow> model_admin" where
  "model_admin_default m =
     \<lparr>ma_model = m, list_display = [], list_filter = [], search_fields = [], ma_ordering = [],
      readonly_fields = [], prepopulated_fields = [], ma_fieldsets = None, add_fieldsets = [], inlines = [],
      change_forbidden = False, delete_forbidden = False\<rparr>"

definition user_admin :: model_admin where
  "user_admin = (model_admin_default ''accounts.user'')
     \<lparr>list_display := [''email'', ''full_name'', ''role'', ''is_active'', ''email_verified'', ''created_at''],
      list_filter := [''role'', ''is_active'', ''email_verified''],
      search_fields := [''email'', ''first_name'', ''last_name''],
      ma_ordering := [''-created_at''],
      ma_fieldsets := Some [(None, [''email'', ''password'']), (Some ''Personal'', [''first_name'', ''last_name'']),
        (Some ''Permissions'', [''role'', ''is_active'', ''is_staff'', ''is_superuser'', ''email_verified''])],
      add_fieldsets := [(None, [''email'', ''password1'', ''password2'', ''role''])]\<rparr>"

definition audit_log_admin :: model_admin where
  "audit_log_admin = (model_admin_default ''audit.auditlog'')
     \<lparr>list_display := [''action'', ''actor'', ''object_id'', ''ip_address'', ''created_at''],
      list_filter := [''action''], search_fields := [''action'', ''actor__email'', ''object_id''],
      readonly_fields := [''id'', ''actor'', ''action'', ''content_type'', ''object_id'', ''metadata'', ''ip_address'',
        ''created_at''],
      change_forbidden := True, delete_forbidden := True\<rparr>"

definition checkout_hold_admin :: model_admin where
  "checkout_hold_admin = (model_admin_default ''checkout.checkouthold'')
     \<lparr>list_display := [''hold_token'', ''user'', ''tier'', ''quantity'', ''status'', ''expires_at'', ''created_at''],
      list_filter := [''status''], search_fields := [''hold_token'', ''user__email'', ''tier__name''],
      readonly_fields := [''id'', ''hold_token'', ''created_at'']\<rparr>"

definition company_member_inline :: inline_admin where
  "company_member_inline =
     \<lparr>il_model = ''companies.companymember'', il_extra = 0, il_fields = None, il_readonly = [''joined_at'']\<rparr>"

definition company_admin :: model_admin where
  "company_admin = (model_admin_default ''companies.company'')
     \<lparr>list_display := [''name'', ''slug'', ''owner'', ''plan'', ''is_active'', ''created_at''],
      list_filter := [''plan'', ''is_active''], search_fields := [''name'', ''slug'', ''owner__email''],
      prepopulated_fields := [(''slug'', [''name''])],
      readonly_fields := [''id'', ''created_at'', ''updated_at''], inlines := [company_member_inline]\<rparr>"

definition company_member_admin :: model_admin where
  "company_member_admin = (model_admin_default ''companies.companymember'')
     \<lparr>list_display := [''user'', ''company'', ''role'', ''joined_at''], list_filter := [''role''],
      search_fields := [''user__email'', ''company__name'']\<rparr>"

definition event_date_inline :: inline_admin where
  "event_date_inline =
     \<lparr>il_model = ''events.eventdate'', il_extra = 1,
      il_fields = Some [''start_datetime'', ''end_datetime'', ''doors_open'', ''label''], il_readonly = []\<rparr>"

definition event_admin :: model_admin where
  "event_admin = (model_admin_default ''events.event'')
     \<lparr>list_display := [''title'', ''company'', ''status'', ''venue_name'', ''capacity'', ''created_at''],
      list_filter := [''status'', ''company''], search_fields := [''title'', ''venue_name'', ''company__name''],
      readonly_fields := [''id'', ''created_at'', ''updated_at''], inlines := [event_date_inline]\<rparr>"

definition event_date_admin :: model_admin where
  "event_date_admin = (model_admin_default ''events.eventdate'')
     \<lparr>list_display := [''event'', ''start_datetime'', ''end_datetime'', ''label''],
      list_filter := [''event__company''], search_fields := [''event__title'']\<rparr>"

definition ticket_tier_admin :: model_admin where
  "ticket_tier_admin = (model_admin_default ''inventory.tickettier'')
     \<lparr>list_display := [''name'', ''event'', ''price'', ''currency'', ''quantity_total'', ''quantity_available'', ''is_active''],
      list_filter := [''is_active'', ''currency'', ''event__company''], search_fields := [''name'', ''event__title''],
      readonly_fields := [''id'', ''created_at'', ''quantity_available''],
      ma_ordering := [''event'', ''sort_order'', ''price'']\<rparr>"

definition payment_admin :: model_admin where
  "payment_admin = (model_admin_default ''payments.payment'')
     \<lparr>list_display := [''provider_payment_id'', ''provider'', ''user'', ''company'', ''amount'', ''currency'', ''status'',
        ''created_at''],
      list_filter := [''provider'', ''status'', ''currency''],
      search_fields := [''provider_payment_id'', ''idempotency_key'', ''user__email''],
      readonly_fields := [''id'', ''created_at'', ''updated_at'', ''provider_response'']\<rparr>"

definition ticket_admin :: model_admin where
  "ticket_admin = (model_admin_default ''tickets.ticket'')
     \<lparr>list_display := [''id'', ''attendee'', ''tier'', ''status'', ''issued_at'', ''checked_in_at''],
      list_filter := [''status'', ''tier__event__company''], search_fields := [''attendee__email'', ''qr_fingerprint''],
      readonly_fields := [''id'', ''qr_fingerprint'', ''issued_at'', ''checked_in_at'']\<rparr>"

definition webhook_event_admin :: model_admin where
  "webhook_event_admin = (model_admin_default ''webhooks.webhookevent'')
     \<lparr>list_display := [''provider'', ''event_type'', ''provider_event_id'', ''processed'', ''received_at''],
      list_filter := [''provider'', ''event_type'', ''processed''], search_fields := [''provider_event_id''],
      readonly_fields := [''id'', ''received_at'', ''processed_at'']\<rparr>"

definition admin_site :: "model_admin list" where
  "admin_site =
     [user_admin, audit_log_admin, checkout_hold_admin, company_admin, company_member_admin, event_admin, event_date_admin,
      ticket_tier_admin, payment_admin, ticket_admin, webhook_event_admin]"

section \<open>Names\<close>

text \<open>The double underscore follows a relation.\<close>

fun split_lookup :: "string \<Rightarrow> string list" where
  "split_lookup [] = [[]]"
| "split_lookup [c] = [[c]]"
| "split_lookup (c # c' # cs) =
     (if c = CHR ''_'' \<and> c' = CHR ''_'' then [] # split_lookup cs
      else case split_lookup (c' # cs) of [] \<Rightarrow> [[c]] | p # ps \<Rightarrow> (c # p) # ps)"

definition model_of :: "model list \<Rightarrow> string \<Rightarrow> model option" where
  "model_of ms l = List.find (\<lambda>m. label m = l) ms"

text \<open>A path of names reaches a column that satisfies \<open>P\<close>.\<close>

fun reaches_column :: "(field \<Rightarrow> bool) \<Rightarrow> model list \<Rightarrow> model \<Rightarrow> string list \<Rightarrow> bool" where
  "reaches_column P ms m [] = False"
| "reaches_column P ms m [n] = list_ex (\<lambda>f. field_name f = n \<and> P f) (model.fields m)"
| "reaches_column P ms m (n # n' # ns) =
     list_ex (\<lambda>f. field_name f = n \<and>
       (case relation (field_type f) of
          None \<Rightarrow> False
        | Some (l, act) \<Rightarrow> (case model_of ms l of None \<Rightarrow> False | Some m' \<Rightarrow> reaches_column P ms m' (n' # ns)))) (model.fields m)"

text \<open>Django keeps the values of a many-to-many field in a table of its own.\<close>

fun many_to_many :: "field_type \<Rightarrow> bool" where
  "many_to_many (ManyToManyField l) = True"
| "many_to_many t = False"

definition stored :: "field \<Rightarrow> bool" where
  "stored f \<longleftrightarrow> \<not> many_to_many (field_type f)"

definition column :: "(field \<Rightarrow> bool) \<Rightarrow> model list \<Rightarrow> model \<Rightarrow> string \<Rightarrow> bool" where
  "column P ms m path = reaches_column P ms m (split_lookup path)"

text \<open>What a form can show as an input: neither the key nor the times Django sets itself.\<close>

definition editable :: "field \<Rightarrow> bool" where
  "editable f \<longleftrightarrow> NotEditable \<notin> set (attributes f) \<and> AutoNow \<notin> set (attributes f) \<and> AutoNowAdd \<notin> set (attributes f)"

text \<open>The properties and methods of the model classes that need no argument.\<close>

definition computed_names :: "string \<Rightarrow> string list" where
  "computed_names l =
     (if l = ''accounts.user'' then [''full_name'', ''is_organizer'', ''is_event_staff'']
      else if l = ''checkout.checkouthold'' then [''is_expired'']
      else if l = ''events.event'' then [''is_published'']
      else if l = ''inventory.tickettier'' then [''quantity_available'', ''is_on_sale'']
      else [])"

definition shown :: "model list \<Rightarrow> model \<Rightarrow> string \<Rightarrow> bool" where
  "shown ms m n \<longleftrightarrow> n \<in> set (computed_names (label m)) \<or> reaches_column stored ms m [n]"

definition unsigned :: "string \<Rightarrow> string" where
  "unsigned n = (case n of [] \<Rightarrow> [] | c # cs \<Rightarrow> if c = CHR ''-'' then cs else n)"

section \<open>The checks\<close>

text \<open>A search goes into the text of a column, so it cannot end in a relation.\<close>

definition searchable :: "field \<Rightarrow> bool" where
  "searchable f \<longleftrightarrow> target_of (field_type f) = None"

definition inline_ok :: "model list \<Rightarrow> string \<Rightarrow> inline_admin \<Rightarrow> bool" where
  "inline_ok ms parent i =
     (case model_of ms (il_model i) of
        None \<Rightarrow> False
      | Some m \<Rightarrow>
          length (filter (\<lambda>f. relation (field_type f) \<noteq> None \<and> target_of (field_type f) = Some parent) (model.fields m)) = 1
          \<and> list_all (\<lambda>n. reaches_column editable ms m [n]) (case il_fields i of None \<Rightarrow> [] | Some ns \<Rightarrow> ns)
          \<and> list_all (shown ms m) (il_readonly i))"

text \<open>
  The fields of a form are editable columns or fields that the form class declares, each
  named once.
\<close>

definition fieldsets_ok :: "string list \<Rightarrow> model list \<Rightarrow> model \<Rightarrow> (string option \<times> string list) list \<Rightarrow> bool" where
  "fieldsets_ok declared ms m fs \<longleftrightarrow>
     (let ns = concat (map snd fs)
      in distinct ns \<and> list_all (\<lambda>n. n \<in> set declared \<or> reaches_column editable ms m [n]) ns)"

text \<open>
  \<open>declared\<close> are the fields of Django's form for new users, which the page that adds a user
  extends; the other forms declare none.
\<close>

definition admin_ok :: "string list \<Rightarrow> model list \<Rightarrow> model_admin \<Rightarrow> bool" where
  "admin_ok declared ms a =
     (case model_of ms (ma_model a) of
        None \<Rightarrow> False
      | Some m \<Rightarrow>
          list_all (shown ms m) (list_display a)
          \<and> list_all (column stored ms m) (list_filter a)
          \<and> list_all (column searchable ms m) (search_fields a)
          \<and> list_all (\<lambda>n. reaches_column stored ms m [unsigned n]) (ma_ordering a)
          \<and> list_all (shown ms m) (readonly_fields a)
          \<and> list_all (\<lambda>(n, ns). reaches_column (\<lambda>f. editable f \<and> target_of (field_type f) = None) ms m [n]
               \<and> list_all (\<lambda>n. reaches_column (\<lambda>_. True) ms m [n]) ns) (prepopulated_fields a)
          \<and> fieldsets_ok [] ms m (case ma_fieldsets a of None \<Rightarrow> [] | Some fs \<Rightarrow> fs)
          \<and> fieldsets_ok declared ms m (add_fieldsets a)
          \<and> list_all (inline_ok ms (ma_model a)) (inlines a))"

section \<open>Pages\<close>

text \<open>
  A database as the pages read it: rows by model and key, a cell being a value or a
  reference, which may be empty where the column allows it.
\<close>

datatype cell = Plain string | Pointer "(string \<times> string) option"

type_synonym cells = "(string \<times> cell) list"
type_synonym tables = "((string \<times> string) \<times> cells) list"

definition cell_ok :: "tables \<Rightarrow> field \<Rightarrow> cell \<Rightarrow> bool" where
  "cell_ok T f c =
     (case relation (field_type f) of
        None \<Rightarrow> (case c of Plain s \<Rightarrow> True | Pointer p \<Rightarrow> False)
      | Some (l, act) \<Rightarrow>
          (case c of
             Plain s \<Rightarrow> False
           | Pointer None \<Rightarrow> Null \<in> set (attributes f)
           | Pointer (Some (l', k)) \<Rightarrow> l' = l \<and> map_of T (l, k) \<noteq> None))"

definition cells_ok :: "tables \<Rightarrow> model \<Rightarrow> cells \<Rightarrow> bool" where
  "cells_ok T m r =
     list_all (\<lambda>f. stored f \<longrightarrow> (case map_of r (field_name f) of None \<Rightarrow> False | Some c \<Rightarrow> cell_ok T f c)) (model.fields m)"

definition tables_ok :: "model list \<Rightarrow> tables \<Rightarrow> bool" where
  "tables_ok ms T = list_all (\<lambda>((l, k), r). case model_of ms l of None \<Rightarrow> True | Some m \<Rightarrow> cells_ok T m r) T"

text \<open>The value a path of names has for a row, \<open>None\<close> when there is none to read.\<close>

fun follow :: "tables \<Rightarrow> cells \<Rightarrow> string list \<Rightarrow> cell option" where
  "follow T r [] = None"
| "follow T r [n] = map_of r n"
| "follow T r (n # n' # ns) =
     (case map_of r n of
        Some (Pointer None) \<Rightarrow> Some (Pointer None)
      | Some (Pointer (Some k)) \<Rightarrow> (case map_of T k of None \<Rightarrow> None | Some r' \<Rightarrow> follow T r' (n' # ns))
      | _ \<Rightarrow> None)"

lemma cells_okD:
  "cells_ok T m r \<Longrightarrow> f \<in> set (model.fields m) \<Longrightarrow> stored f \<Longrightarrow> \<exists>c. map_of r (field_name f) = Some c \<and> cell_ok T f c"
  by (auto simp: cells_ok_def list_all_iff split: option.splits)

lemma tables_okD: "tables_ok ms T \<Longrightarrow> map_of T (l, k) = Some r \<Longrightarrow> model_of ms l = Some m \<Longrightarrow> cells_ok T m r"
  by (force simp: tables_ok_def list_all_iff dest!: map_of_SomeD)

lemma relation_stored: "relation (field_type f) = Some x \<Longrightarrow> stored f"
  by (cases "field_type f") (simp_all add: stored_def)

text \<open>A path that checks against the models has a value in every row that conforms to them.\<close>

lemma follow_reaches:
  assumes "tables_ok ms T" and "\<And>f. P f \<Longrightarrow> stored f"
  shows "reaches_column P ms m path \<Longrightarrow> cells_ok T m r \<Longrightarrow>
    \<exists>c. follow T r path = Some c \<and> (c = Pointer None \<or> (\<exists>f. P f \<and> cell_ok T f c))"
proof (induction path arbitrary: m r rule: induct_list012)
  case 1
  then show ?case by simp
next
  case (2 n)
  then obtain f where "f \<in> set (model.fields m)" "field_name f = n" "P f" by (auto simp: list_ex_iff)
  with cells_okD [OF 2(2) this(1)] assms(2) show ?case by auto
next
  case (3 n n' ns)
  obtain f where f: "f \<in> set (model.fields m)" "field_name f = n"
    and via: "case relation (field_type f) of None \<Rightarrow> False | Some (l, act) \<Rightarrow>
      (case model_of ms l of None \<Rightarrow> False | Some m' \<Rightarrow> reaches_column P ms m' (n' # ns))"
    using "3.prems"(1) by (auto simp: list_ex_iff)
  from via obtain l act m' where rel: "relation (field_type f) = Some (l, act)"
    and m': "model_of ms l = Some m'" "reaches_column P ms m' (n' # ns)"
    by (cases "relation (field_type f)"; cases "model_of ms (fst (the (relation (field_type f))))") auto
  obtain c where c: "map_of r n = Some c" "cell_ok T f c"
    using cells_okD [OF "3.prems"(2) f(1) relation_stored [OF rel]] f(2) by auto
  then consider "c = Pointer None" | k r' where "c = Pointer (Some (l, k))" "map_of T (l, k) = Some r'"
    using rel by (auto simp: cell_ok_def split: cell.splits option.splits)
  then show ?case
  proof cases
    case 1
    with c show ?thesis by simp
  next
    case 2
    have "cells_ok T m' r'" by (rule tables_okD [OF assms(1) 2(2) m'(1)])
    with "3.IH"(2) [OF m'(2)] c 2 show ?thesis by simp
  qed
qed

section \<open>Properties\<close>

text \<open>A query that a page makes for a row: its value is read, or the page fails.\<close>

definition list_page_renders :: "tables \<Rightarrow> model_admin \<Rightarrow> cells \<Rightarrow> bool" where
  "list_page_renders T a r \<longleftrightarrow>
     list_all (\<lambda>n. n \<in> set (computed_names (ma_model a)) \<or> follow T r [n] \<noteq> None) (list_display a)
     \<and> list_all (\<lambda>p. follow T r (split_lookup p) \<noteq> None) (list_filter a)
     \<and> list_all (\<lambda>p. case follow T r (split_lookup p) of Some (Plain s) \<Rightarrow> True | Some (Pointer None) \<Rightarrow> True | _ \<Rightarrow> False)
         (search_fields a)
     \<and> list_all (\<lambda>n. follow T r [unsigned n] \<noteq> None) (ma_ordering a)"

lemma admin_site_ok: "list_all (admin_ok [''password1'', ''password2''] (declared_models inherited_fields)) admin_site"
  by code_simp

lemma admin_ok_mono:
  assumes "admin_ok declared ms a" and "set declared \<subseteq> set declared'"
  shows "admin_ok declared' ms a"
proof -
  have "fieldsets_ok declared ms m fs \<Longrightarrow> fieldsets_ok declared' ms m fs" for m fs
    using assms(2) by (auto simp: fieldsets_ok_def Let_def list_all_iff simp del: reaches_column.simps)
  then show ?thesis
    using assms(1) unfolding admin_ok_def by (simp split: option.splits del: reaches_column.simps)
qed

lemma admin_ok_renders:
  assumes "tables_ok ms T" and "admin_ok declared ms a" and "model_of ms (ma_model a) = Some m" and "cells_ok T m r"
  shows "list_page_renders T a r"
proof -
  have lab: "label m = ma_model a" using assms(3) by (auto simp: model_of_def find_Some_iff)
  have "follow T r path \<noteq> None" if "reaches_column stored ms m path" for path
    using follow_reaches [OF assms(1) _ that assms(4)] by auto
  moreover have "case follow T r path of Some (Plain s) \<Rightarrow> True | Some (Pointer None) \<Rightarrow> True | _ \<Rightarrow> False"
    if path: "reaches_column searchable ms m path" for path
  proof -
    have "stored f" if "searchable f" for f using that by (cases "field_type f") (simp_all add: searchable_def stored_def)
    from follow_reaches [OF assms(1) this path assms(4)] obtain c where c: "follow T r path = Some c"
      "c = Pointer None \<or> (\<exists>f. searchable f \<and> cell_ok T f c)" by blast
    moreover have "\<exists>s. c = Plain s" if "searchable f" "cell_ok T f c" for f
      using that by (cases "field_type f") (auto simp: searchable_def cell_ok_def split: cell.splits)
    ultimately have "c = Pointer None \<or> (\<exists>s. c = Plain s)" by blast
    with c(1) show ?thesis by auto
  qed
  ultimately show ?thesis
    using assms(2) unfolding admin_ok_def list_page_renders_def assms(3) option.case column_def shown_def lab
    by (auto simp: list_all_iff simp del: reaches_column.simps follow.simps)
qed

text \<open>
  C39: The names in the declarations of the admin site resolve. In a database whose rows
  have the columns of the models and whose references are not dangling, every list page
  can be shown, filtered, searched and sorted: each name it uses is a property of the class
  or a path of columns with a value, and no search ends in a relation. The other names
  resolve too: those of read-only fields and inlines, the sources of prepopulated ones, and
  the fields of the forms, each of which is an editable column and named once, save that the
  form for a new user also has the two passwords which Django's form for that declares. And
  every model but the scan of a ticket has exactly one page.
\<close>

theorem admin_pages_render:
  assumes "tables_ok (declared_models inherited_fields) T" and "a \<in> set admin_site"
    and "map_of T (ma_model a, k) = Some r" and "set [''password1'', ''password2''] \<subseteq> set declared"
  shows "list_page_renders T a r \<and> admin_ok declared (declared_models inherited_fields) a
    \<and> distinct (map ma_model admin_site)
    \<and> set (map ma_model admin_site) = set (map label (declared_models inherited_fields)) - {''checkin.checkin''}"
proof -
  have ok: "admin_ok declared (declared_models inherited_fields) a"
    using admin_site_ok assms(2) by (intro admin_ok_mono [OF _ assms(4)]) (simp add: list_all_iff)
  then obtain m where m: "model_of (declared_models inherited_fields) (ma_model a) = Some m"
    by (auto simp: admin_ok_def split: option.splits)
  have "list_page_renders T a r"
    by (rule admin_ok_renders [OF assms(1) ok m tables_okD [OF assms(1,3) m]])
  moreover have "distinct (map ma_model admin_site)" by code_simp
  moreover have "set (map ma_model admin_site) = set (map label (declared_models inherited_fields)) - {''checkin.checkin''}"
    by code_simp
  ultimately show ?thesis using ok by simp
qed

text \<open>An audit entry without an actor, and a hold.\<close>

definition sample_tables :: tables where
  "sample_tables =
     [((''audit.auditlog'', ''a''), [(''id'', Plain ''a''), (''actor'', Pointer None), (''action'', Plain ''hold''),
        (''content_type'', Pointer None), (''object_id'', Plain []), (''metadata'', Plain []), (''ip_address'', Plain []),
        (''created_at'', Plain ''now'')]),
      ((''companies.companymember'', ''m''), [(''id'', Plain ''m''), (''company'', Pointer (Some (''companies.company'', ''c''))),
        (''user'', Pointer (Some (''accounts.user'', ''u''))), (''role'', Plain ''staff''), (''joined_at'', Plain ''now'')]),
      ((''companies.company'', ''c''), [(''id'', Plain ''c''), (''name'', Plain ''C''), (''slug'', Plain ''c''),
        (''owner'', Pointer (Some (''accounts.user'', ''u''))), (''plan'', Plain ''free''), (''timezone'', Plain []),
        (''logo_url'', Plain []), (''primary_color'', Plain []), (''is_active'', Plain []), (''created_at'', Plain ''now''),
        (''updated_at'', Plain ''now'')]),
      ((''accounts.user'', ''u''), map (\<lambda>f. (field_name f, Plain [])) (model.fields (user_model inherited_fields)))]"

theorem admin_pages_render_witness:
  "list_page_renders sample_tables company_member_admin (the (map_of sample_tables (''companies.companymember'', ''m'')))
   \<and> follow sample_tables (the (map_of sample_tables (''companies.companymember'', ''m''))) [''company'', ''name''] = Some (Plain ''C'')"
proof
  have "tables_ok (declared_models inherited_fields) sample_tables" by code_simp
  moreover have "company_member_admin \<in> set admin_site" by (simp add: admin_site_def)
  moreover have "map_of sample_tables (ma_model company_member_admin, ''m'')
      = Some (the (map_of sample_tables (''companies.companymember'', ''m'')))" by code_simp
  ultimately show "list_page_renders sample_tables company_member_admin
      (the (map_of sample_tables (''companies.companymember'', ''m'')))"
    using admin_pages_render [where declared = "[''password1'', ''password2'']"] by blast
  show "follow sample_tables (the (map_of sample_tables (''companies.companymember'', ''m''))) [''company'', ''name'']
      = Some (Plain ''C'')" by code_simp
qed

section \<open>What the pages can write\<close>

datatype admin_action = AdminView | AdminAdd | AdminChange | AdminDelete

text \<open>\<open>granted\<close> are the model permissions of the user, all of them for a superuser.\<close>

definition admin_allows :: "(string \<Rightarrow> admin_action \<Rightarrow> bool) \<Rightarrow> model_admin \<Rightarrow> admin_action \<Rightarrow> bool" where
  "admin_allows granted a act \<longleftrightarrow>
     \<not> (act = AdminChange \<and> change_forbidden a) \<and> \<not> (act = AdminDelete \<and> delete_forbidden a) \<and> granted (ma_model a) act"

definition form_inputs :: "model list \<Rightarrow> model_admin \<Rightarrow> string list" where
  "form_inputs ms a =
     (case model_of ms (ma_model a) of
        None \<Rightarrow> []
      | Some m \<Rightarrow>
          (case ma_fieldsets a of
             None \<Rightarrow> filter (\<lambda>n. n \<notin> set (readonly_fields a)) (map field_name (filter editable (model.fields m)))
           | Some fs \<Rightarrow> filter (\<lambda>n. n \<notin> set (readonly_fields a)) (concat (map snd fs))))"

text \<open>
  The add page of the audit log: a form without inputs makes an entry of the defaults, which
  is saved.
\<close>

definition audit_admin_add ::
  "(string \<Rightarrow> admin_action \<Rightarrow> bool) \<Rightarrow> uuid \<Rightarrow> uuid \<Rightarrow> 'c world \<Rightarrow> response \<times> 'c world" where
  "audit_admin_add granted u fresh w =
     (if admin_allows granted audit_log_admin AdminAdd
      then (case audit_log_save fresh (audit_log_new u None [] (JObj []) None) w of
              (Inl e, w') \<Rightarrow> (ServerError, w')
            | (Inr _, w') \<Rightarrow> (Created, w'))
      else (Forbidden, w))"

text \<open>
  What the admin site can write. The audit log can be neither changed nor deleted there
  by anyone; its add page, which is left open, has no inputs and always fails. No other
  model is protected: the other pages go by the permissions of the user alone, and the form
  of a tier lets both counters be set.
\<close>

theorem admin_audit_read_only:
  "\<not> admin_allows granted audit_log_admin AdminChange \<and> \<not> admin_allows granted audit_log_admin AdminDelete
   \<and> form_inputs (declared_models inherited_fields) audit_log_admin = []
   \<and> audit_admin_add granted u fresh w
       = (if granted ''audit.auditlog'' AdminAdd then ServerError else Forbidden, w)
   \<and> list_all (\<lambda>a. ma_model a = ''audit.auditlog'' \<or> (\<forall>act. admin_allows granted a act = granted (ma_model a) act)) admin_site
   \<and> form_inputs (declared_models inherited_fields) ticket_tier_admin
       = [''event'', ''name'', ''description'', ''price'', ''currency'', ''quantity_total'', ''quantity_held'',
          ''quantity_sold'', ''max_per_order'', ''sale_starts_at'', ''sale_ends_at'', ''is_active'', ''sort_order'']"
proof (intro conjI)
  show "form_inputs (declared_models inherited_fields) audit_log_admin = []" by code_simp
  show "form_inputs (declared_models inherited_fields) ticket_tier_admin
       = [''event'', ''name'', ''description'', ''price'', ''currency'', ''quantity_total'', ''quantity_held'',
          ''quantity_sold'', ''max_per_order'', ''sale_starts_at'', ''sale_ends_at'', ''is_active'', ''sort_order'']"
    by code_simp
  have "list_all (\<lambda>a. ma_model a = ''audit.auditlog'' \<or> \<not> change_forbidden a \<and> \<not> delete_forbidden a) admin_site"
    by code_simp
  then show "list_all (\<lambda>a. ma_model a = ''audit.auditlog'' \<or> (\<forall>act. admin_allows granted a act = granted (ma_model a) act)) admin_site"
    by (auto simp: list_all_iff admin_allows_def)
  show "audit_admin_add granted u fresh w = (if granted ''audit.auditlog'' AdminAdd then ServerError else Forbidden, w)"
    by (simp add: audit_admin_add_def admin_allows_def audit_log_admin_def model_admin_default_def audit_log_save_def
        audit_log_new_def prog_simps)
qed (simp_all add: admin_allows_def audit_log_admin_def)

end
