(* ===== verification/Apps.thy ===== *)
theory Apps
  imports Settings Migrations
begin

text \<open>
  The \<open>apps.py\<close> files: the configuration class of every application of the repository, and
  the registry Django fills from \<open>INSTALLED_APPS\<close> with them when a process starts.
\<close>

section \<open>The configurations\<close>

record app_config =
  app_class :: string
  app_name :: string

definition accounts_app :: app_config where
  "accounts_app = \<lparr>app_class = ''AccountsConfig'', app_name = ''accounts''\<rparr>"

definition companies_app :: app_config where
  "companies_app = \<lparr>app_class = ''CompaniesConfig'', app_name = ''companies''\<rparr>"

definition events_app :: app_config where
  "events_app = \<lparr>app_class = ''EventsConfig'', app_name = ''events''\<rparr>"

definition inventory_app :: app_config where
  "inventory_app = \<lparr>app_class = ''InventoryConfig'', app_name = ''inventory''\<rparr>"

definition checkout_app :: app_config where
  "checkout_app = \<lparr>app_class = ''CheckoutConfig'', app_name = ''checkout''\<rparr>"

definition tickets_app :: app_config where
  "tickets_app = \<lparr>app_class = ''TicketsConfig'', app_name = ''tickets''\<rparr>"

definition checkin_app :: app_config where
  "checkin_app = \<lparr>app_class = ''CheckinConfig'', app_name = ''checkin''\<rparr>"

definition payments_app :: app_config where
  "payments_app = \<lparr>app_class = ''PaymentsConfig'', app_name = ''payments''\<rparr>"

definition webhooks_app :: app_config where
  "webhooks_app = \<lparr>app_class = ''WebhooksConfig'', app_name = ''webhooks''\<rparr>"

definition audit_app :: app_config where
  "audit_app = \<lparr>app_class = ''AuditConfig'', app_name = ''audit''\<rparr>"

text \<open>The classes the module \<open>apps\<close> of a package defines.\<close>

definition package_configs :: "string \<Rightarrow> app_config list" where
  "package_configs package =
     filter (\<lambda>c. app_name c = package)
       [accounts_app, companies_app, events_app, inventory_app, checkout_app, tickets_app, checkin_app,
        payments_app, webhooks_app, audit_app]"

lemmas app_defs = accounts_app_def companies_app_def events_app_def inventory_app_def checkout_app_def
  tickets_app_def checkin_app_def payments_app_def webhooks_app_def audit_app_def package_configs_def

section \<open>The registry\<close>

text \<open>
  Django's \<open>AppConfig.create\<close> takes the one class it finds in the package; the packages of
  Django and of third parties are not in the repository, their labels are the parameter
  \<open>foreign\<close>. The default label is the last component of the name. Two applications with
  one label are refused, which is \<open>None\<close> here.
\<close>

definition last_component :: "string \<Rightarrow> string" where
  "last_component name = rev (takeWhile (\<lambda>c. c \<noteq> CHR ''.'') (rev name))"

definition app_label :: "(string \<Rightarrow> string) \<Rightarrow> string \<Rightarrow> string option" where
  "app_label foreign entry =
     (if entry \<in> set local_apps
      then (case package_configs entry of [c] \<Rightarrow> Some (last_component (app_name c)) | _ \<Rightarrow> None)
      else Some (foreign entry))"

fun populate :: "(string \<Rightarrow> string) \<Rightarrow> string list \<Rightarrow> string list \<Rightarrow> string list option" where
  "populate foreign [] labels = Some labels"
| "populate foreign (entry # rest) labels =
     (case app_label foreign entry of
        None \<Rightarrow> None
      | Some l \<Rightarrow> if l \<in> set labels then None else populate foreign rest (labels @ [l]))"

definition model_app :: "string \<Rightarrow> string" where
  "model_app lbl = takeWhile (\<lambda>c. c \<noteq> CHR ''.'') lbl"

fun migration_apps :: "migration \<Rightarrow> string list" where
  "migration_apps (Migration app name deps ops) = app # map fst deps"

text \<open>
  With labels for the other packages as Django derives them, the registry is filled, and
  every model that is declared, every model a foreign key points to, every migration of the
  repository and every migration it depends on belongs to a registered application.
\<close>

theorem registry_complete:
  "\<exists>labels. populate last_component (django_apps @ third_party_apps @ local_apps) [] = Some labels
     \<and> list_all (\<lambda>m. model_app (label m) \<in> set labels) (declared_models inherited_fields)
     \<and> list_all (\<lambda>r. model_app (fst (snd (snd r))) \<in> set labels) (relations (declared_models inherited_fields))
     \<and> list_all (\<lambda>m. set (migration_apps m) \<subseteq> set labels) project_migrations"
  by (rule exI [of _ "map last_component (django_apps @ third_party_apps @ local_apps)"]) code_simp

end
