(* ===== verification/SuiteReplay.thy ===== *)
theory SuiteReplay
  imports CheckoutProps TierLoops Checkin RateLimiter LruCache Webhooks Refunds PaymentApis Accounts Tenancy CoreChecks SlugIndex
begin

text \<open>
  The test suite of the repository (\<open>src/tests\<close>), replayed on the model: one lemma per test,
  under its name. What a test patches is the parameter it replaces here. Tests that only time
  Python, and the ones on what the sources import, are left out. The last section holds the
  tests whose expectation the code does not meet.
\<close>

section \<open>\<open>test_rate_limiter.py\<close>, \<open>test_dsa_benchmarks.py\<close>\<close>

text \<open>The patched cache answers every \<open>get\<close> with one value, and \<open>incr\<close> likewise.\<close>

definition mock_cache :: "cval option \<Rightarrow> int \<Rightarrow> unit cache_api" where
  "mock_cache v n =
     \<lparr>c_get = (\<lambda>_ _ _. v), c_set = (\<lambda>c _ _ _ _. c), c_delete = (\<lambda>c _. c), c_incr = (\<lambda>c _ _. (Inr n, c)),
      z_add = (\<lambda>c _ _ _. c), z_range = (\<lambda>_ _ _ _. []), z_remrange = (\<lambda>c _ _ _. c), z_rem = (\<lambda>c _ _. c),
      z_score = (\<lambda>_ _ _. None), h_set = (\<lambda>c _ _ _ _. c), h_get = (\<lambda>_ _ _ _. None),
      h_exists = (\<lambda>_ _ _ _. False), k_expire = (\<lambda>c _ _ _. c)\<rparr>"

definition limiter :: "string \<Rightarrow> int \<Rightarrow> rate_limiter" where
  "limiter scope n = \<lparr>rl_scope = scope, rl_limit = n, rl_window = 60\<rparr>"

lemma test_first_request_is_allowed:
  "fst (is_allowed (mock_cache (Some (CInt 0)) 0) (limiter ''test'' 5) 0 0 ''user-1'' ()) = Inr (True, 1)"
  by code_simp

lemma test_request_at_limit_is_blocked:
  "fst (is_allowed (mock_cache (Some (CInt 5)) 0) (limiter ''test'' 5) 0 0 ''user-1'' ()) = Inr (False, 5)"
  by code_simp

lemma test_remaining_count:
  "rate_remaining (mock_cache (Some (CInt 3)) 0) (limiter ''test'' 10) () 0 ''user-1'' = Inr 7"
  by code_simp

lemma test_different_identifiers_are_independent:
  "let C = (mock_cache None 0)\<lparr>c_get := \<lambda>_ _ key. Some (CInt (if key = ''rate:checkout:user-1'' then 2 else 0))\<rparr>
   in map_sum id fst (fst (is_allowed C (limiter ''checkout'' 2) 0 0 ''user-1'' ())) = Inr False
    \<and> map_sum id fst (fst (is_allowed C (limiter ''checkout'' 2) 0 0 ''user-2'' ())) = Inr True"
  by code_simp

lemma test_rate_limiter_allows_and_blocks_correctly:
  "fst (is_allowed (mock_cache (Some (CInt 1)) 2) (limiter ''checkout'' 3) 0 0 ''test-ip-1'' ()) = Inr (True, 2)"
  by code_simp

section \<open>\<open>test_events.py\<close>, \<open>test_dsa_benchmarks.py\<close>: the event cache\<close>

lemma test_get_returns_none_on_miss: "fst (lru_get ''missing'' (new_lru 3 :: nat lru_cache)) = None"
  by code_simp

lemma test_set_and_get: "fst (lru_get ''k1'' (lru_set ''k1'' ''Event A'' (new_lru 3))) = Some ''Event A''"
  by code_simp

lemma test_evicts_lru_when_over_capacity:
  "let c = lru_set ''k3'' ''val3'' (snd (lru_get ''k1'' (lru_set ''k2'' ''val2'' (lru_set ''k1'' ''val1'' (new_lru 2)))));
       (r2, c) = lru_get ''k2'' c; (r1, c) = lru_get ''k1'' c; (r3, c) = lru_get ''k3'' c
   in r2 = None \<and> r1 = Some ''val1'' \<and> r3 = Some ''val3''"
  by code_simp

lemma test_invalidate_removes_key:
  "fst (lru_get ''k1'' (lru_invalidate ''k1'' (lru_set ''k1'' ''val1'' (new_lru 3)))) = None"
  by code_simp

lemma test_cache_is_bounded:
  "lru_len (foldl (\<lambda>c i. lru_set (''key'' @ show_nat i) (''val'' @ show_nat i) c) (new_lru 5) [0..<10]) = 5"
  by code_simp

section \<open>\<open>test_inventory.py\<close>, \<open>test_dsa_benchmarks.py\<close>: the tier selector\<close>

definition make_tier :: "rat \<Rightarrow> int \<Rightarrow> bool \<Rightarrow> ticket_tier" where
  "make_tier price available on_sale =
     small_tier\<lparr>tier_price := price, quantity_total := available, tier_is_active := on_sale\<rparr>"

definition pick :: "ticket_tier list \<Rightarrow> rat \<Rightarrow> rat option" where
  "pick ts budget = map_option tier_price (select_for_budget 0 (make_selector ts) budget)"

lemma make_tier_simps [simp]:
  "tier_price (make_tier p n b) = p" "is_on_sale now (make_tier p n b) \<longleftrightarrow> b \<and> 0 < n"
  by (auto simp: make_tier_def small_tier_def is_on_sale_def quantity_available_def)

lemma pick_eq:
  "sorted (map tier_price ts) \<Longrightarrow> \<forall>t\<in>set ts. decimal_10_2 (tier_price t) \<Longrightarrow> decimal_10_2 budget \<Longrightarrow>
   pick ts budget = map_option tier_price (best_in_budget 0 ts budget)"
  by (simp add: pick_def select_for_budget_eq)

lemmas pick_simps = pick_eq decimal_10_2_def best_in_budget_def last_option_def

lemma test_select_for_budget:
  "pick [make_tier 500 10 True, make_tier 1000 10 True, make_tier 2000 10 True] 1000 = Some 1000"
  "pick [make_tier 500 10 True, make_tier 1000 10 True, make_tier 2000 10 True] 1500 = Some 1000"
  "pick [make_tier 1000 10 True, make_tier 2000 10 True] 500 = None"
  "pick [make_tier 500 10 True, make_tier 1000 0 True, make_tier 2000 10 True] 1000 = Some 500"
  "pick [make_tier 500 10 True, make_tier 1000 10 False] 1000 = Some 500"
  by (simp_all add: pick_simps)

lemma test_binary_search_tier_selector_log_n:
  "pick [make_tier 500 10 True, make_tier 1000 10 True, make_tier 2500 10 True, make_tier 5000 10 True] 1200 = Some 1000"
  "pick [make_tier 500 10 True, make_tier 1000 10 True, make_tier 2500 10 True, make_tier 5000 10 True] 6000 = Some 5000"
  by (simp_all add: pick_simps)

lemma test_select_exact_price:
  "map_option tier_price (select_exact (make_selector [make_tier 500 10 True, make_tier 1000 10 True]) 500) = Some 500"
  "select_exact (make_selector [make_tier 500 10 True, make_tier 1000 10 True]) 750 = None"
  by (simp_all add: select_exact_eq decimal_10_2_def)

section \<open>\<open>test_checkin.py\<close>, \<open>test_security.py\<close>: the gate\<close>

lemma test_new_qr_not_in_registry: "\<not> is_already_checked_in (mock_cache None 0) () 0 ''unknown-qr''"
  by code_simp

text \<open>The tests add 100, 1000 and 10000 fingerprints; here they are any.\<close>

lemma test_zero_false_negatives: "\<exists>b. mark_all qrs scan_bloom = Inr b \<and> list_all (\<lambda>qr. might_be_scanned qr b = Inr True) qrs"
proof -
  have wf: "bloom_wf scan_bloom" by (simp add: scan_bloom_def new_bloom_wf)
  from mark_all_wf [OF wf, of qrs] obtain b where b: "mark_all qrs scan_bloom = Inr b" "bloom_wf b"
    "positions b = positions scan_bloom" "marked b = (\<Union>qr\<in>set qrs. positions scan_bloom qr)"
    by (auto simp: scan_bloom_def marked_new_bloom)
  then show ?thesis by (auto simp: list_all_iff might_be_scanned_def bloom_contains_iff)
qed

section \<open>\<open>test_payments.py\<close>, \<open>test_security.py\<close>, \<open>test_webhooks.py\<close>\<close>

lemma test_safaricom_ips:
  "\<not> is_safaricom_ip ''8.8.8.8''" "is_safaricom_ip ''196.201.214.201''" "is_safaricom_ip ''196.201.214.200''"
  "\<not> is_safaricom_ip ''1.2.3.4''" "\<not> is_safaricom_ip ''192.168.1.1''"
proof -
  have "map parse_ipv4 [''8.8.8.8'', ''196.201.214.201'', ''196.201.214.200'', ''1.2.3.4'', ''192.168.1.1''] =
    [Some (ip_of_octets 8 8 8 8), Some (ip_of_octets 196 201 214 201), Some (ip_of_octets 196 201 214 200),
     Some (ip_of_octets 1 2 3 4), Some (ip_of_octets 192 168 1 1)]"
    by (simp add: parse_ipv4_def parse_octet_def is_digit_def parse_nat_def digit_value_def)
  then show "\<not> is_safaricom_ip ''8.8.8.8''" "is_safaricom_ip ''196.201.214.201''" "is_safaricom_ip ''196.201.214.200''"
    "\<not> is_safaricom_ip ''1.2.3.4''" "\<not> is_safaricom_ip ''192.168.1.1''"
    by (simp_all add: is_safaricom_ip_def in_ranges_iff in_slash_24)
qed

lemma test_successful_callback_parsed:
  "parse_stk_callback (JObj [(''Body'', JObj [(''stkCallback'', JObj [(''ResultCode'', JInt 0),
      (''CheckoutRequestID'', JStr ''ws_CO_123''), (''CallbackMetadata'', JObj [(''Item'', JList
        [JObj [(''Name'', JStr ''Amount''), (''Value'', JInt 1500)],
         JObj [(''Name'', JStr ''MpesaReceiptNumber''), (''Value'', JStr ''NLJ7RT61SV'')],
         JObj [(''Name'', JStr ''PhoneNumber''), (''Value'', JInt 254712345678)],
         JObj [(''Name'', JStr ''TransactionDate''), (''Value'', JInt 20260620095807)]])])])])])
    = Inr (JObj [(''success'', JBool True), (''checkout_request_id'', JStr ''ws_CO_123''), (''amount'', JInt 1500),
        (''receipt_number'', JStr ''NLJ7RT61SV''), (''phone'', JInt 254712345678), (''transaction_date'', JInt 20260620095807)])"
  by code_simp

lemma test_failed_callback_parsed:
  "parse_stk_callback (JObj [(''Body'', JObj [(''stkCallback'', JObj [(''ResultCode'', JInt 1032),
      (''CheckoutRequestID'', JStr ''ws_CO_456''), (''ResultDesc'', JStr ''Request cancelled by user'')])])])
    = Inr (JObj [(''success'', JBool False), (''checkout_request_id'', JStr ''ws_CO_456''),
        (''result_code'', JInt 1032), (''result_desc'', JStr ''Request cancelled by user'')])"
  by code_simp

lemma test_processed_payment_detected:
  "is_processed (mock_cache (Some (CJson (JObj [(''ticket_id'', JStr ''abc'')]))) 0) () 0 ''pay-123''"
  "\<not> is_processed (mock_cache None 0) () 0 ''pay-new''"
  by (simp_all add: is_processed_def mock_cache_def)

text \<open>Second deliveries, with \<open>is_processed\<close> patched to answer yes: the cache has a result.\<close>

definition mock_world :: "db \<Rightarrow> unit world" where
  "mock_world d = \<lparr>database = d, redis = ()\<rparr>"

definition order_event :: json where
  "order_event = JObj [(''data'', JObj [(''id'', JStr ''order-123''), (''attributes'', JObj
     [(''total'', JInt 150000), (''currency'', JStr ''USD''), (''custom_data'', JObj [])])])]"

lemma test_duplicate_order_returns_idempotent_response:
  "fst (handle_lemon_squeezy_order_created (mock_cache (Some (CStr [])) 0) fmt 0 u fresh order_event (mock_world d)) =
     Inr (JObj [(''status'', JStr ''already_processed''), (''idempotent'', JBool True)])"
  by (simp add: handle_ls_eq ls_order_id_def order_event_def is_processed_def mock_cache_def
      already_processed_def)

lemma test_mpesa_replay_blocked:
  "fst (handle_mpesa_payment_succeeded (mock_cache (Some (CStr [])) 0) fmt 0 u fresh ''ws_CO_123'' amount receipt (mock_world d)) =
     Inr (JObj [(''status'', JStr ''already_processed''), (''idempotent'', JBool True)])"
  by (simp add: handle_mpesa_eq is_processed_def mock_cache_def already_processed_def)

lemma test_invalid_ls_signature_rejected:
  "setting S ''LEMON_SQUEEZY_WEBHOOK_SECRET'' [] \<noteq> [] \<Longrightarrow>
   verify_webhook_signature S payload ''invalid-signature'' = Inl LemonSqueezySignatureError"
proof -
  assume set: "setting S ''LEMON_SQUEEZY_WEBHOOK_SECRET'' [] \<noteq> []"
  have "length (hexdigest (hmac_sha256 k m)) \<noteq> length ''invalid-signature''" for k m
    by (simp add: hmac_sha256_def Let_def)
  then have "hexdigest (hmac_sha256 k m) \<noteq> ''invalid-signature''" for k m
    by (rule contrapos_nn) (rule arg_cong)
  moreover have "ascii ''invalid-signature''" by code_simp
  ultimately show ?thesis
    using set by (simp add: verify_webhook_signature_def compare_digest_def Let_def del: length_0_conv)
qed

section \<open>\<open>test_checkout.py\<close>, \<open>test_refunds.py\<close>\<close>

text \<open>The patched tables hold a tier with ten tickets and two active holds, or a tier with none.\<close>

definition suite_db :: db where
  "suite_db = small_db\<lparr>holds := [new_hold 0 ''h1'' ''k1'' ''u'' ''t'' 1, new_hold 0 ''h2'' ''k2'' ''u'' ''t'' 1]\<rparr>"

lemma test_hold_abuse_guard_blocks_third_hold:
  "fst (create_hold ttl_api 0 0 ''h3'' ''k3'' ''u'' ''t'' 1 \<lparr>database = suite_db, redis = ttl_empty\<rparr>) = Inl HoldAbuseError"
  by (simp add: create_hold_eq suite_db_def small_defs rows_get_def active_holds_count_def rows_count_def hold_in_event_def)

lemma test_insufficient_inventory_raises:
  "fst (create_hold ttl_api 0 0 ''h'' ''k'' ''u'' ''t'' 1
      \<lparr>database = small_db\<lparr>tiers := [small_tier\<lparr>quantity_total := 0\<rparr>]\<rparr>, redis = ttl_empty\<rparr>)
     = Inl (InsufficientInventoryError 0 1)"
  by (simp add: create_hold_eq small_defs rows_get_def active_holds_count_def rows_count_def quantity_available_def)

definition suite_payment :: "payment_status \<Rightarrow> payment" where
  "suite_payment s = \<lparr>pay_id = ''p'', pay_hold = None, pay_user = ''u'', pay_company = ''c'', pay_provider = Mpesa,
     provider_payment_id = ''x'', idempotency_key = ''i'', pay_amount = 1500, pay_currency = ''KES'', pay_status = s\<rparr>"

definition suite_ticket :: ticket where
  "suite_ticket = \<lparr>tk_id = ''k'', tk_hold = None, tk_payment = Some ''p'', tk_tier = ''t'', tk_attendee = ''u'',
     tk_status = CheckedIn, qr_fingerprint = ''q'', checked_in_at = None\<rparr>"

lemma test_refund_rejected_if_ticket_checked_in:
  "fst (request_refund dec u fresh ''p'' ''Changed mind'' None
      (mock_world (small_db\<lparr>payments := [suite_payment Succeeded], tickets := [suite_ticket]\<rparr>)))
     = Inl (PostCheckinRefundError 1)"
  by (simp add: request_refund_def refund_rows_def get_payment_def prog_simps mock_world_def suite_payment_def
      suite_ticket_def rows_get_def checked_in_count_def rows_count_def)

lemma test_refund_rejected_for_non_succeeded_payment:
  "fst (request_refund dec u fresh ''p'' ''Test'' None (mock_world (small_db\<lparr>payments := [suite_payment Pending]\<rparr>)))
     = Inl (RefundError ''pending'')"
  by (simp add: request_refund_def refund_rows_def get_payment_def prog_simps mock_world_def suite_payment_def
      rows_get_def)

section \<open>\<open>test_accounts.py\<close>, \<open>test_permissions.py\<close>, \<open>test_companies.py\<close>\<close>

text \<open>Email addresses are taken as they are, and a password is its own hash.\<close>

definition plain_env :: auth_env where
  "plain_env = \<lparr>normalize_email = id, hash_password = (\<lambda>p. case p of None \<Rightarrow> ''!'' | Some s \<Rightarrow> s), valid_field = (\<lambda>_ _. True)\<rparr>"

lemma test_create_user_with_email:
  "case create_user plain_env ''1'' ''test@example.com'' (Some ''SecurePass123!'') no_kwargs small_db of
     (Inr u, d) \<Rightarrow> u_email u = ''test@example.com'' \<and> u_role u = Attendee \<and> \<not> u_email_verified u \<and> users d = [u]
   | _ \<Rightarrow> False"
  by code_simp

lemma test_create_superuser:
  "case create_superuser plain_env ''1'' ''admin@example.com'' (Some ''Admin123!'') no_kwargs small_db of
     (Inr u, d) \<Rightarrow> u_is_staff u \<and> u_is_superuser u \<and> u_role u = Organizer
   | _ \<Rightarrow> False"
  by code_simp

lemma test_user_requires_email: "fst (create_user E uid [] (Some ''pass'') no_kwargs d) = Inl ValueError"
  by (simp add: create_user_def throw_def)

lemma test_full_name_property:
  "case create_user plain_env ''1'' ''alex@example.com'' (Some ''Pass123!'')
      (no_kwargs\<lparr>k_first_name := Some ''Alex'', k_last_name := Some ''Muthomi''\<rparr>) small_db of
     (Inr u, d) \<Rightarrow> full_name u = ''Alex Muthomi''
   | _ \<Rightarrow> False"
  by code_simp

lemma test_role_checks:
  "is_organizer organizer_ann \<and> is_event_staff organizer_ann"
  "\<not> is_organizer (organizer_ann\<lparr>u_role := Attendee\<rparr>) \<and> \<not> is_event_staff (organizer_ann\<lparr>u_role := Attendee\<rparr>)"
  "has_permission IsOrganizer (Some organizer_ann)"
  "\<not> has_permission IsOrganizer (Some (organizer_ann\<lparr>u_role := Attendee\<rparr>))"
  "\<not> has_permission IsOrganizer None"
  "has_permission IsEventStaff (Some organizer_ann)"
  "\<not> has_permission IsEventStaff (Some (organizer_ann\<lparr>u_role := Attendee\<rparr>))"
  by code_simp+

text \<open>A company saved without a slug gets that of its name; a second one with it is refused.\<close>

definition suite_company :: company where
  "suite_company = company_create_row ''c'' organizer_ann ''Nairobi Events Co'' no_form"

lemma test_slug_auto_generated:
  "slugify ''Nairobi Events Co'' = ''nairobi-events-co'' \<Longrightarrow>
   company_save slugify suite_company small_db =
     (Inr (suite_company\<lparr>co_slug := ''nairobi-events-co''\<rparr>), small_db\<lparr>companies := [suite_company\<lparr>co_slug := ''nairobi-events-co''\<rparr>]\<rparr>)"
  by (simp add: company_save_def suite_company_def company_create_row_def small_db_def Let_def)

lemma test_slug_is_unique:
  "fst (company_save slugify (suite_company\<lparr>co_id := ''c2'', co_slug := ''nairobi-events-co''\<rparr>)
      (small_db\<lparr>companies := [suite_company\<lparr>co_slug := ''nairobi-events-co''\<rparr>]\<rparr>)) = Inl IntegrityError"
  by (simp add: company_save_def suite_company_def company_create_row_def)

lemma test_default_plan_is_free: "co_plan suite_company = Free"
  by (simp add: suite_company_def company_create_row_def)

lemma test_slug_resolves_to_company_id:
  "fst (get_company_id_by_slug ttl_api 0 0 ''nairobi-events-co''
      \<lparr>database = small_db\<lparr>companies := [suite_company\<lparr>co_slug := ''nairobi-events-co''\<rparr>]\<rparr>, redis = ttl_empty\<rparr>)
     = Inr (Some (CStr ''c''))"
  by (simp add: get_company_id_by_slug_def rows_get_def suite_company_def company_create_row_def ret_def)

lemma test_unknown_slug_returns_none:
  "fst (get_company_id_by_slug ttl_api 0 0 ''nonexistent-slug''
      \<lparr>database = small_db\<lparr>companies := [suite_company\<lparr>co_slug := ''nairobi-events-co''\<rparr>]\<rparr>, redis = ttl_empty\<rparr>)
     = Inr None"
  by (simp add: get_company_id_by_slug_def rows_get_def suite_company_def company_create_row_def ret_def)

section \<open>\<open>test_health.py\<close>, \<open>test_query_audit.py\<close>\<close>

lemma test_health_returns_200: "snd health_check = 200"
  by (simp add: health_check_def)

lemma test_readiness:
  "snd (fst (readiness_check (mock_cache (Some (CStr ''1'')) 0) None None 0 0 ())) = 200"
  "snd (fst (readiness_check (mock_cache (Some (CStr ''1'')) 0) (Some ''DB down'') None 0 0 ())) = 503"
  by code_simp+

definition list_users :: "(query_state, unit) prog" where
  "list_users = modify (\<lambda>s. s\<lparr>qs_queries := qs_queries s @ [''SELECT ... FROM accounts_user'']\<rparr>)"

lemma test_assert_max_queries:
  "fst (assert_max_queries 5 list_users s) = Inr ()"
  "fst (assert_max_queries 0 list_users s) = Inl (AssertionError 0 1)"
  by (simp_all add: assert_max_queries_def list_users_def modify_def)

section \<open>Tests the code does not meet\<close>

text \<open>
  \<open>test_audit.py\<close> expects entries from \<open>log_action\<close>; it raises before it writes one. The
  two tests of a processed webhook and the one of a valid refund patch \<open>log_action\<close> away: with
  it, all three end in its exception.
\<close>

lemma test_log_action_creates_entry_fails:
  "log_action u fresh ''ticket.issued'' None None (Some (JObj [(''ticket_id'', JStr ''abc'')])) None w = (Inl ValueError, w)"
  by simp

lemma test_valid_mpesa_payment_processed_fails:
  "fst (handle_mpesa_payment_succeeded (mock_cache None 0) fmt 0 u fresh ''ws_CO_123'' amount receipt (mock_world d)) = Inl ValueError"
  by (simp add: handle_mpesa_eq is_processed_def mock_cache_def)

lemma test_valid_refund_succeeds_fails:
  "fst (request_refund dec u fresh ''p'' ''Event cancelled'' None (mock_world (small_db\<lparr>payments := [suite_payment Succeeded]\<rparr>)))
     = Inl ValueError"
  by (simp add: request_refund_def refund_rows_def get_payment_def prog_simps mock_world_def suite_payment_def small_db_def
      rows_get_def checked_in_count_def rows_count_def payment_tickets_def save_payment_status_def with_db_def)

end
