(* ===== verification/Spec2Isabelle.thy ===== *)
theory Spec2Isabelle
  imports System CheckoutFaults CheckoutLedger HoldRaces TierLoops Routing Checkin RateRaces LruCache
    CoreChecks Deletion AdminSite Apps SuiteReplay
begin

text \<open>
  A model of the ticketing system, a Django application in which companies sell tickets to
  events, and the theorems about it. Paths below are relative to the root of the repository.

  \<^bold>\<open>The program.\<close> A ticket tier (\<open>inventory/models.py\<close>) has a total, a number of tickets
  held and a number sold. A buyer takes a hold on some tickets of a tier
  (\<open>checkout/services.py\<close>), which is recorded in the database, in a Redis cache
  (\<open>checkout/hold_registry.py\<close>) and in a Redis sorted set by expiry
  (\<open>checkout/expiry_heap.py\<close>). The hold is released by its owner or by a payment timeout
  (\<open>payments/tasks.py\<close>), or expired by a periodic sweep (\<open>checkout/tasks.py\<close>). Payments are
  confirmed by webhooks of LemonSqueezy and M-Pesa (\<open>webhooks/handlers.py\<close>,
  \<open>payments/lemon_squeezy.py\<close>, \<open>payments/mpesa.py\<close>), made idempotent by a cache
  (\<open>payments/idempotency_store.py\<close>), and refunded by \<open>payments/refunds.py\<close>; both write an
  audit log (\<open>audit/\<close>). At the door a Bloom filter and a Redis hash tell which tickets were
  scanned (\<open>checkin/\<close>). Around this stand accounts, companies and their permissions, the
  requests that write events and tiers, a slug index, an event cache, a rate limiter, probes,
  settings, routes, the admin site and the database schema.

  \<^bold>\<open>Theories and sources.\<close>
  \<^item> \<open>Prelude\<close>: exceptions as values, programs \<open>'s \<Rightarrow> exn + 'a \<times> 's\<close>, rows of a table as
    lists with \<open>get\<close>, \<open>filter().update()\<close> and \<open>count()\<close>; the lemma collections.
  \<^item> \<open>PyFloat\<close>, \<open>PyJson\<close>, \<open>PyDatetime\<close>, \<open>Sha256\<close>: the parts of Python and its standard library
    that the code uses: doubles, JSON values, UTC instants with \<open>isoformat\<close>, \<open>hashlib\<close> and \<open>hmac\<close>.
  \<^item> \<open>CacheApi\<close>: Redis as a record of operations, its laws as locales, and a store \<open>ttl_api\<close>
    that satisfies all of them.
  \<^item> \<open>Models\<close>: one record per table, the database, \<open>transaction.atomic\<close>.
  \<^item> \<open>Inventory\<close>, \<open>TierSelector\<close>, \<open>TierLoops\<close>: \<open>inventory/models.py\<close>, \<open>availability_cache.py\<close>,
    \<open>views.py\<close>, \<open>tier_selector.py\<close>, the last also with its loops as written.
  \<^item> \<open>HoldRegistry\<close>: \<open>checkout/hold_registry.py\<close>, \<open>checkout/expiry_heap.py\<close>.
  \<^item> \<open>Checkout\<close> (definitions), \<open>CheckoutLemmas\<close> (closed forms), \<open>CheckoutInv\<close> (invariant),
    \<open>CheckoutSweep\<close>, \<open>CheckoutProps\<close>, \<open>CheckoutLiveness\<close>: \<open>checkout/services.py\<close> and \<open>tasks.py\<close>;
    \<open>CheckoutLedger\<close>: the ledger of free tickets and open holds that they implement.
  \<^item> \<open>HoldRaces\<close>: the two services, the sweep and an edit of a tier cut into the steps between
    which another request can run; \<open>RateRaces\<close>: the same for \<open>core/rate_limiter.py\<close>.
  \<^item> \<open>Faults\<close>: statements and transactions over a network that fails, with the rules that carry
    assertions through them; \<open>CheckoutFaults\<close>: the two services and the sweep on it.
  \<^item> \<open>AuditTrail\<close>, \<open>IdempotencyStore\<close>, \<open>Webhooks\<close>, \<open>Refunds\<close>, \<open>Mpesa\<close>, \<open>PaymentApis\<close>: \<open>audit/\<close>,
    \<open>payments/\<close>, \<open>webhooks/handlers.py\<close>, the fingerprint of \<open>tickets/models.py\<close>.
  \<^item> \<open>Checkin\<close>, \<open>RateLimiter\<close>, \<open>LruCache\<close>, \<open>SlugIndex\<close>, \<open>CoreChecks\<close>: \<open>checkin/\<close>,
    \<open>core/rate_limiter.py\<close>, \<open>events/lru_cache.py\<close>, \<open>companies/slug_index.py\<close>, \<open>core/health.py\<close>,
    \<open>core/query_audit.py\<close>.
  \<^item> \<open>Accounts\<close>, \<open>Tenancy\<close>: \<open>accounts/models.py\<close>, \<open>serializers.py\<close>, \<open>core/permissions.py\<close>, the views
    and serializers of companies and events, the permissions of \<open>inventory/views.py\<close>.
  \<^item> \<open>TierApi\<close>, \<open>EventApi\<close>: \<open>inventory/serializers.py\<close>, \<open>events/serializers.py\<close>, the requests that
    change and remove tiers and events, \<open>accounts/views.py\<close>.
  \<^item> \<open>Settings\<close>: \<open>config/settings/\<close>, \<open>config/settings.py\<close> and the entry points; \<open>Apps\<close>: every
    \<open>apps.py\<close> and the registry of applications.
  \<^item> \<open>Routing\<close>: \<open>config/urls.py\<close>, \<open>accounts/urls.py\<close>, and \<open>config/celery.py\<close> with what beat starts.
  \<^item> \<open>AdminSite\<close>: every \<open>admin.py\<close>, checked against the models.
  \<^item> \<open>Schema\<close>, \<open>Migrations\<close>, \<open>Deletion\<close>: the columns, relations and constraints of every
    \<open>models.py\<close>, every \<open>migrations/0001_initial.py\<close> with an interpreter for any order of them,
    and the effect of the \<open>on_delete\<close> clauses.
  \<^item> \<open>System\<close>: one step relation over the requests, tasks and webhooks of the modelled code, run
    one after another; not the admin site's writes, nor requests that run at the same time.
  \<^item> \<open>SuiteReplay\<close>: the tests under \<open>tests/\<close> as lemmas about the model, one per test.

  \<^bold>\<open>State and time.\<close> A definition that reads the clock, draws a uuid or a nonce takes it as
  an argument, one per place where the code does so; instants are whole microseconds. A
  world is the database together with the state of Redis; an exception inside
  \<open>transaction.atomic\<close> restores the first and not the second. Integer columns are bounded as
  PostgreSQL bounds them, and a write outside raises \<open>IntegrityError\<close>. Strings are UTF-8 bytes,
  with \<open>py_strip\<close> and \<open>char_length\<close> for what Python does by characters; the registration and
  profile forms hold the texts of the request, which the serializers trim, the other forms
  hold values the framework has parsed.

  \<^bold>\<open>Faults.\<close> In \<open>CheckoutFaults\<close> the state also holds the fates of the statements to come: each
  SQL statement, Redis command and commit is answered, refused, or executed without its answer
  getting through. A process that is killed is one that fails at some statement and sends no
  more. The event that \<open>tier.event\<close> fetches counts with the query that uses it. With no faults
  these programs are the services (\<open>under_faults\<close>), so that all other theorems apply to them.

  \<^bold>\<open>Parameters.\<close> Redis (\<open>cache_api\<close>, laws \<open>django_cache\<close>, \<open>redis_zset\<close>, \<open>redis_hash\<close>,
  \<open>redis_server\<close>), the HTTP client, django-environ, Django's \<open>slugify\<close>, email
  normalisation, password hashing and field validators, the URL validator and the formats of
  decimals and instants of the REST framework, the paths and granted permissions of the
  admin site and the fields its form for new users declares, which migrations and models a
  database has beside the project's, and how CPython prints floats and containers. Each law is used as a named
  hypothesis and has the instance \<open>ttl_api\<close>. The ORM, the transactions, the request cycle of the REST framework and the three \<open>on_delete\<close>
  rules are modelled by what their documentation says. The contracts the components rely on
  are locales: \<open>ttl_registry\<close> and \<open>ttl_registry_drop\<close> for everything kept for a while (holds,
  availability, processed payments, slugs) and \<open>deadline_queue\<close> for the sorted set.

  \<^bold>\<open>What the theorems show.\<close> Run one after the other, the services and the sweep never
  oversell, cover every active hold and respect the limit of two holds; no expired hold
  outlives a sweep; each operation is characterised on all its branches and implements a
  ledger of free tickets. The row lock keeps concurrent creations safe. Whatever fails, at
  whichever statements, nothing is oversold, a service is all or nothing on the tables, and as
  long as sweeps end none misses a hold. The caches answer as long as promised and no longer; the
  selector, the Bloom filter and the LRU cache agree with their naive counterparts; the
  signature check accepts exactly the right signature, though a header that is not ASCII
  ends in a \<open>TypeError\<close>; the allowlist is exactly one /24 network; registration grants no
  rights; no request to change or remove an event reaches those of another company; the
  selector's loops end; the names in the admin site's declarations resolve and those of its
  list pages have a value; the migrations run in exactly the orders their dependencies allow
  and build what the models declare, and no deletion breaks a reference or removes a payment,
  ticket or check-in.
  Where the code does something other than it means to, the theorem states what it does:
  the sweep gives back too little, is never started, and when interrupted strands the holds it
  had taken out of the sorted set, a creation that fails late leaves Redis with a hold that
  does not exist, a release, a sweep or an edit of a
  tier can overwrite a concurrent hold, the total of a tier can be set below what it
  promised, the limit of holds can be passed on two tiers, the rate limit by concurrent
  calls and around the end of a window, every audit entry raises, so refunds roll back and webhook deliveries are lost,
  neither a new event nor a change to a company gets through, and no route leads to the
  views of companies, events and tiers.

  \<^bold>\<open>Bounds and termination.\<close> All definitions but the \<open>while_option\<close> loops of \<open>TierLoops\<close> are
  total, and these end by \<open>selection_terminates\<close>; loops recurse on lists, the bisection on the
  width of its interval. \<open>Deletion.collect\<close> runs for as many rounds as there are rows, which \<open>collected_closed\<close> shows to be enough. SHA-256 and the 32-bit words it works
  on are computed, constants included.

  \<^bold>\<open>Not modelled.\<close> Display methods, log lines, search,
  filters and paging of listings, the rendering of admin pages, token signing and login
  (they belong to the JWT package), the warming of the API schema in \<open>config/wsgi.py\<close>, and
  the many files that hold only comments (views of checkout, payments, tickets and check-in,
  \<open>core/policies.py\<close> and others). Dates of events have no table in the database record, since
  only the admin site writes them; of its forms only the declarations are modelled. Ids and
  tokens that are no UUIDs, on which Django raises \<open>ValidationError\<close>, are left out.
  Interleavings inside Redis pipelines are not covered, nor are faults of requests other than
  holds, releases and sweeps. Of the test suite the timing tests, the query of PostgreSQL's
  index catalogue and the smoke test are left out.
\<close>

end
